theory Spec2Isabelle
  imports Complex_Main "HOL-Library.AList" "HOL-Library.Product_Lexorder"
begin

section \<open>Shared types (types.ts)\<close>

text \<open>
  JavaScript numbers are modelled as mathematical reals, and the special values NaN and
  the infinities are not represented. In the cost calculator, the quality estimator and
  the cache the arithmetic is exact. The budget tracker rounds its figures to a fixed
  number of decimals and compares them with thresholds, so there every operation is the
  binary64 operation of the source (section on IEEE 754 below). Timestamps (epoch
  milliseconds) and token counts are integers embedded in the reals where the source
  mixes them with costs.
\<close>

type_synonym num = real

datatype ProviderName = perplexity | openai | anthropic

datatype QueryComplexity = simple | medium | complex

datatype QueryIntent = search | reasoning | chat | creative | code

datatype ModelCapability =
  web_search | citations_cap | deep_search | reasoning_cap | chain_of_thought
  | images | code_cap | long_context

record ModelCostProfile =
  mc_provider :: ProviderName
  mc_model :: string
  inputCostPer1k :: num
  outputCostPer1k :: num
  perRequestCost :: num
  maxOutputTokens :: num
  contextWindow :: num
  suitableFor :: "QueryComplexity list"
  capabilities :: "ModelCapability list"

record CostBreakdown =
  inputCost :: num
  outputCost :: num
  bd_perRequestCost :: num

record CostEstimate =
  ce_provider :: ProviderName
  ce_model :: string
  estimatedInputTokens :: num
  estimatedOutputTokens :: num
  estimatedCost :: num
  breakdown :: CostBreakdown

record ActualCost =
  ac_provider :: ProviderName
  ac_model :: string
  inputTokens :: num
  outputTokens :: num
  totalCost :: num
  timestamp :: int

section \<open>Cost calculator (cost-calculator.ts)\<close>

definition MODEL_COSTS :: "ModelCostProfile list" where
  "MODEL_COSTS = [
     \<lparr>mc_provider = perplexity, mc_model = ''sonar'',
      inputCostPer1k = 0.001, outputCostPer1k = 0.001, perRequestCost = 0.005,
      maxOutputTokens = 16384, contextWindow = 128000,
      suitableFor = [simple], capabilities = [web_search, citations_cap]\<rparr>,
     \<lparr>mc_provider = perplexity, mc_model = ''sonar-pro'',
      inputCostPer1k = 0.003, outputCostPer1k = 0.015, perRequestCost = 0.005,
      maxOutputTokens = 16384, contextWindow = 200000,
      suitableFor = [simple, medium],
      capabilities = [web_search, deep_search, citations_cap, images]\<rparr>,
     \<lparr>mc_provider = perplexity, mc_model = ''sonar-reasoning-pro'',
      inputCostPer1k = 0.002, outputCostPer1k = 0.008, perRequestCost = 0.005,
      maxOutputTokens = 16384, contextWindow = 128000,
      suitableFor = [medium, complex],
      capabilities = [web_search, reasoning_cap, chain_of_thought, citations_cap]\<rparr>,
     \<lparr>mc_provider = openai, mc_model = ''gpt-4o-mini'',
      inputCostPer1k = 0.00015, outputCostPer1k = 0.0006, perRequestCost = 0,
      maxOutputTokens = 16384, contextWindow = 128000,
      suitableFor = [simple, medium], capabilities = [code_cap, long_context]\<rparr>,
     \<lparr>mc_provider = openai, mc_model = ''gpt-4o'',
      inputCostPer1k = 0.0025, outputCostPer1k = 0.01, perRequestCost = 0,
      maxOutputTokens = 4096, contextWindow = 128000,
      suitableFor = [medium, complex],
      capabilities = [code_cap, reasoning_cap, long_context]\<rparr>,
     \<lparr>mc_provider = anthropic, mc_model = ''claude-sonnet-4-5'',
      inputCostPer1k = 0.003, outputCostPer1k = 0.015, perRequestCost = 0,
      maxOutputTokens = 8192, contextWindow = 200000,
      suitableFor = [complex],
      capabilities = [code_cap, reasoning_cap, long_context]\<rparr>,
     \<lparr>mc_provider = anthropic, mc_model = ''claude-opus-4-6'',
      inputCostPer1k = 0.015, outputCostPer1k = 0.075, perRequestCost = 0,
      maxOutputTokens = 32768, contextWindow = 200000,
      suitableFor = [complex],
      capabilities = [code_cap, reasoning_cap, long_context]\<rparr>]"

text \<open>\<open>Array.prototype.find\<close>: the first element satisfying the predicate, or undefined.\<close>

definition getModelCostProfile :: "ProviderName \<Rightarrow> string \<Rightarrow> ModelCostProfile option" where
  "getModelCostProfile provider model =
     List.find (\<lambda>m. mc_provider m = provider \<and> mc_model m = model) MODEL_COSTS"

definition estimateCost :: "ProviderName \<Rightarrow> string \<Rightarrow> num \<Rightarrow> num \<Rightarrow> CostEstimate" where
  "estimateCost provider model inTok outTok =
     (case getModelCostProfile provider model of
        None \<Rightarrow>
          \<lparr>ce_provider = provider, ce_model = model,
           estimatedInputTokens = inTok, estimatedOutputTokens = outTok,
           estimatedCost = 0,
           breakdown = \<lparr>inputCost = 0, outputCost = 0, bd_perRequestCost = 0\<rparr>\<rparr>
      | Some profile \<Rightarrow>
          (let inputCost = (inTok / 1000) * inputCostPer1k profile;
               outputCost = (outTok / 1000) * outputCostPer1k profile;
               perRequestCost = perRequestCost profile
           in \<lparr>ce_provider = provider, ce_model = model,
               estimatedInputTokens = inTok, estimatedOutputTokens = outTok,
               estimatedCost = inputCost + outputCost + perRequestCost,
               breakdown = \<lparr>inputCost = inputCost, outputCost = outputCost,
                            bd_perRequestCost = perRequestCost\<rparr>\<rparr>))"

definition computeActualCost :: "int \<Rightarrow> ProviderName \<Rightarrow> string \<Rightarrow> num \<Rightarrow> num \<Rightarrow> ActualCost" where
  "computeActualCost now provider model inTok outTok =
     (case getModelCostProfile provider model of
        None \<Rightarrow>
          \<lparr>ac_provider = provider, ac_model = model, inputTokens = inTok,
           outputTokens = outTok, totalCost = 0, timestamp = now\<rparr>
      | Some profile \<Rightarrow>
          (let inputCost = (inTok / 1000) * inputCostPer1k profile;
               outputCost = (outTok / 1000) * outputCostPer1k profile
           in \<lparr>ac_provider = provider, ac_model = model, inputTokens = inTok,
               outputTokens = outTok,
               totalCost = inputCost + outputCost + perRequestCost profile,
               timestamp = now\<rparr>))"

section \<open>Provider responses and classified queries (providers/base.ts, types.ts)\<close>

record ClassifiedQuery =
  cq_text :: string
  complexity :: QueryComplexity
  complexityScore :: num
  intent :: QueryIntent
  isRealtime :: bool
  matchedIndicators :: "string list"
  estimatedTokens :: num

record Citation =
  url :: string
  title :: "string option"

record TokenUsage =
  tk_input :: num
  tk_output :: num
  tk_total :: num

record ChatResponse =
  cr_id :: string
  content :: string
  cr_provider :: ProviderName
  cr_model :: string
  tokens :: TokenUsage
  cr_cost :: num
  responseTimeMs :: num
  citations :: "Citation list option"
  cacheHit :: bool
  finishReason :: "string option"

section \<open>Quality estimator (quality-estimator.ts)\<close>

text \<open>
  The \<open>detail\<close> string of a signal is presentation only (it is assembled with number
  formatting) and is left out of the record.
\<close>

record QualitySignal =
  name :: string
  score :: num
  weight :: num

datatype Grade = GradeA | GradeB | GradeC | GradeD | GradeF

datatype Recommendation = accept | escalate | reject

record QualityReport =
  overallScore :: num
  signals :: "QualitySignal list"
  grade :: Grade
  confidence :: num
  recommendation :: Recommendation

record SignalWeights =
  citationQuality :: num
  confidenceLanguage :: num
  structuralCompleteness :: num
  lengthAppropriateness :: num
  latencyVsExpected :: num
  tokenEfficiency :: num

definition SIGNAL_WEIGHTS :: SignalWeights where
  "SIGNAL_WEIGHTS =
     \<lparr>citationQuality = 0.25, confidenceLanguage = 0.2, structuralCompleteness = 0.2,
      lengthAppropriateness = 0.15, latencyVsExpected = 0.1, tokenEfficiency = 0.1\<rparr>"

record ExpectedTokens =
  et_min :: num
  et_max :: num
  et_ideal :: num

fun EXPECTED_TOKENS_BY_COMPLEXITY :: "QueryComplexity \<Rightarrow> ExpectedTokens" where
  "EXPECTED_TOKENS_BY_COMPLEXITY simple = \<lparr>et_min = 50, et_max = 500, et_ideal = 200\<rparr>"
| "EXPECTED_TOKENS_BY_COMPLEXITY medium = \<lparr>et_min = 150, et_max = 1500, et_ideal = 600\<rparr>"
| "EXPECTED_TOKENS_BY_COMPLEXITY complex = \<lparr>et_min = 300, et_max = 4000, et_ideal = 1500\<rparr>"

fun EXPECTED_LATENCY_BY_COMPLEXITY :: "QueryComplexity \<Rightarrow> num" where
  "EXPECTED_LATENCY_BY_COMPLEXITY simple = 2000"
| "EXPECTED_LATENCY_BY_COMPLEXITY medium = 5000"
| "EXPECTED_LATENCY_BY_COMPLEXITY complex = 10000"

text \<open>
  The regular expressions of the source are named, not parsed: the regex engine is a
  parameter \<open>test :: Pattern \<Rightarrow> string \<Rightarrow> bool\<close> (\<open>RegExp.prototype.test\<close>). The
  constructors follow the source order of the three pattern tables; the last four are the
  structural patterns of \<open>scoreStructuralCompleteness\<close>.
\<close>

datatype Pattern =
  H_is | H_are | H_shows | H_demonstrates | H_according_to | H_evidence | H_research
  | H_specifically | H_in_conclusion | H_proven | H_data_shows | H_studies | H_confirmed
  | L_i_am_not_sure | L_i_dont_know | L_perhaps | L_might | L_could_be | L_i_think
  | L_possibly | L_its_unclear | L_not_certain | L_hard_to_say | L_i_cannot | L_i_can_not
  | L_unable_to | L_dont_have_access | L_may_or_may_not
  | R_i_cannot_help | R_im_unable | R_as_an_ai | R_i_dont_have_the_ability
  | R_not_able_or_equipped_to
  | S_headings | S_list | S_code_block | S_bold

definition HIGH_CONFIDENCE_PATTERNS :: "Pattern list" where
  "HIGH_CONFIDENCE_PATTERNS =
     [H_is, H_are, H_shows, H_demonstrates, H_according_to, H_evidence, H_research,
      H_specifically, H_in_conclusion, H_proven, H_data_shows, H_studies, H_confirmed]"

definition LOW_CONFIDENCE_PATTERNS :: "Pattern list" where
  "LOW_CONFIDENCE_PATTERNS =
     [L_i_am_not_sure, L_i_dont_know, L_perhaps, L_might, L_could_be, L_i_think,
      L_possibly, L_its_unclear, L_not_certain, L_hard_to_say, L_i_cannot, L_i_can_not,
      L_unable_to, L_dont_have_access, L_may_or_may_not]"

definition REFUSAL_PATTERNS :: "Pattern list" where
  "REFUSAL_PATTERNS =
     [R_i_cannot_help, R_im_unable, R_as_an_ai, R_i_dont_have_the_ability,
      R_not_able_or_equipped_to]"

text \<open>
  The platform functions the estimator calls: the regex engine and the URL parser
  (\<open>new URL(u).hostname\<close>, \<open>None\<close> where the constructor throws).
\<close>

record Platform =
  test :: "Pattern \<Rightarrow> string \<Rightarrow> bool"
  hostname :: "string \<Rightarrow> string option"

definition scoreCitationQuality :: "Platform \<Rightarrow> ChatResponse \<Rightarrow> QualitySignal" where
  "scoreCitationQuality pf response =
     (let cits = (case citations response of None \<Rightarrow> [] | Some cs \<Rightarrow> cs);
          count = length cits;
          score0 =
            (if count = 0 then (if cr_provider response = perplexity then 3.0 else 6.0)
             else if count = 1 then 6.0
             else if count \<ge> 2 \<and> count \<le> 5 then 9.0
             else if count \<le> 8 then 7.5
             else 6.0);
          score1 =
            (if count \<ge> 2 then
               (let domains =
                      set (map (\<lambda>c. case hostname pf (url c) of
                                       Some h \<Rightarrow> h | None \<Rightarrow> ''unknown'') cits)
                in if card domains \<ge> min 3 count then min 10 (score0 + 0.5) else score0)
             else score0)
      in \<lparr>name = ''citationQuality'', score = score1,
          weight = citationQuality SIGNAL_WEIGHTS\<rparr>)"

definition scoreConfidenceLanguage :: "Platform \<Rightarrow> ChatResponse \<Rightarrow> QualitySignal" where
  "scoreConfidenceLanguage pf response =
     (let text = content response;
          highCount = length (filter (\<lambda>p. test pf p text) HIGH_CONFIDENCE_PATTERNS);
          lowCount = length (filter (\<lambda>p. test pf p text) LOW_CONFIDENCE_PATTERNS);
          refusalCount = length (filter (\<lambda>p. test pf p text) REFUSAL_PATTERNS)
      in if refusalCount > 0 then
           \<lparr>name = ''confidenceLanguage'', score = 1.0,
            weight = confidenceLanguage SIGNAL_WEIGHTS\<rparr>
         else
           (let net = real highCount - real lowCount * 2;
                score1 = 7.0 + max (-5) (min 3 (net * 0.5));
                score2 = max 0 (min 10 score1)
            in \<lparr>name = ''confidenceLanguage'', score = score2,
                weight = confidenceLanguage SIGNAL_WEIGHTS\<rparr>))"

text \<open>
  \<open>text.split(/\n\n+/).length\<close>: one more than the number of maximal runs of two or more
  line feeds. The first argument counts the line feeds of the run being read.
\<close>

fun count_blank_runs :: "nat \<Rightarrow> string \<Rightarrow> nat" where
  "count_blank_runs k [] = (if k \<ge> 2 then 1 else 0)"
| "count_blank_runs k (c # cs) =
     (if c = CHR 0x0A then count_blank_runs (Suc k) cs
      else (if k \<ge> 2 then 1 else 0) + count_blank_runs 0 cs)"

definition paragraphCount :: "string \<Rightarrow> nat" where
  "paragraphCount text = count_blank_runs 0 text + 1"

definition scoreStructuralCompleteness ::
  "Platform \<Rightarrow> ChatResponse \<Rightarrow> ClassifiedQuery \<Rightarrow> QualitySignal" where
  "scoreStructuralCompleteness pf response query =
     (let text = content response;
          hasHeadings = test pf S_headings text;
          hasList = test pf S_list text;
          hasCodeBlock = test pf S_code_block text;
          hasBold = test pf S_bold text;
          paragraphs = paragraphCount text;
          score1 =
            (if complexity query = simple then
               5.0 + (if paragraphs \<ge> 1 then 2 else 0)
                   + (if hasList \<or> hasBold then 1 else 0)
                   + (if length text > 50 then 1 else 0)
             else if complexity query = medium then
               5.0 + (if paragraphs \<ge> 2 then 1 else 0)
                   + (if hasHeadings then 1 else 0)
                   + (if hasList then 1 else 0)
                   + (if hasBold then 0.5 else 0)
                   + (if length text > 200 then 1 else 0)
             else
               5.0 + (if hasHeadings then 1.5 else 0)
                   + (if hasList then 1 else 0)
                   + (if hasCodeBlock \<and> intent query = code then 1 else 0)
                   + (if hasBold then 0.5 else 0)
                   + (if paragraphs \<ge> 3 then 1 else 0));
          score2 = (if intent query = code \<and> \<not> hasCodeBlock then score1 - 2 else score1);
          score3 = max 0 (min 10 score2)
      in \<lparr>name = ''structuralCompleteness'', score = score3,
          weight = structuralCompleteness SIGNAL_WEIGHTS\<rparr>)"

definition scoreLengthAppropriateness :: "ChatResponse \<Rightarrow> ClassifiedQuery \<Rightarrow> QualitySignal" where
  "scoreLengthAppropriateness response query =
     (let expected = EXPECTED_TOKENS_BY_COMPLEXITY (complexity query);
          totalTokens = tk_output (tokens response);
          score1 =
            (if totalTokens < et_min expected then
               (let ratio = totalTokens / et_min expected in max 2 (ratio * 7))
             else if totalTokens > et_max expected then
               (let overRatio = totalTokens / et_max expected
                in max 4 (10 - (overRatio - 1) * 3))
             else
               (let dist = \<bar>totalTokens - et_ideal expected\<bar> / et_ideal expected
                in max 7 (10 - dist * 3)));
          score2 = max 0 (min 10 score1)
      in \<lparr>name = ''lengthAppropriateness'', score = score2,
          weight = lengthAppropriateness SIGNAL_WEIGHTS\<rparr>)"

definition scoreLatencyVsExpected :: "ChatResponse \<Rightarrow> ClassifiedQuery \<Rightarrow> QualitySignal" where
  "scoreLatencyVsExpected response query =
     (let expectedMs = EXPECTED_LATENCY_BY_COMPLEXITY (complexity query);
          actualMs = responseTimeMs response;
          score1 =
            (if actualMs \<le> 0 then 7
             else if actualMs \<le> expectedMs * 0.5 then 10
             else if actualMs \<le> expectedMs then 9
             else if actualMs \<le> expectedMs * 2 then 6
             else 3)
      in \<lparr>name = ''latencyVsExpected'', score = score1,
          weight = latencyVsExpected SIGNAL_WEIGHTS\<rparr>)"

definition scoreTokenEfficiency :: "ChatResponse \<Rightarrow> QualitySignal" where
  "scoreTokenEfficiency response =
     (let inp = tk_input (tokens response); out = tk_output (tokens response)
      in if inp = 0 \<or> out = 0 then
           \<lparr>name = ''tokenEfficiency'', score = 5, weight = tokenEfficiency SIGNAL_WEIGHTS\<rparr>
         else
           (let ratio = out / inp;
                score1 =
                  (if ratio < 0.5 then 4
                   else if ratio \<ge> 0.5 \<and> ratio \<le> 5 then 9
                   else if ratio \<le> 10 then 7
                   else 5)
            in \<lparr>name = ''tokenEfficiency'', score = score1,
                weight = tokenEfficiency SIGNAL_WEIGHTS\<rparr>))"

definition computeConfidence :: "QualitySignal list \<Rightarrow> num" where
  "computeConfidence sigs =
     (let scores = map score sigs;
          mean = foldl (\<lambda>a b. a + b) 0 scores / real (length scores);
          variance = foldl (\<lambda>sum s. sum + (s - mean) ^ 2) 0 scores / real (length scores);
          stddev = sqrt variance
      in max 0.2 (min 1.0 (1 - stddev / 5)))"

definition toGrade :: "num \<Rightarrow> Grade" where
  "toGrade s =
     (if s \<ge> 8.5 then GradeA else if s \<ge> 7.0 then GradeB else if s \<ge> 5.0 then GradeC
      else if s \<ge> 3.0 then GradeD else GradeF)"

fun recommendationThresholds :: "QueryComplexity \<Rightarrow> num \<times> num" where
  "recommendationThresholds simple = (6, 3)"
| "recommendationThresholds medium = (7, 4)"
| "recommendationThresholds complex = (8, 5)"

definition toRecommendation :: "num \<Rightarrow> ClassifiedQuery \<Rightarrow> Recommendation" where
  "toRecommendation s query =
     (let t = recommendationThresholds (complexity query)
      in if s \<ge> fst t then accept else if s \<ge> snd t then escalate else reject)"

definition signalsOf :: "Platform \<Rightarrow> ChatResponse \<Rightarrow> ClassifiedQuery \<Rightarrow> QualitySignal list" where
  "signalsOf pf response query =
     [scoreCitationQuality pf response,
      scoreConfidenceLanguage pf response,
      scoreStructuralCompleteness pf response query,
      scoreLengthAppropriateness response query,
      scoreLatencyVsExpected response query,
      scoreTokenEfficiency response]"

definition estimate :: "Platform \<Rightarrow> ChatResponse \<Rightarrow> ClassifiedQuery \<Rightarrow> QualityReport" where
  "estimate pf response query =
     (let sigs = signalsOf pf response query;
          overall = foldl (\<lambda>sum s. sum + score s * weight s) 0 sigs;
          conf = computeConfidence sigs;
          g = toGrade overall;
          r = toRecommendation overall query
      in \<lparr>overallScore = overall, signals = sigs, grade = g, confidence = conf,
          recommendation = r\<rparr>)"

section \<open>IEEE 754 binary64 arithmetic\<close>

text \<open>
  A finite double is the real it denotes. An arithmetic operation of JavaScript computes
  the exact result and rounds it to the nearest double, a tie going to the double with
  the even significand. \<open>binade x\<close> is the exponent \<open>e\<close> with \<open>2^e \<le> x < 2^(e+1)\<close>;
  doubles with exponent \<open>e\<close> are the multiples of \<open>2^(e-52)\<close>, and below \<open>2^-1022\<close>
  (subnormal numbers) the multiples of \<open>2^-1074\<close>. Results beyond the largest double
  (about \<open>1.8e308\<close>), which JavaScript gives as \<open>Infinity\<close>, are outside the model.
\<close>

definition binade :: "real \<Rightarrow> int" where
  "binade x = (if x \<le> 0 then 0 else \<lfloor>log 2 x\<rfloor>)"

definition roundTiesToEven :: "real \<Rightarrow> int" where
  "roundTiesToEven q =
     (let n = \<lfloor>q\<rfloor>; r = q - of_int n
      in if r < 1 / 2 then n else if 1 / 2 < r then n + 1 else if even n then n else n + 1)"

text \<open>The double nearest to a real; a number literal of the source denotes this double.\<close>

definition roundToDouble :: "real \<Rightarrow> num" where
  "roundToDouble x =
     (if x = 0 then 0
      else (let e = max (binade \<bar>x\<bar>) (- 1022);
                ulp = 2 powi (e - 52)
            in sgn x * of_int (roundTiesToEven (\<bar>x\<bar> / ulp)) * ulp))"

text \<open>The operators \<open>+\<close>, \<open>-\<close>, \<open>*\<close> and \<open>/\<close> on doubles.\<close>

definition fadd :: "num \<Rightarrow> num \<Rightarrow> num" where
  "fadd x y = roundToDouble (x + y)"

definition fsub :: "num \<Rightarrow> num \<Rightarrow> num" where
  "fsub x y = roundToDouble (x - y)"

definition fmul :: "num \<Rightarrow> num \<Rightarrow> num" where
  "fmul x y = roundToDouble (x * y)"

definition fdiv :: "num \<Rightarrow> num \<Rightarrow> num" where
  "fdiv x y = roundToDouble (x / y)"

text \<open>
  \<open>Math.round\<close> rounds to the nearest integer, halves towards plus infinity; the result
  is exact.
\<close>

definition Math_round :: "num \<Rightarrow> num" where
  "Math_round x = real_of_int \<lfloor>x + 1 / 2\<rfloor>"

section \<open>Budget tracker (budget-tracker.ts)\<close>

datatype BudgetPeriod = daily | weekly | monthly

record BudgetStatus =
  period :: BudgetPeriod
  limit :: num
  spent :: num
  remaining :: num
  percentUsed :: num
  periodStart :: int
  periodEnd :: int

datatype AlertAction = log | notify | emergency_mode

record BudgetAlertThreshold =
  percentage :: num
  action :: AlertAction
  channels :: "string list option"

record EmergencyModeConfig =
  enabled :: bool
  forceCheapestModels :: bool
  disableProviders :: "ProviderName list"
  notifyAdmin :: bool

record BudgetConfig =
  dailyLimit :: num
  weeklyLimit :: num
  monthlyLimit :: num
  alertThresholds :: "BudgetAlertThreshold list"
  emergencyMode :: EmergencyModeConfig

text \<open>\<open>Partial<BudgetConfig>\<close>: every field may be absent.\<close>

record PartialBudgetConfig =
  p_dailyLimit :: "num option"
  p_weeklyLimit :: "num option"
  p_monthlyLimit :: "num option"
  p_alertThresholds :: "BudgetAlertThreshold list option"
  p_emergencyMode :: "EmergencyModeConfig option"

definition DEFAULT_BUDGET_CONFIG :: BudgetConfig where
  "DEFAULT_BUDGET_CONFIG =
     \<lparr>dailyLimit = 5.0, weeklyLimit = 30.0, monthlyLimit = 100.0,
      alertThresholds =
        [\<lparr>percentage = 50, action = log, channels = None\<rparr>,
         \<lparr>percentage = 80, action = notify, channels = Some [''telegram'']\<rparr>,
         \<lparr>percentage = 95, action = emergency_mode, channels = None\<rparr>],
      emergencyMode =
        \<lparr>enabled = True, forceCheapestModels = True, disableProviders = [anthropic],
         notifyAdmin = True\<rparr>\<rparr>"

text \<open>The object spread \<open>{ ...base, ...override }\<close>: a present field of the override wins.\<close>

definition mergeConfig :: "BudgetConfig \<Rightarrow> PartialBudgetConfig \<Rightarrow> BudgetConfig" where
  "mergeConfig base ov =
     \<lparr>dailyLimit = (case p_dailyLimit ov of None \<Rightarrow> dailyLimit base | Some v \<Rightarrow> v),
      weeklyLimit = (case p_weeklyLimit ov of None \<Rightarrow> weeklyLimit base | Some v \<Rightarrow> v),
      monthlyLimit = (case p_monthlyLimit ov of None \<Rightarrow> monthlyLimit base | Some v \<Rightarrow> v),
      alertThresholds =
        (case p_alertThresholds ov of None \<Rightarrow> alertThresholds base | Some v \<Rightarrow> v),
      emergencyMode =
        (case p_emergencyMode ov of None \<Rightarrow> emergencyMode base | Some v \<Rightarrow> v)\<rparr>"

subsection \<open>Period helpers\<close>

text \<open>
  The local-time calendar of JavaScript's \<open>Date\<close> depends on the time zone of the
  process, so it is a parameter: the getters read an epoch-millisecond timestamp,
  \<open>newDate y m d\<close> is \<open>new Date(y, m, d).getTime()\<close>, and \<open>setDate\<close> and \<open>setHours0\<close>
  give the timestamp a \<open>Date\<close> holds after \<open>setDate(n)\<close> and \<open>setHours(0, 0, 0, 0)\<close>.
\<close>

record DateApi =
  getFullYear :: "int \<Rightarrow> int"
  getMonth :: "int \<Rightarrow> int"
  getDate :: "int \<Rightarrow> int"
  getDay :: "int \<Rightarrow> int"
  newDate :: "int \<Rightarrow> int \<Rightarrow> int \<Rightarrow> int"
  setDate :: "int \<Rightarrow> int \<Rightarrow> int"
  setHours0 :: "int \<Rightarrow> int"

fun getPeriodBounds :: "DateApi \<Rightarrow> BudgetPeriod \<Rightarrow> int \<Rightarrow> int \<times> int" where
  "getPeriodBounds api daily now =
     (let start = newDate api (getFullYear api now) (getMonth api now) (getDate api now);
          end = start + 24 * 60 * 60 * 1000
      in (start, end))"
| "getPeriodBounds api weekly now =
     (let dayOfWeek = getDay api now;
          monday = setDate api now (getDate api now - ((dayOfWeek + 6) mod 7));
          monday = setHours0 api monday;
          start = monday;
          end = start + 7 * 24 * 60 * 60 * 1000
      in (start, end))"
| "getPeriodBounds api monthly now =
     (let start = newDate api (getFullYear api now) (getMonth api now) 1;
          end = newDate api (getFullYear api now) (getMonth api now + 1) 1
      in (start, end))"

fun getLimit :: "BudgetConfig \<Rightarrow> BudgetPeriod \<Rightarrow> num" where
  "getLimit config daily = dailyLimit config"
| "getLimit config weekly = weeklyLimit config"
| "getLimit config monthly = monthlyLimit config"

subsection \<open>A calendar for the concrete examples: a process in the UTC time zone\<close>

text \<open>Days since 1970-01-01 to and from the proleptic Gregorian calendar (months 1 to 12).\<close>

definition days_from_civil :: "int \<Rightarrow> int \<Rightarrow> int \<Rightarrow> int" where
  "days_from_civil y m d =
     (let y1 = (if m \<le> 2 then y - 1 else y);
          era = y1 div 400;
          yoe = y1 - era * 400;
          doy = (153 * (if m > 2 then m - 3 else m + 9) + 2) div 5 + d - 1;
          doe = yoe * 365 + yoe div 4 - yoe div 100 + doy
      in era * 146097 + doe - 719468)"

definition civil_from_days :: "int \<Rightarrow> int \<times> int \<times> int" where
  "civil_from_days z =
     (let z1 = z + 719468;
          era = z1 div 146097;
          doe = z1 - era * 146097;
          yoe = (doe - doe div 1460 + doe div 36524 - doe div 146096) div 365;
          doy = doe - (365 * yoe + yoe div 4 - yoe div 100);
          mp = (5 * doy + 2) div 153;
          d = doy - (153 * mp + 2) div 5 + 1;
          m = (if mp < 10 then mp + 3 else mp - 9);
          y = yoe + era * 400
      in (if m \<le> 2 then y + 1 else y, m, d))"

definition MS_PER_DAY :: int where
  "MS_PER_DAY = 86400000"

definition utcDate :: DateApi where
  "utcDate =
     \<lparr>getFullYear = (\<lambda>t. fst (civil_from_days (t div MS_PER_DAY))),
      getMonth = (\<lambda>t. fst (snd (civil_from_days (t div MS_PER_DAY))) - 1),
      getDate = (\<lambda>t. snd (snd (civil_from_days (t div MS_PER_DAY)))),
      getDay = (\<lambda>t. (t div MS_PER_DAY + 4) mod 7),
      newDate = (\<lambda>y m d.
        (days_from_civil (y + m div 12) (m mod 12 + 1) 1 + (d - 1)) * MS_PER_DAY),
      setDate = (\<lambda>t n. t + (n - snd (snd (civil_from_days (t div MS_PER_DAY)))) * MS_PER_DAY),
      setHours0 = (\<lambda>t. t - t mod MS_PER_DAY)\<rparr>"

subsection \<open>The tracker\<close>

text \<open>
  The alert key of the source is the string \<open>`${percentage}-${action}`\<close>; number printing
  is injective and no action name contains a hyphen, so the key is modelled as the pair.
\<close>

type_synonym AlertKey = "num \<times> AlertAction"

record BudgetTracker =
  costs :: "ActualCost list"
  config :: BudgetConfig
  emergencyModeActive :: bool
  alertsFired :: "AlertKey set"

definition newBudgetTracker :: "PartialBudgetConfig \<Rightarrow> BudgetTracker" where
  "newBudgetTracker cfg =
     \<lparr>costs = [], config = mergeConfig DEFAULT_BUDGET_CONFIG cfg,
      emergencyModeActive = False, alertsFired = {}\<rparr>"

definition noOverride :: PartialBudgetConfig where
  "noOverride =
     \<lparr>p_dailyLimit = None, p_weeklyLimit = None, p_monthlyLimit = None,
      p_alertThresholds = None, p_emergencyMode = None\<rparr>"

text \<open>
  \<open>Date.now()\<close> is the argument \<open>now\<close> of every operation that reads the clock. The
  sum, the difference, the quotients and the products of \<open>getStatus\<close> are binary64
  operations, in the order of the source.
\<close>

definition getStatus :: "DateApi \<Rightarrow> BudgetTracker \<Rightarrow> BudgetPeriod \<Rightarrow> int \<Rightarrow> BudgetStatus" where
  "getStatus api this p now =
     (let (start, end) = getPeriodBounds api p now;
          lim = getLimit (config this) p;
          spent0 = foldl (\<lambda>sum c. fadd sum (totalCost c)) 0
                    (filter (\<lambda>c. timestamp c \<ge> start \<and> timestamp c < end) (costs this));
          remaining0 = max 0 (fsub lim spent0);
          percentUsed0 = (if lim > 0 then fmul (fdiv spent0 lim) 100 else 0)
      in \<lparr>period = p, limit = lim,
          spent = fdiv (Math_round (fmul spent0 1000000)) 1000000,
          remaining = fdiv (Math_round (fmul remaining0 1000000)) 1000000,
          percentUsed = fdiv (Math_round (fmul percentUsed0 100)) 100,
          periodStart = start, periodEnd = end\<rparr>)"

text \<open>
  \<open>fireAlert\<close> writes to the console; its only effect on the tracker is the latch of the
  \<open>emergency_mode\<close> case.
\<close>

fun fireAlert :: "AlertAction \<Rightarrow> BudgetStatus \<Rightarrow> string list option \<Rightarrow> BudgetTracker \<Rightarrow> BudgetTracker" where
  "fireAlert log status chans this = this"
| "fireAlert notify status chans this = this"
| "fireAlert emergency_mode status chans this =
     (if enabled (emergencyMode (config this)) then this\<lparr>emergencyModeActive := True\<rparr>
      else this)"

definition alertKey :: "BudgetAlertThreshold \<Rightarrow> AlertKey" where
  "alertKey threshold = (percentage threshold, action threshold)"

text \<open>The body of the loop of \<open>checkAlerts\<close>, for one threshold.\<close>

definition checkThreshold :: "BudgetStatus \<Rightarrow> BudgetTracker \<Rightarrow> BudgetAlertThreshold \<Rightarrow> BudgetTracker" where
  "checkThreshold dailySt this threshold =
     (if percentUsed dailySt \<ge> percentage threshold \<and> alertKey threshold \<notin> alertsFired this
      then fireAlert (action threshold) dailySt (channels threshold)
             (this\<lparr>alertsFired := insert (alertKey threshold) (alertsFired this)\<rparr>)
      else this)"

definition checkAlerts :: "DateApi \<Rightarrow> int \<Rightarrow> BudgetTracker \<Rightarrow> BudgetTracker" where
  "checkAlerts api now this =
     foldl (checkThreshold (getStatus api this daily now)) this
       (alertThresholds (config this))"

definition recordCost :: "DateApi \<Rightarrow> int \<Rightarrow> ActualCost \<Rightarrow> BudgetTracker \<Rightarrow> BudgetTracker" where
  "recordCost api now c this = checkAlerts api now (this\<lparr>costs := costs this @ [c]\<rparr>)"

definition dailyRemaining :: "DateApi \<Rightarrow> BudgetTracker \<Rightarrow> int \<Rightarrow> num" where
  "dailyRemaining api this now = remaining (getStatus api this daily now)"

definition isEmergencyMode :: "BudgetTracker \<Rightarrow> bool" where
  "isEmergencyMode this = emergencyModeActive this"

definition setEmergencyMode :: "bool \<Rightarrow> BudgetTracker \<Rightarrow> BudgetTracker" where
  "setEmergencyMode active this = this\<lparr>emergencyModeActive := active\<rparr>"

definition isProviderDisabled :: "BudgetTracker \<Rightarrow> ProviderName \<Rightarrow> bool" where
  "isProviderDisabled this provider =
     (if \<not> emergencyModeActive this then False
      else provider \<in> set (disableProviders (emergencyMode (config this))))"

definition getTodaySpend :: "DateApi \<Rightarrow> BudgetTracker \<Rightarrow> int \<Rightarrow> num" where
  "getTodaySpend api this now = spent (getStatus api this daily now)"

definition getQueryCount :: "DateApi \<Rightarrow> BudgetTracker \<Rightarrow> BudgetPeriod \<Rightarrow> int \<Rightarrow> nat" where
  "getQueryCount api this p now =
     (let (start, end) = getPeriodBounds api p now
      in length (filter (\<lambda>c. timestamp c \<ge> start \<and> timestamp c < end) (costs this)))"

definition updateConfig :: "DateApi \<Rightarrow> int \<Rightarrow> PartialBudgetConfig \<Rightarrow> BudgetTracker \<Rightarrow> BudgetTracker" where
  "updateConfig api now cfg this =
     checkAlerts api now (this\<lparr>config := mergeConfig (config this) cfg, alertsFired := {}\<rparr>)"

definition prune :: "int \<Rightarrow> BudgetTracker \<Rightarrow> BudgetTracker" where
  "prune now this =
     (let cutoff = now - 90 * 24 * 60 * 60 * 1000
      in this\<lparr>costs := filter (\<lambda>c. timestamp c \<ge> cutoff) (costs this)\<rparr>)"

definition resetAlerts :: "BudgetTracker \<Rightarrow> BudgetTracker" where
  "resetAlerts this = this\<lparr>alertsFired := {}, emergencyModeActive := False\<rparr>"

text \<open>
  The public operations of the tracker as a step function from state to state, each taken
  at the clock reading \<open>now\<close>. The getters (\<open>getStatus\<close>, \<open>getAllStatuses\<close>,
  \<open>dailyRemaining\<close>, \<open>isEmergencyMode\<close>, \<open>isProviderDisabled\<close>, \<open>getTodaySpend\<close>,
  \<open>getCostByProvider\<close>, \<open>getCostByModel\<close>, \<open>getQueryCount\<close>) assign no field and
  are the single operation \<open>Read\<close>.
\<close>

datatype TrackerOp =
  RecordCost ActualCost
  | Read
  | SetEmergencyMode bool
  | UpdateConfig PartialBudgetConfig
  | Prune
  | ResetAlerts

fun applyOp :: "DateApi \<Rightarrow> BudgetTracker \<Rightarrow> int \<times> TrackerOp \<Rightarrow> BudgetTracker" where
  "applyOp api this (now, RecordCost c) = recordCost api now c this"
| "applyOp api this (now, Read) = this"
| "applyOp api this (now, SetEmergencyMode active) = setEmergencyMode active this"
| "applyOp api this (now, UpdateConfig cfg) = updateConfig api now cfg this"
| "applyOp api this (now, Prune) = prune now this"
| "applyOp api this (now, ResetAlerts) = resetAlerts this"

definition runOps :: "DateApi \<Rightarrow> BudgetTracker \<Rightarrow> (int \<times> TrackerOp) list \<Rightarrow> BudgetTracker" where
  "runOps api this ops = foldl (applyOp api) this ops"

section \<open>Cascade executor (smart-router.ts)\<close>

record CascadeStep =
  st_provider :: ProviderName
  st_model :: string
  qualityThreshold :: num
  maxCost :: num

record 'T CascadeResult =
  cr_response :: 'T
  res_provider :: ProviderName
  res_model :: string
  step :: nat
  totalSteps :: nat
  res_totalCost :: num

text \<open>The argument of the \<open>onStep\<close> callback.\<close>

record StepInfo =
  si_provider :: ProviderName
  si_model :: string
  quality :: num
  index :: nat

text \<open>
  What a call can throw. \<open>AllCascadeStepsFailed\<close> is the \<open>Error\<close> with the message
  "All cascade steps failed"; \<open>TypeError\<close> is what reading \<open>params.chain[0].provider\<close>
  throws on an empty chain.
\<close>

datatype Exn =
  TypeError
  | AllCascadeStepsFailed
  | BudgetExceededError string num num
  | ProviderNotRegistered ProviderName
  | ProviderFailure string

text \<open>
  \<open>run\<close> is an effectful callback (a provider call): it may reject, and two calls with the
  same arguments may differ. The model gives it the position of the call as a first
  argument, \<open>run i provider model\<close> being the outcome of the call made for step \<open>i\<close>
  (the loop calls \<open>run\<close> once per step it reaches), \<open>Inl\<close> a rejection. \<open>evaluate\<close>
  returns a number, as its type says. The effects of the callbacks are returned for the
  caller to replay: the calls of the optional \<open>onStep\<close> as a list, in order, and the
  number of calls of \<open>run\<close> (they are the calls for the steps \<open>0\<close> to
  \<open>runCalls - 1\<close>).
\<close>

record 'T CascadeLoop =
  bestResponse :: "'T option"
  bestQuality :: num
  bestProvider :: ProviderName
  bestModel :: string
  bestStep :: nat
  totalCost_acc :: num
  onStepCalls :: "StepInfo list"
  runCalls :: nat

text \<open>
  The \<open>for\<close> loop from step \<open>i\<close> on, over the steps not yet tried. The result is the loop
  state together with the value of the \<open>return\<close> inside the loop, if it was reached.
\<close>

fun cascadeLoop ::
  "(nat \<Rightarrow> ProviderName \<Rightarrow> string \<Rightarrow> 'e + 'T) \<Rightarrow> ('T \<Rightarrow> num) \<Rightarrow> nat \<Rightarrow>
   CascadeStep list \<Rightarrow> nat \<Rightarrow> 'T CascadeLoop \<Rightarrow> 'T CascadeLoop \<times> 'T CascadeResult option" where
  "cascadeLoop run evaluate n [] i s = (s, None)"
| "cascadeLoop run evaluate n (stp # rest) i s =
     (case run i (st_provider stp) (st_model stp) of
        Inl err \<Rightarrow> cascadeLoop run evaluate n rest (Suc i) (s\<lparr>runCalls := runCalls s + 1\<rparr>)
      | Inr response \<Rightarrow>
          (let q = evaluate response;
               s1 = s\<lparr>runCalls := runCalls s + 1, onStepCalls := onStepCalls s @
                      [\<lparr>si_provider = st_provider stp, si_model = st_model stp,
                        quality = q, index = i\<rparr>]\<rparr>;
               s2 = (if q > bestQuality s1
                     then s1\<lparr>bestResponse := Some response, bestQuality := q,
                             bestProvider := st_provider stp, bestModel := st_model stp,
                             bestStep := i\<rparr>
                     else s1)
           in if q \<ge> qualityThreshold stp
              then (s2, Some \<lparr>cr_response = response, res_provider = st_provider stp,
                              res_model = st_model stp, step = i, totalSteps = n,
                              res_totalCost = totalCost_acc s2\<rparr>)
              else cascadeLoop run evaluate n rest (Suc i) s2))"

definition executeCascade ::
  "CascadeStep list \<Rightarrow> (nat \<Rightarrow> ProviderName \<Rightarrow> string \<Rightarrow> 'e + 'T) \<Rightarrow> ('T \<Rightarrow> num) \<Rightarrow>
   (Exn + 'T CascadeResult) \<times> StepInfo list \<times> nat" where
  "executeCascade chain run evaluate =
     (case chain of
        [] \<Rightarrow> (Inl TypeError, [], 0)
      | first # _ \<Rightarrow>
          (let s0 = \<lparr>bestResponse = None, bestQuality = 0,
                     bestProvider = st_provider first, bestModel = st_model first,
                     bestStep = 0, totalCost_acc = 0, onStepCalls = [], runCalls = 0\<rparr>;
               (s, returned) = cascadeLoop run evaluate (length chain) chain 0 s0
           in case returned of
                Some r \<Rightarrow> (Inr r, onStepCalls s, runCalls s)
              | None \<Rightarrow>
                  (case bestResponse s of
                     None \<Rightarrow> (Inl AllCascadeStepsFailed, onStepCalls s, runCalls s)
                   | Some best \<Rightarrow>
                       (Inr \<lparr>cr_response = best, res_provider = bestProvider s,
                             res_model = bestModel s, step = bestStep s,
                             totalSteps = length chain, res_totalCost = totalCost_acc s\<rparr>,
                        onStepCalls s, runCalls s))))"

subsection \<open>Notions for stating the properties of the executor\<close>

text \<open>The response and the score of step \<open>i\<close> of a chain, \<open>None\<close> where its \<open>run\<close> rejects.\<close>

definition stepResponse ::
  "(nat \<Rightarrow> ProviderName \<Rightarrow> string \<Rightarrow> 'e + 'T) \<Rightarrow> CascadeStep list \<Rightarrow> nat \<Rightarrow> 'T option" where
  "stepResponse run chain i =
     (case run i (st_provider (chain ! i)) (st_model (chain ! i)) of
        Inl err \<Rightarrow> None | Inr response \<Rightarrow> Some response)"

definition stepScore ::
  "(nat \<Rightarrow> ProviderName \<Rightarrow> string \<Rightarrow> 'e + 'T) \<Rightarrow> ('T \<Rightarrow> num) \<Rightarrow> CascadeStep list \<Rightarrow> nat \<Rightarrow> num option" where
  "stepScore run evaluate chain i = map_option evaluate (stepResponse run chain i)"

definition meetsThreshold ::
  "(nat \<Rightarrow> ProviderName \<Rightarrow> string \<Rightarrow> 'e + 'T) \<Rightarrow> ('T \<Rightarrow> num) \<Rightarrow> CascadeStep list \<Rightarrow> nat \<Rightarrow> bool" where
  "meetsThreshold run evaluate chain i =
     (case stepScore run evaluate chain i of
        None \<Rightarrow> False | Some q \<Rightarrow> q \<ge> qualityThreshold (chain ! i))"

text \<open>The fields of the loop state that describe the best response so far.\<close>

definition bestOf :: "'T CascadeLoop \<Rightarrow> 'T option \<times> num \<times> ProviderName \<times> string \<times> nat" where
  "bestOf s = (bestResponse s, bestQuality s, bestProvider s, bestModel s, bestStep s)"

section \<open>Shared helpers (utils/helpers.ts)\<close>

text \<open>
  Strings are byte strings and the text functions below are the ASCII behaviour of the
  JavaScript ones: \<open>\s\<close> is space, tab, line feed, vertical tab, form feed and carriage
  return, \<open>\w\<close> is a letter, a digit or the underscore, and \<open>toLowerCase\<close> maps
  \<open>A\<close>..\<open>Z\<close> to \<open>a\<close>..\<open>z\<close>.
\<close>

definition isSpace :: "char \<Rightarrow> bool" where
  "isSpace c = (of_char c \<in> {32, 9, 10, 11, 12, 13 :: nat})"

definition isWordChar :: "char \<Rightarrow> bool" where
  "isWordChar c =
     (let n = of_char c :: nat
      in (65 \<le> n \<and> n \<le> 90) \<or> (97 \<le> n \<and> n \<le> 122) \<or> (48 \<le> n \<and> n \<le> 57) \<or> n = 95)"

definition toLowerChar :: "char \<Rightarrow> char" where
  "toLowerChar c =
     (let n = of_char c :: nat in if 65 \<le> n \<and> n \<le> 90 then char_of (n + 32) else c)"

definition toLowerCase :: "string \<Rightarrow> string" where
  "toLowerCase s = map toLowerChar s"

definition trim :: "string \<Rightarrow> string" where
  "trim s = rev (dropWhile isSpace (rev (dropWhile isSpace s)))"

text \<open>\<open>b.toString(16).padStart(2, "0")\<close> for a byte \<open>b\<close>.\<close>

definition hexDigit :: "nat \<Rightarrow> char" where
  "hexDigit d = (if d < 10 then char_of (48 + d) else char_of (87 + d))"

definition hexByte :: "nat \<Rightarrow> string" where
  "hexByte b = [hexDigit (b div 16 mod 16), hexDigit (b mod 16)]"

text \<open>
  \<open>hashString\<close>: the SHA-256 digest of the trimmed, lower-cased text, in hexadecimal, cut
  to 16 characters. The digest (\<open>crypto.subtle.digest\<close>) is a parameter: a function from
  the encoded bytes to the bytes of the digest.
\<close>

definition hashString :: "(string \<Rightarrow> nat list) \<Rightarrow> string \<Rightarrow> string" where
  "hashString digest input =
     take 16 (concat (map hexByte (digest (toLowerCase (trim input)))))"

section \<open>Semantic cache (cache/semantic.ts, cache/adapters/memory.ts)\<close>

record CacheEntry =
  queryHash :: string
  queryText :: string
  en_response :: string
  en_provider :: ProviderName
  en_model :: string
  en_cost :: num
  tokensUsed :: num
  createdAt :: int
  expiresAt :: int
  hitCount :: nat

record CacheStats =
  totalEntries :: nat
  hits :: nat
  missCount :: nat
  hitRate :: num
  totalCostSaved :: num
  avgResponseTimeMs :: num

subsection \<open>Embedding\<close>

text \<open>
  \<open>split(/\s+/)\<close>: the pieces between maximal runs of white space, the empty pieces at
  both ends included. The flag says that the previous character was white space; the
  second argument is the piece being read.
\<close>

fun splitWs :: "bool \<Rightarrow> string \<Rightarrow> string \<Rightarrow> string list" where
  "splitWs sep cur [] = [cur]"
| "splitWs sep cur (c # cs) =
     (if isSpace c then (if sep then splitWs True cur cs else cur # splitWs True [] cs)
      else splitWs False (cur @ [c]) cs)"

definition tokenize :: "string \<Rightarrow> string list" where
  "tokenize text =
     filter (\<lambda>t. length t > 1)
       (splitWs False []
          (map (\<lambda>c. if isWordChar c \<or> isSpace c then c else CHR 0x20) (toLowerCase text)))"

text \<open>The \<open>Map<string, number>\<close> of the vocabulary, in insertion order.\<close>

definition buildVocab :: "string list \<Rightarrow> (string \<times> nat) list" where
  "buildVocab docs =
     foldl (\<lambda>vocab doc.
              foldl (\<lambda>v tok. if map_of v tok = None then v @ [(tok, length v)] else v)
                vocab (tokenize doc))
       [] docs"

text \<open>
  Every index of the vocabulary is below its size, so \<open>vec[i]++\<close> never writes outside the
  array.
\<close>

definition toVector :: "string \<Rightarrow> (string \<times> nat) list \<Rightarrow> num list" where
  "toVector text vocab =
     foldl (\<lambda>vec tok. case map_of vocab tok of
                          None \<Rightarrow> vec
                        | Some i \<Rightarrow> vec[i := vec ! i + 1])
       (replicate (length vocab) 0) (tokenize text)"

definition cosineSimilarity :: "num list \<Rightarrow> num list \<Rightarrow> num" where
  "cosineSimilarity a b =
     (if length a \<noteq> length b \<or> length a = 0 then 0
      else
        (let (dot, magA, magB) =
               foldl (\<lambda>(dot, magA, magB) i.
                        (dot + a ! i * b ! i, magA + a ! i * a ! i, magB + b ! i * b ! i))
                 (0, 0, 0) [0..<length a];
             denom = sqrt magA * sqrt magB
         in if denom = 0 then 0 else dot / denom))"

subsection \<open>Cache adapter\<close>

text \<open>
  The \<open>CacheAdapter\<close> interface over an adapter state \<open>'s\<close>. Its methods are taken as
  total: a rejected adapter promise is not modelled.
\<close>

record 's CacheAdapter =
  ad_get :: "'s \<Rightarrow> string \<Rightarrow> CacheEntry option"
  ad_set :: "'s \<Rightarrow> string \<Rightarrow> CacheEntry \<Rightarrow> 's"
  ad_delete :: "'s \<Rightarrow> string \<Rightarrow> 's"
  ad_clear :: "'s \<Rightarrow> 's"
  ad_size :: "'s \<Rightarrow> nat"
  ad_entries :: "'s \<Rightarrow> CacheEntry list"

text \<open>
  \<open>MemoryAdapter\<close>: a JavaScript \<open>Map\<close>, which keeps its keys in insertion order and a
  key's position when its value is replaced.
\<close>

definition MemoryAdapter :: "((string \<times> CacheEntry) list) CacheAdapter" where
  "MemoryAdapter =
     \<lparr>ad_get = (\<lambda>store key. map_of store key),
      ad_set = (\<lambda>store key entry. AList.update key entry store),
      ad_delete = (\<lambda>store key. AList.delete key store),
      ad_clear = (\<lambda>store. []),
      ad_size = (\<lambda>store. length store),
      ad_entries = (\<lambda>store. map snd store)\<rparr>"

subsection \<open>The cache\<close>

record SemanticCacheConfig =
  maxEntries :: nat
  similarityThreshold :: num
  defaultTtlMs :: int
  realtimeTtlMs :: int

definition DEFAULT_CONFIG :: SemanticCacheConfig where
  "DEFAULT_CONFIG =
     \<lparr>maxEntries = 1000, similarityThreshold = 0.82, defaultTtlMs = 3600000,
      realtimeTtlMs = 60000\<rparr>"

record 's SemanticCache =
  adapterState :: 's
  cacheConfig :: SemanticCacheConfig
  stats :: CacheStats
  vocab :: "(string \<times> nat) list"

definition newSemanticCache :: "'s \<Rightarrow> SemanticCacheConfig \<Rightarrow> 's SemanticCache" where
  "newSemanticCache st cfg =
     \<lparr>adapterState = st, cacheConfig = cfg,
      stats = \<lparr>totalEntries = 0, hits = 0, missCount = 0, hitRate = 0,
               totalCostSaved = 0, avgResponseTimeMs = 0\<rparr>,
      vocab = []\<rparr>"

definition updateHitRate :: "CacheStats \<Rightarrow> CacheStats" where
  "updateHitRate st =
     (let total = hits st + missCount st
      in st\<lparr>hitRate := (if total > 0 then real (hits st) / real total else 0)\<rparr>)"

definition recordHit :: "num \<Rightarrow> CacheStats \<Rightarrow> CacheStats" where
  "recordHit costSaved st =
     updateHitRate (st\<lparr>hits := hits st + 1, totalCostSaved := totalCostSaved st + costSaved\<rparr>)"

definition recordMiss :: "CacheStats \<Rightarrow> CacheStats" where
  "recordMiss st = updateHitRate (st\<lparr>missCount := missCount st + 1\<rparr>)"

record CacheHit =
  entry :: CacheEntry
  similarity :: num

text \<open>The scan of the semantic path: the first entry of greatest similarity above 0.\<close>

definition bestMatch :: "string \<Rightarrow> (string \<times> nat) list \<Rightarrow> CacheEntry list \<Rightarrow> CacheEntry option \<times> num" where
  "bestMatch query voc active =
     (let queryVec = toVector query voc
      in foldl (\<lambda>(bestEntry, bestSim) e.
                  (let entryVec = toVector (queryText e) voc;
                       sim = cosineSimilarity queryVec entryVec
                   in if sim > bestSim then (Some e, sim) else (bestEntry, bestSim)))
           (None, 0) active)"

text \<open>
  \<open>lookup\<close> reads the clock twice: \<open>t1\<close> in the test of the exact match, \<open>t2\<close> before the
  semantic scan. The entry returned is the stored one with its \<open>hitCount\<close> incremented.
\<close>

definition lookup ::
  "'s CacheAdapter \<Rightarrow> (string \<Rightarrow> nat list) \<Rightarrow> 's SemanticCache \<Rightarrow> string \<Rightarrow> int \<Rightarrow> int \<Rightarrow>
   CacheHit option \<times> 's SemanticCache" where
  "lookup ad digest this query t1 t2 =
     (let hash = hashString digest query;
          exact = ad_get ad (adapterState this) hash
      in if (case exact of None \<Rightarrow> False | Some e \<Rightarrow> expiresAt e > t1) then
           (let e = the exact;
                e1 = e\<lparr>hitCount := hitCount e + 1\<rparr>
            in (Some \<lparr>entry = e1, similarity = 1.0\<rparr>,
                this\<lparr>adapterState := ad_set ad (adapterState this) hash e1,
                     stats := recordHit (en_cost e1) (stats this)\<rparr>))
         else
           (let allEntries = ad_entries ad (adapterState this);
                active = filter (\<lambda>e. expiresAt e > t2) allEntries
            in if length active = 0 then (None, this\<lparr>stats := recordMiss (stats this)\<rparr>)
               else
                 (let allTexts = map queryText active @ [query];
                      vocab1 = buildVocab allTexts;
                      (bestEntry, bestSim) = bestMatch query vocab1 active
                  in if (case bestEntry of None \<Rightarrow> False
                         | Some b \<Rightarrow> bestSim \<ge> similarityThreshold (cacheConfig this)) then
                       (let b = the bestEntry;
                            b1 = b\<lparr>hitCount := hitCount b + 1\<rparr>
                        in (Some \<lparr>entry = b1, similarity = bestSim\<rparr>,
                            this\<lparr>adapterState := ad_set ad (adapterState this) (queryHash b1) b1,
                                 stats := recordHit (en_cost b1) (stats this),
                                 vocab := vocab1\<rparr>))
                     else (None, this\<lparr>stats := recordMiss (stats this), vocab := vocab1\<rparr>))))"

text \<open>
  \<open>evictOldest\<close>: the victim is the first entry of the list sorted by \<open>hitCount\<close>, then
  \<open>createdAt\<close> (\<open>Array.prototype.sort\<close> is stable).
\<close>

definition evictOldest :: "'s CacheAdapter \<Rightarrow> 's \<Rightarrow> 's" where
  "evictOldest ad st =
     (let all = ad_entries ad st
      in if length all = 0 then st
         else (let sorted = sort_key (\<lambda>e. (hitCount e, createdAt e)) all;
                   victim = hd sorted
               in ad_delete ad st (queryHash victim)))"

definition store ::
  "'s CacheAdapter \<Rightarrow> (string \<Rightarrow> nat list) \<Rightarrow> 's SemanticCache \<Rightarrow> string \<Rightarrow> ChatResponse \<Rightarrow>
   int option \<Rightarrow> int \<Rightarrow> 's SemanticCache" where
  "store ad digest this query response ttlMs now =
     (let hash = hashString digest query;
          ttl = (case ttlMs of None \<Rightarrow> defaultTtlMs (cacheConfig this) | Some t \<Rightarrow> t);
          size = ad_size ad (adapterState this);
          st1 = (if size \<ge> maxEntries (cacheConfig this)
                 then evictOldest ad (adapterState this) else adapterState this);
          e = \<lparr>queryHash = hash, queryText = query, en_response = content response,
               en_provider = cr_provider response, en_model = cr_model response,
               en_cost = cr_cost response, tokensUsed = tk_total (tokens response),
               createdAt = now, expiresAt = now + ttl, hitCount = 0\<rparr>;
          st2 = ad_set ad st1 hash e
      in this\<lparr>adapterState := st2,
              stats := (stats this)\<lparr>totalEntries := ad_size ad st2\<rparr>\<rparr>)"

definition pruneExpired :: "'s CacheAdapter \<Rightarrow> 's SemanticCache \<Rightarrow> int \<Rightarrow> nat \<times> 's SemanticCache" where
  "pruneExpired ad this now =
     (let all = ad_entries ad (adapterState this);
          (st1, pruned) =
            foldl (\<lambda>(st, pruned) e.
                     if expiresAt e \<le> now then (ad_delete ad st (queryHash e), pruned + 1)
                     else (st, pruned))
              (adapterState this, 0) all
      in (pruned, this\<lparr>adapterState := st1,
                       stats := (stats this)\<lparr>totalEntries := ad_size ad st1\<rparr>\<rparr>))"

definition clear :: "'s CacheAdapter \<Rightarrow> 's SemanticCache \<Rightarrow> 's SemanticCache" where
  "clear ad this =
     this\<lparr>adapterState := ad_clear ad (adapterState this),
          stats := \<lparr>totalEntries = 0, hits = 0, missCount = 0, hitRate = 0,
                    totalCostSaved = 0, avgResponseTimeMs = 0\<rparr>\<rparr>"

definition getAllEntries :: "'s CacheAdapter \<Rightarrow> 's SemanticCache \<Rightarrow> CacheEntry list" where
  "getAllEntries ad this = ad_entries ad (adapterState this)"

text \<open>The operations of a cache as a step function, each with its clock readings.\<close>

datatype CacheOp =
  Lookup string int int
  | Store string ChatResponse "int option" int
  | PruneExpired int
  | Clear

fun applyCacheOp ::
  "'s CacheAdapter \<Rightarrow> (string \<Rightarrow> nat list) \<Rightarrow> 's SemanticCache \<Rightarrow> CacheOp \<Rightarrow> 's SemanticCache" where
  "applyCacheOp ad digest this (Lookup query t1 t2) = snd (lookup ad digest this query t1 t2)"
| "applyCacheOp ad digest this (Store query response ttlMs now) =
     store ad digest this query response ttlMs now"
| "applyCacheOp ad digest this (PruneExpired now) = snd (pruneExpired ad this now)"
| "applyCacheOp ad digest this Clear = clear ad this"

definition runCacheOps ::
  "'s CacheAdapter \<Rightarrow> (string \<Rightarrow> nat list) \<Rightarrow> 's SemanticCache \<Rightarrow> CacheOp list \<Rightarrow> 's SemanticCache" where
  "runCacheOps ad digest this ops = foldl (applyCacheOp ad digest) this ops"

text \<open>The invariant of a \<open>MemoryAdapter\<close> store filled through the cache.\<close>

definition keyedByHash :: "(string \<Rightarrow> nat list) \<Rightarrow> (string \<times> CacheEntry) list \<Rightarrow> bool" where
  "keyedByHash digest st =
     (distinct (map fst st) \<and>
      list_all (\<lambda>(k, e). queryHash e = k \<and> hashString digest (queryText e) = k) st)"

section \<open>Routing decisions (types.ts)\<close>

datatype RoutingStrategy = priority | cost_optimized | cascade | emergency

text \<open>The \<open>reason\<close> string of a decision is presentation only and is left out.\<close>

record RoutingDecision =
  rd_provider :: ProviderName
  rd_model :: string
  strategy :: RoutingStrategy
  rd_estimatedCost :: CostEstimate
  cascadeChain :: "CascadeStep list option"
  rd_emergencyMode :: bool

fun providerName :: "ProviderName \<Rightarrow> string" where
  "providerName perplexity = ''perplexity''"
| "providerName openai = ''openai''"
| "providerName anthropic = ''anthropic''"

fun complexityName :: "QueryComplexity \<Rightarrow> string" where
  "complexityName simple = ''simple''"
| "complexityName medium = ''medium''"
| "complexityName complex = ''complex''"

fun intentName :: "QueryIntent \<Rightarrow> string" where
  "intentName search = ''search''"
| "intentName reasoning = ''reasoning''"
| "intentName chat = ''chat''"
| "intentName creative = ''creative''"
| "intentName code = ''code''"

fun strategyName :: "RoutingStrategy \<Rightarrow> string" where
  "strategyName priority = ''priority''"
| "strategyName cost_optimized = ''cost-optimized''"
| "strategyName cascade = ''cascade''"
| "strategyName emergency = ''emergency''"

section \<open>Routing artifacts (artifacts.ts)\<close>

datatype ArtifactType =
  route_decision | cascade_start | cascade_escalation | cascade_success | cascade_failure
  | cache_hit | cache_miss | budget_reject | emergency_mode_artifact | error_artifact

datatype TrailAction = accepted | escalated | failed

record CascadeTrailEntry =
  tier :: nat
  tr_provider :: string
  tr_model :: string
  qualityScore :: num
  tr_qualityThreshold :: num
  tr_action :: TrailAction
  costEstimate :: num

record CacheInfo =
  ci_hit :: bool
  ci_similarity :: "num option"
  savedCost :: "num option"
  savedLatencyMs :: "num option"

record BudgetSnapshot =
  bs_dailySpent :: num
  bs_dailyLimit :: num
  bs_percentUsed :: num
  bs_emergencyMode :: bool

record ResponseInfo =
  contentLength :: nat
  ri_tokensUsed :: num
  ri_responseTimeMs :: num
  ri_finishReason :: "string option"

text \<open>
  The ISO \<open>timestamp\<close> and the \<open>reasoning\<close> string of an artifact are formatted text
  and are left out.
\<close>

record RoutingArtifact =
  a_id :: string
  a_queryId :: string
  epochMs :: int
  a_type :: ArtifactType
  a_complexity :: "string \<times> num"
  selectedModel :: "string \<times> string"
  a_estimatedCost :: num
  actualCost :: "num option"
  a_confidence :: num
  cascadeTrail :: "CascadeTrailEntry list option"
  qualityReport :: "QualityReport option"
  a_cache :: "CacheInfo option"
  budgetSnapshot :: "BudgetSnapshot option"
  a_response :: "ResponseInfo option"
  tags :: "string list"

text \<open>
  The manager keeps the artifacts newest first, capped at \<open>maxArtifacts\<close>, and emits an
  \<open>"artifact"\<close> event for each one it records; \<open>emitted\<close> is the sequence of these
  events, oldest first.
\<close>

record ArtifactManager =
  am_artifacts :: "RoutingArtifact list"
  maxArtifacts :: nat
  emitted :: "RoutingArtifact list"

definition newArtifactManager :: "nat \<Rightarrow> ArtifactManager" where
  "newArtifactManager n = \<lparr>am_artifacts = [], maxArtifacts = n, emitted = []\<rparr>"

text \<open>\<open>getArtifactManager()\<close> constructs the singleton with the default capacity.\<close>

definition getArtifactManager :: ArtifactManager where
  "getArtifactManager = newArtifactManager 5000"

definition push :: "RoutingArtifact \<Rightarrow> ArtifactManager \<Rightarrow> ArtifactManager" where
  "push artifact this =
     (let arts = artifact # am_artifacts this;
          arts1 = (if length arts > maxArtifacts this then take (maxArtifacts this) arts
                   else arts)
      in this\<lparr>am_artifacts := arts1, emitted := emitted this @ [artifact]\<rparr>)"

text \<open>
  The queries that read the store. An absent \<open>limit\<close> is \<open>None\<close>; \<open>getRecent\<close> then takes
  20, and \<open>getByType\<close> returns every match also for the limit 0.
\<close>

definition getRecent :: "nat option \<Rightarrow> ArtifactManager \<Rightarrow> RoutingArtifact list" where
  "getRecent limitOpt this = take (case limitOpt of None \<Rightarrow> 20 | Some n \<Rightarrow> n) (am_artifacts this)"

definition getByQueryId :: "string \<Rightarrow> ArtifactManager \<Rightarrow> RoutingArtifact list" where
  "getByQueryId queryId this = filter (\<lambda>a. a_queryId a = queryId) (am_artifacts this)"

definition getByType :: "ArtifactType \<Rightarrow> nat option \<Rightarrow> ArtifactManager \<Rightarrow> RoutingArtifact list" where
  "getByType ty limitOpt this =
     (let filtered = filter (\<lambda>a. a_type a = ty) (am_artifacts this)
      in case limitOpt of
           None \<Rightarrow> filtered
         | Some n \<Rightarrow> if n \<noteq> 0 then take n filtered else filtered)"

text \<open>
  Each \<open>record...\<close> method takes the fresh identifier (\<open>uid()\<close>) and the clock reading
  (\<open>Date.now()\<close>) as arguments and returns the artifact with the manager.
\<close>

definition recordRouteDecision ::
  "string \<Rightarrow> int \<Rightarrow> string \<Rightarrow> ClassifiedQuery \<Rightarrow> RoutingDecision \<Rightarrow> num option \<Rightarrow>
   ArtifactManager \<Rightarrow> RoutingArtifact \<times> ArtifactManager" where
  "recordRouteDecision newId now queryId query decision conf this =
     (let artifact =
            \<lparr>a_id = newId, a_queryId = queryId, epochMs = now, a_type = route_decision,
             a_complexity = (complexityName (complexity query), complexityScore query),
             selectedModel = (providerName (rd_provider decision), rd_model decision),
             a_estimatedCost = estimatedCost (rd_estimatedCost decision),
             actualCost = None,
             a_confidence = (case conf of None \<Rightarrow> 0.8 | Some c \<Rightarrow> c),
             cascadeTrail =
               map_option
                 (\<lambda>chain. map (\<lambda>(i, stp).
                     \<lparr>tier = i + 1, tr_provider = providerName (st_provider stp),
                      tr_model = st_model stp, qualityScore = 0,
                      tr_qualityThreshold = qualityThreshold stp,
                      tr_action = (if i = 0 then accepted else escalated),
                      costEstimate = maxCost stp\<rparr>) (enumerate 0 chain))
                 (cascadeChain decision),
             qualityReport = None, a_cache = None, budgetSnapshot = None, a_response = None,
             tags = [strategyName (strategy decision), complexityName (complexity query),
                     intentName (intent query),
                     if rd_emergencyMode decision then ''emergency'' else ''normal'']\<rparr>
      in (artifact, push artifact this))"

record CascadeStepParams =
  fromProvider :: ProviderName
  fromModel :: string
  toProvider :: "ProviderName option"
  toModel :: "string option"
  cs_qualityScore :: num
  cs_qualityThreshold :: num
  cs_cost :: num
  isLast :: bool

definition recordCascadeStep ::
  "string \<Rightarrow> int \<Rightarrow> string \<Rightarrow> ClassifiedQuery \<Rightarrow> CascadeStepParams \<Rightarrow>
   ArtifactManager \<Rightarrow> RoutingArtifact \<times> ArtifactManager" where
  "recordCascadeStep newId now queryId query params this =
     (let ty = (if toProvider params \<noteq> None then cascade_escalation
                else if cs_qualityScore params \<ge> cs_qualityThreshold params
                then cascade_success else cascade_failure);
          artifact =
            \<lparr>a_id = newId, a_queryId = queryId, epochMs = now, a_type = ty,
             a_complexity = (complexityName (complexity query), complexityScore query),
             selectedModel = (providerName (fromProvider params), fromModel params),
             a_estimatedCost = cs_cost params, actualCost = None,
             a_confidence = cs_qualityScore params / 10,
             cascadeTrail = None, qualityReport = None, a_cache = None,
             budgetSnapshot = None, a_response = None,
             tags = [''cascade'', complexityName (complexity query),
                     if isLast params then ''final'' else ''intermediate'']\<rparr>
      in (artifact, push artifact this))"

definition recordCacheHit ::
  "string \<Rightarrow> int \<Rightarrow> string \<Rightarrow> ClassifiedQuery \<Rightarrow> num \<Rightarrow> num \<Rightarrow> num \<Rightarrow> string \<Rightarrow> string \<Rightarrow>
   ArtifactManager \<Rightarrow> RoutingArtifact \<times> ArtifactManager" where
  "recordCacheHit newId now queryId query sim saved savedLatency provider model this =
     (let artifact =
            \<lparr>a_id = newId, a_queryId = queryId, epochMs = now, a_type = cache_hit,
             a_complexity = (complexityName (complexity query), complexityScore query),
             selectedModel = (provider, model),
             a_estimatedCost = 0, actualCost = None, a_confidence = sim,
             cascadeTrail = None, qualityReport = None,
             a_cache = Some \<lparr>ci_hit = True, ci_similarity = Some sim, savedCost = Some saved,
                             savedLatencyMs = Some savedLatency\<rparr>,
             budgetSnapshot = None, a_response = None,
             tags = [''cache'', ''hit'', complexityName (complexity query)]\<rparr>
      in (artifact, push artifact this))"

definition recordBudgetReject ::
  "string \<Rightarrow> int \<Rightarrow> string \<Rightarrow> ClassifiedQuery \<Rightarrow> num \<Rightarrow> num \<Rightarrow> num \<Rightarrow>
   ArtifactManager \<Rightarrow> RoutingArtifact \<times> ArtifactManager" where
  "recordBudgetReject newId now queryId query spentToday limitToday estCost this =
     (let pct = fmul (fdiv spentToday limitToday) 100;
          artifact =
            \<lparr>a_id = newId, a_queryId = queryId, epochMs = now, a_type = budget_reject,
             a_complexity = (complexityName (complexity query), complexityScore query),
             selectedModel = (''none'', ''none''),
             a_estimatedCost = estCost, actualCost = None, a_confidence = 1.0,
             cascadeTrail = None, qualityReport = None, a_cache = None,
             budgetSnapshot =
               Some \<lparr>bs_dailySpent = spentToday, bs_dailyLimit = limitToday,
                     bs_percentUsed = pct, bs_emergencyMode = (pct \<ge> 95)\<rparr>,
             a_response = None,
             tags = [''budget'', ''rejected'',
                     if pct \<ge> 95 then ''emergency'' else ''over_limit'']\<rparr>
      in (artifact, push artifact this))"

text \<open>\<open>enrichWithResponse\<close> changes the first artifact with the given id, in place.\<close>

fun enrichFirst ::
  "string \<Rightarrow> (RoutingArtifact \<Rightarrow> RoutingArtifact) \<Rightarrow> RoutingArtifact list \<Rightarrow> RoutingArtifact list" where
  "enrichFirst artifactId f [] = []"
| "enrichFirst artifactId f (a # as) =
     (if a_id a = artifactId then f a # as else a # enrichFirst artifactId f as)"

definition enrichWithResponse ::
  "string \<Rightarrow> ChatResponse \<Rightarrow> QualityReport option \<Rightarrow> ArtifactManager \<Rightarrow> ArtifactManager" where
  "enrichWithResponse artifactId response report this =
     this\<lparr>am_artifacts :=
       enrichFirst artifactId
         (\<lambda>a. (let a1 = a\<lparr>actualCost := Some (cr_cost response),
                            a_response := Some \<lparr>contentLength = length (content response),
                                                ri_tokensUsed = tk_total (tokens response),
                                                ri_responseTimeMs = responseTimeMs response,
                                                ri_finishReason = finishReason response\<rparr>\<rparr>
                in case report of
                     None \<Rightarrow> a1
                   | Some r \<Rightarrow> a1\<lparr>qualityReport := Some r, a_confidence := confidence r\<rparr>))
         (am_artifacts this)\<rparr>"

section \<open>Agent manager (agent-manager.ts)\<close>

record ChatRequest =
  rq_id :: "string option"
  rq_content :: string
  systemPrompt :: "string option"
  maxTokens :: "num option"
  temperature :: "num option"

record QueryOpts =
  o_systemPrompt :: "string option"
  o_maxTokens :: "num option"
  o_temperature :: "num option"

record AgentResponse =
  ar_response :: ChatResponse
  ar_classification :: ClassifiedQuery
  ar_routing :: RoutingDecision
  ar_artifacts :: "RoutingArtifact list"
  ar_cacheHit :: bool
  totalTimeMs :: num

datatype AnalyticsCall =
  RecordCacheHit string num
  | RecordCacheMiss string
  | RecordQuery string ActualCost num bool

text \<open>
  The state outside the manager that \<open>processQuery\<close> reads and writes: the singletons
  (budget tracker, artifact manager, analytics collector, each analytics call drawing an
  identifier), the calls made to providers (provider and model, in order), and the number
  of identifiers drawn so far.
\<close>

record World =
  budget :: BudgetTracker
  artifactMgr :: ArtifactManager
  analyticsCalls :: "AnalyticsCall list"
  providerCalls :: "(ProviderName \<times> string) list"
  uidsDrawn :: nat

record 's AgentManager =
  providers :: "ProviderName set"
  am_cache :: "'s SemanticCache option"
  queryCount :: nat
  totalQualityScore :: num
  qualityCount :: nat

text \<open>
  What \<open>processQuery\<close> calls and this model takes as given: the platform (calendar,
  regex engine, URL parser, digest, cache adapter), \<open>uid\<close> (the \<open>n\<close>-th identifier drawn
  by the process), the classifier, the router (which reads the budget tracker), and the
  providers, \<open>chat i provider model request\<close> being the outcome of the \<open>i\<close>-th attempt of
  the request (the step index in a cascade, 0 for a direct call), \<open>Inl\<close> a rejection.
\<close>

record 's Env =
  dateApi :: DateApi
  platform :: Platform
  digest :: "string \<Rightarrow> nat list"
  adapter :: "'s CacheAdapter"
  uid :: "nat \<Rightarrow> string"
  classifyQuery :: "string \<Rightarrow> ClassifiedQuery"
  routeQuery :: "ClassifiedQuery \<Rightarrow> BudgetTracker \<Rightarrow> RoutingDecision"
  chat :: "nat \<Rightarrow> ProviderName \<Rightarrow> string \<Rightarrow> ChatRequest \<Rightarrow> Exn + ChatResponse"

definition drawUid :: "'s Env \<Rightarrow> World \<Rightarrow> string \<times> World" where
  "drawUid env w = (uid env (uidsDrawn w), w\<lparr>uidsDrawn := uidsDrawn w + 1\<rparr>)"

definition recordAnalytics :: "'s Env \<Rightarrow> AnalyticsCall \<Rightarrow> World \<Rightarrow> World" where
  "recordAnalytics env c w =
     (let (newId, w1) = drawUid env w
      in w1\<lparr>analyticsCalls := analyticsCalls w1 @ [c]\<rparr>)"

text \<open>The \<open>onStep\<close> callback of \<open>processQuery\<close>, replayed for one call.\<close>

definition onStepArtifact ::
  "'s Env \<Rightarrow> int \<Rightarrow> string \<Rightarrow> ClassifiedQuery \<Rightarrow> CascadeStep list \<Rightarrow>
   RoutingArtifact list \<times> World \<Rightarrow> StepInfo \<Rightarrow> RoutingArtifact list \<times> World" where
  "onStepArtifact env now queryId classification chain acc info =
     (let (generated, w) = acc;
          nextStep = (if index info + 1 < length chain then Some (chain ! (index info + 1))
                      else None);
          (newId, w1) = drawUid env w;
          (stepArtifact, mgr1) =
            recordCascadeStep newId now queryId classification
              \<lparr>fromProvider = si_provider info, fromModel = si_model info,
               toProvider = map_option st_provider nextStep,
               toModel = map_option st_model nextStep,
               cs_qualityScore = quality info,
               cs_qualityThreshold = qualityThreshold (chain ! index info),
               cs_cost = 0, isLast = (nextStep = None)\<rparr>
              (artifactMgr w1)
      in (generated @ [stepArtifact], w1\<lparr>artifactMgr := mgr1\<rparr>))"

text \<open>
  Step 6 of \<open>processQuery\<close>: the cost of the response, the cache store, the analytics
  record and the budget record, and the value returned.
\<close>

definition postProcess ::
  "'s Env \<Rightarrow> string \<Rightarrow> int \<Rightarrow> num \<Rightarrow> ClassifiedQuery \<Rightarrow> RoutingDecision \<Rightarrow>
   RoutingArtifact list \<Rightarrow> ChatResponse \<Rightarrow> 's AgentManager \<Rightarrow> World \<Rightarrow>
   (Exn + AgentResponse) \<times> 's AgentManager \<times> World" where
  "postProcess env text now elapsed classification routing generated response this w =
     (let cost1 = computeActualCost now (rd_provider routing) (rd_model routing)
                    (tk_input (tokens response)) (tk_output (tokens response));
          this1 = this\<lparr>am_cache :=
                    map_option (\<lambda>c. store (adapter env) (digest env) c text response None now)
                      (am_cache this)\<rparr>;
          w1 = recordAnalytics env (RecordQuery text cost1 (responseTimeMs response) False) w;
          w2 = w1\<lparr>budget := recordCost (dateApi env) now cost1 (budget w1)\<rparr>
      in (Inr \<lparr>ar_response = response, ar_classification = classification,
               ar_routing = routing, ar_artifacts = generated, ar_cacheHit = False,
               totalTimeMs = elapsed\<rparr>,
          this1, w2))"

text \<open>
  Step 5: the cascade through \<open>executeCascade\<close>, or the direct provider call. The effects
  of the cascade's callbacks are replayed from what \<open>executeCascade\<close> returns: one
  provider call for each \<open>run\<close> whose provider is registered, one quality evaluation and
  one cascade artifact for each \<open>onStep\<close> call. In the direct call
  \<open>enrichWithResponse\<close> changes the route artifact in place, and the list returned to
  the caller holds the same object: it is the newest artifact of the manager, unless the
  manager keeps none.
\<close>

definition execute ::
  "'s Env \<Rightarrow> string \<Rightarrow> QueryOpts \<Rightarrow> int \<Rightarrow> string \<Rightarrow> ClassifiedQuery \<Rightarrow> RoutingDecision \<Rightarrow>
   RoutingArtifact \<Rightarrow> 's AgentManager \<Rightarrow> World \<Rightarrow>
   (Exn + ChatResponse \<times> RoutingArtifact list) \<times> 's AgentManager \<times> World" where
  "execute env text opts now queryId classification routing routeArtifact this w =
     (let request = \<lparr>rq_id = Some queryId, rq_content = text,
                      systemPrompt = o_systemPrompt opts, maxTokens = o_maxTokens opts,
                      temperature = o_temperature opts\<rparr>
      in if strategy routing = cascade \<and> cascadeChain routing \<noteq> None then
           (let chain = the (cascadeChain routing);
                run = (\<lambda>i provider model.
                         if provider \<in> providers this then chat env i provider model request
                         else Inl (ProviderNotRegistered provider));
                evaluate = (\<lambda>resp. overallScore (estimate (platform env) resp classification));
                (outcome, steps, nRuns) = executeCascade chain run evaluate;
                this1 = this\<lparr>totalQualityScore :=
                               foldl (\<lambda>total info. total + quality info)
                                 (totalQualityScore this) steps,
                             qualityCount := qualityCount this + length steps\<rparr>;
                called = filter (\<lambda>(p, m). p \<in> providers this)
                           (map (\<lambda>stp. (st_provider stp, st_model stp)) (take nRuns chain));
                w1 = w\<lparr>providerCalls := providerCalls w @ called\<rparr>;
                (generated, w2) =
                  foldl (onStepArtifact env now queryId classification chain)
                    ([routeArtifact], w1) steps
            in case outcome of
                 Inl err \<Rightarrow> (Inl err, this1, w2)
               | Inr cascadeResult \<Rightarrow> (Inr (cr_response cascadeResult, generated), this1, w2))
         else if rd_provider routing \<notin> providers this then
           (Inl (ProviderNotRegistered (rd_provider routing)), this, w)
         else
           (let w1 = w\<lparr>providerCalls :=
                         providerCalls w @ [(rd_provider routing, rd_model routing)]\<rparr>
            in case chat env 0 (rd_provider routing) (rd_model routing) request of
                 Inl err \<Rightarrow> (Inl err, this, w1)
               | Inr response \<Rightarrow>
                   (let report = estimate (platform env) response classification;
                        this1 = this\<lparr>totalQualityScore :=
                                       totalQualityScore this + overallScore report,
                                     qualityCount := qualityCount this + 1\<rparr>;
                        w2 = w1\<lparr>artifactMgr :=
                                   enrichWithResponse (a_id routeArtifact) response (Some report)
                                     (artifactMgr w1)\<rparr>;
                        enriched = (case am_artifacts (artifactMgr w2) of
                                      [] \<Rightarrow> routeArtifact | newest # older \<Rightarrow> newest)
                    in (Inr (response, [enriched]), this1, w2))))"

text \<open>
  \<open>processQuery\<close>. The clock reading \<open>now\<close> and the timer reading \<open>elapsed\<close> stand for
  every \<open>Date.now()\<close> and \<open>elapsed()\<close> of one call.
\<close>

definition processQuery ::
  "'s Env \<Rightarrow> 's AgentManager \<Rightarrow> World \<Rightarrow> string \<Rightarrow> QueryOpts \<Rightarrow> int \<Rightarrow> num \<Rightarrow>
   (Exn + AgentResponse) \<times> 's AgentManager \<times> World" where
  "processQuery env this w0 text opts now elapsed =
     (let (queryId, w) = drawUid env w0;
          this1 = this\<lparr>queryCount := queryCount this + 1\<rparr>;
          classification = classifyQuery env text;
          looked = map_option (\<lambda>c. lookup (adapter env) (digest env) c text now now)
                     (am_cache this1);
          cacheResult = (case looked of None \<Rightarrow> None | Some (r, c) \<Rightarrow> r);
          this2 = this1\<lparr>am_cache := map_option snd looked\<rparr>
      in case cacheResult of
           Some hit \<Rightarrow>
             (let (newId, w1) = drawUid env w;
                  (cacheArtifact, mgr1) =
                    recordCacheHit newId now queryId classification (similarity hit)
                      (en_cost (entry hit)) elapsed (providerName (en_provider (entry hit)))
                      (en_model (entry hit)) (artifactMgr w1);
                  w2 = recordAnalytics env (RecordCacheHit text (en_cost (entry hit)))
                         (w1\<lparr>artifactMgr := mgr1\<rparr>);
                  cachedResponse =
                    \<lparr>cr_id = queryId, content = en_response (entry hit),
                     cr_provider = en_provider (entry hit), cr_model = en_model (entry hit),
                     tokens = \<lparr>tk_input = 0, tk_output = tokensUsed (entry hit),
                               tk_total = tokensUsed (entry hit)\<rparr>,
                     cr_cost = 0, responseTimeMs = elapsed, citations = None,
                     cacheHit = True, finishReason = None\<rparr>;
                  routing = routeQuery env classification (budget w2)
              in (Inr \<lparr>ar_response = cachedResponse, ar_classification = classification,
                       ar_routing = routing, ar_artifacts = [cacheArtifact],
                       ar_cacheHit = True, totalTimeMs = elapsed\<rparr>,
                  this2, w2))
         | None \<Rightarrow>
             (let w1 = recordAnalytics env (RecordCacheMiss text) w;
                  dailyStatus = getStatus (dateApi env) (budget w1) daily now
              in if percentUsed dailyStatus \<ge> 100 then
                   (let (newId, w2) = drawUid env w1;
                        (rejectArtifact, mgr1) =
                          recordBudgetReject newId now queryId classification
                            (spent dailyStatus) (limit dailyStatus) 0 (artifactMgr w2)
                    in (Inl (BudgetExceededError ''daily'' (spent dailyStatus) (limit dailyStatus)),
                        this2, w2\<lparr>artifactMgr := mgr1\<rparr>))
                 else
                   (let routing = routeQuery env classification (budget w1);
                        (newId, w2) = drawUid env w1;
                        (routeArtifact, mgr1) =
                          recordRouteDecision newId now queryId classification routing None
                            (artifactMgr w2);
                        w3 = w2\<lparr>artifactMgr := mgr1\<rparr>;
                        (outcome, this3, w4) =
                          execute env text opts now queryId classification routing
                            routeArtifact this2 w3
                    in case outcome of
                         Inl err \<Rightarrow> (Inl err, this3, w4)
                       | Inr (response, generated) \<Rightarrow>
                           postProcess env text now elapsed classification routing generated
                             response this3 w4)))"

text \<open>An artifact list holds cascade step artifacts only.\<close>

definition cascadeArtifacts :: "RoutingArtifact list \<Rightarrow> bool" where
  "cascadeArtifacts as =
     list_all (\<lambda>a. a_type a \<in> {cascade_escalation, cascade_success, cascade_failure}) as"

section \<open>Concrete inputs for the examples\<close>

definition exampleNow :: int where
  "exampleNow = 1762084800000"

text \<open>A cost record whose \<open>totalCost\<close> is the double that the literal \<open>amount\<close> denotes.\<close>

definition exampleCost :: "num \<Rightarrow> int \<Rightarrow> ActualCost" where
  "exampleCost amount t =
     \<lparr>ac_provider = openai, ac_model = ''gpt-4o-mini'', inputTokens = 100,
      outputTokens = 50, totalCost = roundToDouble amount, timestamp = t\<rparr>"

definition latchedTracker :: BudgetTracker where
  "latchedTracker =
     recordCost utcDate exampleNow (exampleCost 4.9 exampleNow) (newBudgetTracker noOverride)"

definition tinyCosts :: "ActualCost list" where
  "tinyCosts =
     [exampleCost 0.0000015 exampleNow, exampleCost 0.0000035 exampleNow,
      exampleCost 0.0000025 exampleNow]"

definition tinyCostsTracker :: BudgetTracker where
  "tinyCostsTracker =
     foldl (\<lambda>s (t, c). recordCost utcDate t c s) (newBudgetTracker noOverride)
       (map (\<lambda>c. (exampleNow, c)) tinyCosts)"

definition exampleOps :: "(int \<times> TrackerOp) list" where
  "exampleOps =
     [(exampleNow + 1, Prune),
      (exampleNow + 2, RecordCost (exampleCost 0.01 (exampleNow + 2))),
      (exampleNow + 3, SetEmergencyMode True),
      (exampleNow + 4, UpdateConfig noOverride),
      (exampleNow + 5, Read)]"

definition zeroLimitTracker :: BudgetTracker where
  "zeroLimitTracker =
     newBudgetTracker (noOverride\<lparr>p_dailyLimit := Some 0,
       p_alertThresholds := Some [\<lparr>percentage = 0, action = emergency_mode, channels = None\<rparr>]\<rparr>)"

definition zeroLimitDefaultAlerts :: BudgetTracker where
  "zeroLimitDefaultAlerts = newBudgetTracker (noOverride\<lparr>p_dailyLimit := Some 0\<rparr>)"

definition oneStepChain :: "CascadeStep list" where
  "oneStepChain =
     [\<lparr>st_provider = openai, st_model = ''gpt-4o-mini'', qualityThreshold = 8, maxCost = 0.05\<rparr>]"

definition twoStepChain :: "CascadeStep list" where
  "twoStepChain =
     [\<lparr>st_provider = openai, st_model = ''gpt-4o-mini'', qualityThreshold = 8, maxCost = 0.05\<rparr>,
      \<lparr>st_provider = openai, st_model = ''gpt-4o'', qualityThreshold = 9, maxCost = 0.15\<rparr>]"

definition runAlwaysOk :: "nat \<Rightarrow> ProviderName \<Rightarrow> string \<Rightarrow> string + string" where
  "runAlwaysOk i provider model = Inr model"

definition runFirstFails :: "nat \<Rightarrow> ProviderName \<Rightarrow> string \<Rightarrow> string + string" where
  "runFirstFails i provider model = (if i = 0 then Inl ''Model unavailable'' else Inr model)"

text \<open>
  A stand-in for SHA-256 in the examples (the properties are proved for every digest
  function): the bytes of the text followed by eight zero bytes.
\<close>

definition exampleDigest :: "string \<Rightarrow> nat list" where
  "exampleDigest s = map of_char s @ replicate 8 0"

definition exampleResponse :: ChatResponse where
  "exampleResponse =
     \<lparr>cr_id = ''r1'', content = ''Qubits.'', cr_provider = openai, cr_model = ''gpt-4o-mini'',
      tokens = \<lparr>tk_input = 10, tk_output = 20, tk_total = 30\<rparr>, cr_cost = 0.002,
      responseTimeMs = 800, citations = None, cacheHit = False, finishReason = None\<rparr>"

definition exampleOpsCache :: "CacheOp list" where
  "exampleOpsCache = [Store ''Explain quantum computing'' exampleResponse None exampleNow]"

definition exampleCache :: "((string \<times> CacheEntry) list) SemanticCache" where
  "exampleCache =
     runCacheOps MemoryAdapter exampleDigest (newSemanticCache [] DEFAULT_CONFIG) exampleOpsCache"

definition exampleEntry :: CacheEntry where
  "exampleEntry =
     \<lparr>queryHash = ''6578706c61696e20'', queryText = ''Explain quantum computing'',
      en_response = ''Qubits.'', en_provider = openai, en_model = ''gpt-4o-mini'',
      en_cost = 0.002, tokensUsed = 30, createdAt = exampleNow,
      expiresAt = exampleNow + 3600000, hitCount = 0\<rparr>"

definition exampleClassification :: "string \<Rightarrow> ClassifiedQuery" where
  "exampleClassification t =
     \<lparr>cq_text = t, complexity = simple, complexityScore = 0.1, intent = QueryIntent.chat,
      isRealtime = False, matchedIndicators = [], estimatedTokens = 7\<rparr>"

definition exampleRouting :: "ClassifiedQuery \<Rightarrow> BudgetTracker \<Rightarrow> RoutingDecision" where
  "exampleRouting q b =
     \<lparr>rd_provider = openai, rd_model = ''gpt-4o-mini'', strategy = priority,
      rd_estimatedCost = estimateCost openai ''gpt-4o-mini'' (estimatedTokens q) 500,
      cascadeChain = None, rd_emergencyMode = isEmergencyMode b\<rparr>"

definition exampleEnv :: "((string \<times> CacheEntry) list) Env" where
  "exampleEnv =
     \<lparr>dateApi = utcDate,
      platform = \<lparr>test = (\<lambda>p t. False), hostname = (\<lambda>u. None)\<rparr>,
      digest = exampleDigest,
      adapter = MemoryAdapter,
      uid = (\<lambda>n. replicate (Suc n) CHR ''u''),
      classifyQuery = exampleClassification,
      routeQuery = exampleRouting,
      chat = (\<lambda>i p m r. Inr exampleResponse)\<rparr>"

definition exampleManager :: "((string \<times> CacheEntry) list) AgentManager" where
  "exampleManager =
     \<lparr>providers = {openai}, am_cache = Some exampleCache, queryCount = 0,
      totalQualityScore = 0, qualityCount = 0\<rparr>"

definition exampleWorld :: "num \<Rightarrow> World" where
  "exampleWorld amount =
     \<lparr>budget = recordCost utcDate exampleNow (exampleCost amount exampleNow)
                 (newBudgetTracker noOverride),
      artifactMgr = getArtifactManager, analyticsCalls = [], providerCalls = [],
      uidsDrawn = 0\<rparr>"

definition exampleOpts :: QueryOpts where
  "exampleOpts = \<lparr>o_systemPrompt = None, o_maxTokens = None, o_temperature = None\<rparr>"

section \<open>Cost estimation\<close>

lemma getModelCostProfile_Some:
  "getModelCostProfile provider model = Some p \<Longrightarrow>
     p \<in> set MODEL_COSTS \<and> mc_provider p = provider \<and> mc_model p = model"
  unfolding getModelCostProfile_def by (auto simp: find_Some_iff)

lemma find_distinct_key:
  "distinct (map f xs) \<Longrightarrow> x \<in> set xs \<Longrightarrow> List.find (\<lambda>y. f y = f x) xs = Some x"
  by (induction xs) (auto simp: image_iff)

lemma MODEL_COSTS_keys:
  "map (\<lambda>m. (mc_provider m, mc_model m)) MODEL_COSTS =
     [(perplexity, ''sonar''), (perplexity, ''sonar-pro''), (perplexity, ''sonar-reasoning-pro''),
      (openai, ''gpt-4o-mini''), (openai, ''gpt-4o''),
      (anthropic, ''claude-sonnet-4-5''), (anthropic, ''claude-opus-4-6'')]"
  by (simp add: MODEL_COSTS_def)

lemma MODEL_COSTS_distinct:
  "distinct (map (\<lambda>m. (mc_provider m, mc_model m)) MODEL_COSTS)"
  unfolding MODEL_COSTS_keys by simp

lemma getModelCostProfile_registered:
  assumes "p \<in> set MODEL_COSTS"
  shows "getModelCostProfile (mc_provider p) (mc_model p) = Some p"
  using find_distinct_key [OF MODEL_COSTS_distinct assms]
  by (simp add: getModelCostProfile_def)

lemma getModelCostProfile_None:
  "getModelCostProfile provider model = None \<longleftrightarrow>
     (\<forall>p \<in> set MODEL_COSTS. \<not> (mc_provider p = provider \<and> mc_model p = model))"
  unfolding getModelCostProfile_def by (auto simp: find_None_iff)

lemma sonar_registered: "hd MODEL_COSTS \<in> set MODEL_COSTS"
  by (simp add: MODEL_COSTS_def)

lemma sonar_fields:
  "mc_provider (hd MODEL_COSTS) = perplexity" "mc_model (hd MODEL_COSTS) = ''sonar''"
  "inputCostPer1k (hd MODEL_COSTS) = 0.001" "outputCostPer1k (hd MODEL_COSTS) = 0.001"
  "perRequestCost (hd MODEL_COSTS) = 0.005"
  by (simp_all add: MODEL_COSTS_def)

lemma openai_sonar_unregistered:
  "\<forall>q \<in> set MODEL_COSTS. \<not> (mc_provider q = openai \<and> mc_model q = ''sonar'')"
  by (simp add: MODEL_COSTS_def)

text \<open>
  Claim C8. For every profile registered in the cost book and all token counts, the
  estimate returned by \<open>estimateCost\<close> for that profile's provider/model pair has
  \<open>estimatedCost = inputCost + outputCost + perRequestCost\<close>, where
  \<open>inputCost = (inputTokens / 1000) * inputCostPer1k\<close> and
  \<open>outputCost = (outputTokens / 1000) * outputCostPer1k\<close>; for a pair matching no
  registered profile the result is the zero-cost sentinel, not an error.
\<close>

theorem estimateCost_sum:
  "(p \<in> set MODEL_COSTS \<longrightarrow>
      (let e = estimateCost (mc_provider p) (mc_model p) inTok outTok in
         estimatedCost e
           = inputCost (breakdown e) + outputCost (breakdown e) + bd_perRequestCost (breakdown e)
         \<and> inputCost (breakdown e) = (inTok / 1000) * inputCostPer1k p
         \<and> outputCost (breakdown e) = (outTok / 1000) * outputCostPer1k p
         \<and> bd_perRequestCost (breakdown e) = perRequestCost p))
   \<and> ((\<forall>q \<in> set MODEL_COSTS. \<not> (mc_provider q = provider \<and> mc_model q = model)) \<longrightarrow>
        estimateCost provider model inTok outTok =
          \<lparr>ce_provider = provider, ce_model = model,
           estimatedInputTokens = inTok, estimatedOutputTokens = outTok,
           estimatedCost = 0,
           breakdown = \<lparr>inputCost = 0, outputCost = 0, bd_perRequestCost = 0\<rparr>\<rparr>)"
proof (intro conjI impI)
  assume "p \<in> set MODEL_COSTS"
  then have "getModelCostProfile (mc_provider p) (mc_model p) = Some p"
    by (rule getModelCostProfile_registered)
  then show "let e = estimateCost (mc_provider p) (mc_model p) inTok outTok in
         estimatedCost e
           = inputCost (breakdown e) + outputCost (breakdown e) + bd_perRequestCost (breakdown e)
         \<and> inputCost (breakdown e) = (inTok / 1000) * inputCostPer1k p
         \<and> outputCost (breakdown e) = (outTok / 1000) * outputCostPer1k p
         \<and> bd_perRequestCost (breakdown e) = perRequestCost p"
    by (simp add: estimateCost_def Let_def)
next
  assume "\<forall>q \<in> set MODEL_COSTS. \<not> (mc_provider q = provider \<and> mc_model q = model)"
  then have "getModelCostProfile provider model = None"
    by (simp add: getModelCostProfile_None)
  then show "estimateCost provider model inTok outTok =
          \<lparr>ce_provider = provider, ce_model = model,
           estimatedInputTokens = inTok, estimatedOutputTokens = outTok,
           estimatedCost = 0,
           breakdown = \<lparr>inputCost = 0, outputCost = 0, bd_perRequestCost = 0\<rparr>\<rparr>"
    by (simp add: estimateCost_def)
qed

theorem estimateCost_sum_witness:
  "hd MODEL_COSTS \<in> set MODEL_COSTS
   \<and> getModelCostProfile openai ''sonar'' = None
   \<and> estimatedCost (estimateCost perplexity ''sonar'' 1000 500) = 0.0065
   \<and> inputCost (breakdown (estimateCost perplexity ''sonar'' 1000 500)) = 0.001
   \<and> outputCost (breakdown (estimateCost perplexity ''sonar'' 1000 500)) = 0.0005
   \<and> bd_perRequestCost (breakdown (estimateCost perplexity ''sonar'' 1000 500)) = 0.005
   \<and> estimatedCost (estimateCost openai ''sonar'' 1000 500) = 0"
proof -
  note t = estimateCost_sum [of "hd MODEL_COSTS" 1000 500 openai "''sonar''"]
  have a: "let e = estimateCost perplexity ''sonar'' 1000 500 in
         estimatedCost e
           = inputCost (breakdown e) + outputCost (breakdown e) + bd_perRequestCost (breakdown e)
         \<and> inputCost (breakdown e) = (1000 / 1000) * 0.001
         \<and> outputCost (breakdown e) = (500 / 1000) * 0.001
         \<and> bd_perRequestCost (breakdown e) = 0.005"
    using t sonar_registered by (simp only: sonar_fields)
  have b: "estimateCost openai ''sonar'' 1000 500 =
          \<lparr>ce_provider = openai, ce_model = ''sonar'',
           estimatedInputTokens = 1000, estimatedOutputTokens = 500,
           estimatedCost = 0,
           breakdown = \<lparr>inputCost = 0, outputCost = 0, bd_perRequestCost = 0\<rparr>\<rparr>"
    using t openai_sonar_unregistered by blast
  have c: "estimatedCost (estimateCost openai ''sonar'' 1000 500) = 0"
    by (simp only: b CostEstimate.simps)
  from a have a1: "inputCost (breakdown (estimateCost perplexity ''sonar'' 1000 500)) = 0.001"
    and a2: "outputCost (breakdown (estimateCost perplexity ''sonar'' 1000 500)) = 0.0005"
    and a3: "bd_perRequestCost (breakdown (estimateCost perplexity ''sonar'' 1000 500)) = 0.005"
    and a4: "estimatedCost (estimateCost perplexity ''sonar'' 1000 500)
       = inputCost (breakdown (estimateCost perplexity ''sonar'' 1000 500))
         + outputCost (breakdown (estimateCost perplexity ''sonar'' 1000 500))
         + bd_perRequestCost (breakdown (estimateCost perplexity ''sonar'' 1000 500))"
    unfolding Let_def by simp_all
  have a5: "estimatedCost (estimateCost perplexity ''sonar'' 1000 500) = 0.0065"
    unfolding a4 a1 a2 a3 by simp
  show ?thesis
    using openai_sonar_unregistered
    by (intro conjI sonar_registered a1 a2 a3 a5 c) (simp only: getModelCostProfile_None)
qed

section \<open>Properties of the quality estimator\<close>

lemma scoreCitationQuality_range:
  "0 \<le> score (scoreCitationQuality pf response) \<and> score (scoreCitationQuality pf response) \<le> 10"
  unfolding scoreCitationQuality_def Let_def by simp

lemma scoreConfidenceLanguage_range:
  "0 \<le> score (scoreConfidenceLanguage pf response) \<and> score (scoreConfidenceLanguage pf response) \<le> 10"
  unfolding scoreConfidenceLanguage_def Let_def by (simp add: max_def min_def)

lemma scoreStructuralCompleteness_range:
  "0 \<le> score (scoreStructuralCompleteness pf response query)
   \<and> score (scoreStructuralCompleteness pf response query) \<le> 10"
  unfolding scoreStructuralCompleteness_def Let_def by simp

lemma scoreLengthAppropriateness_range:
  "0 \<le> score (scoreLengthAppropriateness response query)
   \<and> score (scoreLengthAppropriateness response query) \<le> 10"
  unfolding scoreLengthAppropriateness_def Let_def by simp

lemma scoreLatencyVsExpected_range:
  "0 \<le> score (scoreLatencyVsExpected response query)
   \<and> score (scoreLatencyVsExpected response query) \<le> 10"
  unfolding scoreLatencyVsExpected_def Let_def by simp

lemma scoreTokenEfficiency_range:
  "0 \<le> score (scoreTokenEfficiency response) \<and> score (scoreTokenEfficiency response) \<le> 10"
  unfolding scoreTokenEfficiency_def Let_def by simp

lemma signal_weights:
  "weight (scoreCitationQuality pf response) = 0.25"
  "weight (scoreConfidenceLanguage pf response) = 0.2"
  "weight (scoreStructuralCompleteness pf response query) = 0.2"
  "weight (scoreLengthAppropriateness response query) = 0.15"
  "weight (scoreLatencyVsExpected response query) = 0.1"
  "weight (scoreTokenEfficiency response) = 0.1"
  unfolding scoreCitationQuality_def scoreConfidenceLanguage_def
    scoreStructuralCompleteness_def scoreLengthAppropriateness_def
    scoreLatencyVsExpected_def scoreTokenEfficiency_def SIGNAL_WEIGHTS_def Let_def
  by simp_all

lemma signal_names:
  "name (scoreCitationQuality pf response) = ''citationQuality''"
  "name (scoreConfidenceLanguage pf response) = ''confidenceLanguage''"
  "name (scoreStructuralCompleteness pf response query) = ''structuralCompleteness''"
  "name (scoreLengthAppropriateness response query) = ''lengthAppropriateness''"
  "name (scoreLatencyVsExpected response query) = ''latencyVsExpected''"
  "name (scoreTokenEfficiency response) = ''tokenEfficiency''"
  unfolding scoreCitationQuality_def scoreConfidenceLanguage_def
    scoreStructuralCompleteness_def scoreLengthAppropriateness_def
    scoreLatencyVsExpected_def scoreTokenEfficiency_def Let_def
  by simp_all

lemma estimate_fields:
  "signals (estimate pf response query) = signalsOf pf response query"
  "overallScore (estimate pf response query) =
     foldl (\<lambda>sum s. sum + score s * weight s) 0 (signalsOf pf response query)"
  unfolding estimate_def Let_def by simp_all


lemma weights_sum:
  "citationQuality SIGNAL_WEIGHTS + confidenceLanguage SIGNAL_WEIGHTS
   + structuralCompleteness SIGNAL_WEIGHTS + lengthAppropriateness SIGNAL_WEIGHTS
   + latencyVsExpected SIGNAL_WEIGHTS + tokenEfficiency SIGNAL_WEIGHTS = 1"
  by (simp add: SIGNAL_WEIGHTS_def)

lemma weighted_bounds:
  fixes c l s n t e :: real
  assumes "0 \<le> c \<and> c \<le> 10" "0 \<le> l \<and> l \<le> 10" "0 \<le> s \<and> s \<le> 10"
    "0 \<le> n \<and> n \<le> 10" "0 \<le> t \<and> t \<le> 10" "0 \<le> e \<and> e \<le> 10"
  shows "0 \<le> 0.25 * c + 0.2 * l + 0.2 * s + 0.15 * n + 0.1 * t + 0.1 * e"
    and "0.25 * c + 0.2 * l + 0.2 * s + 0.15 * n + 0.1 * t + 0.1 * e \<le> 10"
  using assms by simp_all

text \<open>
  Claim C9. For every response and classified query, the report's \<open>overallScore\<close> is
  the weighted sum of the six signal scores with the fixed weights 0.25, 0.20, 0.20, 0.15,
  0.10, 0.10 (in the order citationQuality, confidenceLanguage, structuralCompleteness,
  lengthAppropriateness, latencyVsExpected, tokenEfficiency); the weights sum to 1; every
  signal score lies in [0, 10], and therefore so does \<open>overallScore\<close>.
\<close>

theorem estimate_overallScore:
  "overallScore (estimate pf response query) =
       0.25 * score (scoreCitationQuality pf response)
     + 0.2 * score (scoreConfidenceLanguage pf response)
     + 0.2 * score (scoreStructuralCompleteness pf response query)
     + 0.15 * score (scoreLengthAppropriateness response query)
     + 0.1 * score (scoreLatencyVsExpected response query)
     + 0.1 * score (scoreTokenEfficiency response)
   \<and> map name (signals (estimate pf response query)) =
       [''citationQuality'', ''confidenceLanguage'', ''structuralCompleteness'',
        ''lengthAppropriateness'', ''latencyVsExpected'', ''tokenEfficiency'']
   \<and> map weight (signals (estimate pf response query)) = [0.25, 0.2, 0.2, 0.15, 0.1, 0.1]
   \<and> overallScore (estimate pf response query) =
       sum_list (map (\<lambda>s. weight s * score s) (signals (estimate pf response query)))
   \<and> sum_list (map weight (signals (estimate pf response query))) = 1
   \<and> list_all (\<lambda>s. 0 \<le> score s \<and> score s \<le> 10) (signals (estimate pf response query))
   \<and> 0 \<le> overallScore (estimate pf response query)
   \<and> overallScore (estimate pf response query) \<le> 10"
proof -
  let ?c = "score (scoreCitationQuality pf response)"
  let ?l = "score (scoreConfidenceLanguage pf response)"
  let ?s = "score (scoreStructuralCompleteness pf response query)"
  let ?n = "score (scoreLengthAppropriateness response query)"
  let ?t = "score (scoreLatencyVsExpected response query)"
  let ?e = "score (scoreTokenEfficiency response)"
  have overall: "overallScore (estimate pf response query) =
      0.25 * ?c + 0.2 * ?l + 0.2 * ?s + 0.15 * ?n + 0.1 * ?t + 0.1 * ?e"
    by (simp add: estimate_fields signalsOf_def signal_weights)
  have names: "map name (signals (estimate pf response query)) =
       [''citationQuality'', ''confidenceLanguage'', ''structuralCompleteness'',
        ''lengthAppropriateness'', ''latencyVsExpected'', ''tokenEfficiency'']"
    by (simp add: estimate_fields signalsOf_def signal_names)
  have weights: "map weight (signals (estimate pf response query)) = [0.25, 0.2, 0.2, 0.15, 0.1, 0.1]"
    by (simp add: estimate_fields signalsOf_def signal_weights)
  have as_sum: "overallScore (estimate pf response query) =
       sum_list (map (\<lambda>s. weight s * score s) (signals (estimate pf response query)))"
    unfolding overall by (simp add: estimate_fields signalsOf_def signal_weights)
  have wsum: "sum_list (map weight (signals (estimate pf response query))) = 1"
    unfolding weights by simp
  have ranges: "list_all (\<lambda>s. 0 \<le> score s \<and> score s \<le> 10) (signals (estimate pf response query))"
    by (simp add: estimate_fields signalsOf_def scoreCitationQuality_range
        scoreConfidenceLanguage_range scoreStructuralCompleteness_range
        scoreLengthAppropriateness_range scoreLatencyVsExpected_range
        scoreTokenEfficiency_range)
  have lower: "0 \<le> overallScore (estimate pf response query)"
    unfolding overall
    by (rule weighted_bounds(1) [OF scoreCitationQuality_range scoreConfidenceLanguage_range
          scoreStructuralCompleteness_range scoreLengthAppropriateness_range
          scoreLatencyVsExpected_range scoreTokenEfficiency_range])
  have upper: "overallScore (estimate pf response query) \<le> 10"
    unfolding overall
    by (rule weighted_bounds(2) [OF scoreCitationQuality_range scoreConfidenceLanguage_range
          scoreStructuralCompleteness_range scoreLengthAppropriateness_range
          scoreLatencyVsExpected_range scoreTokenEfficiency_range])
  show ?thesis
    using overall names weights as_sum wsum ranges lower upper by blast
qed

section \<open>Properties of the binary64 operations\<close>

text \<open>The exponent is found by halving or doubling until the number lies in \<open>[1, 2)\<close>.\<close>

lemma binade_code [code]:
  "binade x =
     (if x \<le> 0 then 0
      else if x < 1 then binade (2 * x) - 1
      else if 2 \<le> x then binade (x / 2) + 1
      else 0)"
proof -
  have a: "\<lfloor>Transcendental.log 2 (2 * x)\<rfloor> - 1 = \<lfloor>Transcendental.log 2 x\<rfloor>" if "0 < x"
  proof -
    have "Transcendental.log 2 (2 * x) = 1 + Transcendental.log 2 x" using that by (simp add: log_mult)
    then show ?thesis by simp
  qed
  have b: "\<lfloor>Transcendental.log 2 (x / 2)\<rfloor> + 1 = \<lfloor>Transcendental.log 2 x\<rfloor>" if "0 < x"
  proof -
    have "Transcendental.log 2 (x / 2) = Transcendental.log 2 x - 1" using that by (simp add: log_divide)
    then show ?thesis by simp
  qed
  have c: "\<lfloor>Transcendental.log 2 x\<rfloor> = 0" if "1 \<le> x" "x < 2"
  proof -
    have "0 \<le> Transcendental.log 2 x" using that by simp
    moreover have "Transcendental.log 2 x < 1" using that by (simp add: log_less_iff)
    ultimately show ?thesis by linarith
  qed
  show ?thesis
    unfolding binade_def [of x] by (simp add: binade_def a b c not_less not_le)
qed

lemma binade_eqI:
  assumes "0 < x" "2 powi e \<le> x" "x < 2 powi (e + 1)"
  shows "binade x = e"
proof -
  have l: "of_int e \<le> Transcendental.log 2 x"
    using assms(1,2) by (simp add: le_log_iff powr_real_of_int')
  have u: "Transcendental.log 2 x < of_int (e + 1)"
    using assms(1,3) by (simp add: log_less_iff powr_real_of_int' del: of_int_add)
  from l u have "\<lfloor>Transcendental.log 2 x\<rfloor> = e" by linarith
  then show ?thesis using assms(1) by (simp add: binade_def)
qed

lemma roundTiesToEven_eqI:
  assumes "\<bar>q - of_int n\<bar> < 1 / 2 \<or> \<bar>q - of_int n\<bar> = 1 / 2 \<and> even n"
  shows "roundTiesToEven q = n"
proof -
  consider (below) "of_int n - 1 / 2 < q" "q < of_int n"
    | (above) "of_int n \<le> q" "q < of_int n + 1 / 2"
    | (tie_up) "q = of_int n + 1 / 2" "even n"
    | (tie_down) "q = of_int n - 1 / 2" "even n"
    using assms by (cases "of_int n \<le> q") (auto simp: abs_if split: if_splits)
  then show ?thesis
  proof cases
    case below
    then have f: "\<lfloor>q\<rfloor> = n - 1" by linarith
    show ?thesis unfolding roundTiesToEven_def Let_def f using below by simp
  next
    case above
    then have f: "\<lfloor>q\<rfloor> = n" by linarith
    show ?thesis unfolding roundTiesToEven_def Let_def f using above by simp
  next
    case tie_up
    then have f: "\<lfloor>q\<rfloor> = n" by linarith
    show ?thesis unfolding roundTiesToEven_def Let_def f using tie_up by simp
  next
    case tie_down
    then have f: "\<lfloor>q\<rfloor> = n - 1" by linarith
    show ?thesis unfolding roundTiesToEven_def Let_def f using tie_down by simp
  qed
qed

text \<open>
  How a rounding is checked at a concrete number: \<open>x\<close> lies in the binade \<open>e\<close> and within
  half a unit in the last place of the double \<open>n * 2^(e-52)\<close>, with \<open>n\<close> even at exactly
  half a unit.
\<close>

lemma roundToDouble_eqI:
  assumes "0 < x" "- 1022 \<le> e" "2 powi e \<le> x" "x < 2 powi (e + 1)"
    and "\<bar>x / 2 powi (e - 52) - of_int n\<bar> < 1 / 2
         \<or> \<bar>x / 2 powi (e - 52) - of_int n\<bar> = 1 / 2 \<and> even n"
    and "y = of_int n * 2 powi (e - 52)"
  shows "roundToDouble x = y"
proof -
  have b: "binade \<bar>x\<bar> = e" using assms(1,3,4) by (simp add: binade_eqI)
  have r: "roundTiesToEven (\<bar>x\<bar> / 2 powi (e - 52)) = n"
    using assms(1,5) by (simp add: roundTiesToEven_eqI)
  show ?thesis
    unfolding roundToDouble_def Let_def b using assms(1,2,6) r by (simp add: max_def)
qed

lemma roundToDouble_zero: "roundToDouble 0 = 0"
  by (simp add: roundToDouble_def)

lemma Math_round_zero: "Math_round 0 = 0"
  by (simp add: Math_round_def)

lemma fadd_zero_zero: "fadd 0 0 = 0"
  by (simp add: fadd_def roundToDouble_zero)

lemma fmul_zero: "fmul 0 y = 0"
  by (simp add: fmul_def roundToDouble_zero)

lemma fdiv_zero: "fdiv 0 y = 0"
  by (simp add: fdiv_def roundToDouble_zero)

section \<open>Properties of the budget tracker\<close>

lemma getStatus_bounds:
  "(periodStart (getStatus api this p now), periodEnd (getStatus api this p now))
     = getPeriodBounds api p now"
  unfolding getStatus_def by (simp add: Let_def split: prod.splits)

lemma getStatus_limit: "limit (getStatus api this p now) = getLimit (config this) p"
  unfolding getStatus_def by (simp add: Let_def split: prod.splits)

text \<open>The running sum of the source's \<open>reduce\<close>, one rounded addition for each cost.\<close>

lemma getStatus_spent_raw:
  "spent (getStatus api this p now) =
     fdiv (Math_round (fmul (foldl fadd 0 (map totalCost
        (filter (\<lambda>c. fst (getPeriodBounds api p now) \<le> timestamp c
                    \<and> timestamp c < snd (getPeriodBounds api p now)) (costs this))))
        1000000)) 1000000"
  unfolding getStatus_def by (simp add: Let_def foldl_map split: prod.splits)

lemma getStatus_remaining_raw:
  "remaining (getStatus api this p now) =
     fdiv (Math_round (fmul (max 0 (fsub (getLimit (config this) p) (foldl fadd 0 (map totalCost
        (filter (\<lambda>c. fst (getPeriodBounds api p now) \<le> timestamp c
                    \<and> timestamp c < snd (getPeriodBounds api p now)) (costs this))))))
        1000000)) 1000000"
  unfolding getStatus_def by (simp add: Let_def foldl_map split: prod.splits)

lemma getStatus_percentUsed_raw:
  "percentUsed (getStatus api this p now) =
     fdiv (Math_round (fmul
        (if getLimit (config this) p > 0
         then fmul (fdiv (foldl fadd 0 (map totalCost
                (filter (\<lambda>c. fst (getPeriodBounds api p now) \<le> timestamp c
                            \<and> timestamp c < snd (getPeriodBounds api p now)) (costs this))))
                (getLimit (config this) p)) 100
         else 0)
        100)) 100"
  unfolding getStatus_def by (simp add: Let_def foldl_map split: prod.splits)

lemma getStatus_cong:
  "costs s = costs s' \<Longrightarrow> config s = config s' \<Longrightarrow> getStatus api s p now = getStatus api s' p now"
  unfolding getStatus_def by simp

lemma fireAlert_frame:
  "costs (fireAlert a st ch s) = costs s" "config (fireAlert a st ch s) = config s"
  "alertsFired (fireAlert a st ch s) = alertsFired s"
  by (cases a; simp)+

lemma fireAlert_latch:
  "emergencyModeActive (fireAlert a st ch s) \<longleftrightarrow>
     emergencyModeActive s \<or> (a = emergency_mode \<and> enabled (emergencyMode (config s)))"
  by (cases a) simp_all

lemma checkThreshold_frame:
  "costs (checkThreshold st s th) = costs s" "config (checkThreshold st s th) = config s"
  unfolding checkThreshold_def by (simp_all add: fireAlert_frame)

lemma checkThreshold_fired:
  "alertsFired (checkThreshold st s th) =
     (if percentage th \<le> percentUsed st then insert (alertKey th) (alertsFired s)
      else alertsFired s)"
  unfolding checkThreshold_def by (auto simp: fireAlert_frame)

lemma checkThreshold_latch:
  "emergencyModeActive (checkThreshold st s th) \<longleftrightarrow>
     emergencyModeActive s \<or>
     (enabled (emergencyMode (config s)) \<and> action th = emergency_mode
      \<and> percentage th \<le> percentUsed st \<and> alertKey th \<notin> alertsFired s)"
  unfolding checkThreshold_def by (auto simp: fireAlert_latch)

lemma loop_frame:
  "costs (foldl (checkThreshold st) s ths) = costs s"
  "config (foldl (checkThreshold st) s ths) = config s"
  by (induction ths arbitrary: s) (simp_all add: checkThreshold_frame)

lemma loop_fired:
  "alertsFired (foldl (checkThreshold st) s ths) =
     alertsFired s \<union> alertKey ` {th \<in> set ths. percentage th \<le> percentUsed st}"
  by (induction ths arbitrary: s) (auto simp: checkThreshold_fired)

lemma loop_latch:
  "emergencyModeActive (foldl (checkThreshold st) s ths) \<longleftrightarrow>
     emergencyModeActive s \<or>
     (enabled (emergencyMode (config s)) \<and>
      (\<exists>th \<in> set ths. action th = emergency_mode \<and> percentage th \<le> percentUsed st
         \<and> alertKey th \<notin> alertsFired s))"
proof (induction ths arbitrary: s)
  case Nil
  then show ?case by simp
next
  case (Cons th ths)
  show ?case
    unfolding foldl_Cons Cons.IH checkThreshold_latch checkThreshold_fired checkThreshold_frame
    by (auto simp: alertKey_def)
qed

lemma checkAlerts_frame:
  "costs (checkAlerts api now s) = costs s" "config (checkAlerts api now s) = config s"
  unfolding checkAlerts_def by (simp_all add: loop_frame)

lemma checkAlerts_latch:
  "emergencyModeActive (checkAlerts api now s) \<longleftrightarrow>
     emergencyModeActive s \<or>
     (enabled (emergencyMode (config s)) \<and>
      (\<exists>th \<in> set (alertThresholds (config s)). action th = emergency_mode
         \<and> percentage th \<le> percentUsed (getStatus api s daily now)
         \<and> alertKey th \<notin> alertsFired s))"
  unfolding checkAlerts_def by (rule loop_latch)

lemma checkAlerts_fired:
  "alertsFired (checkAlerts api now s) =
     alertsFired s \<union> alertKey ` {th \<in> set (alertThresholds (config s)).
        percentage th \<le> percentUsed (getStatus api s daily now)}"
  unfolding checkAlerts_def by (rule loop_fired)

lemma recordCost_costs: "costs (recordCost api now c s) = costs s @ [c]"
  unfolding recordCost_def by (simp add: checkAlerts_frame)

lemma recordCost_config: "config (recordCost api now c s) = config s"
  unfolding recordCost_def by (simp add: checkAlerts_frame)

lemma recordCost_sequence_costs:
  "costs (foldl (\<lambda>s (t, c). recordCost api t c s) s events) = costs s @ map snd events"
  by (induction events arbitrary: s) (simp_all add: recordCost_costs split: prod.splits)

lemma recordCost_sequence_config:
  "config (foldl (\<lambda>s (t, c). recordCost api t c s) s events) = config s"
  by (induction events arbitrary: s) (simp_all add: recordCost_config split: prod.splits)

text \<open>
  Claim C4, as amended. For every sequence of \<open>recordCost\<close> events on a new tracker (each
  taken at its own clock reading) and every period, \<open>getStatus(period).spent\<close> is computed
  from exactly the recorded costs whose timestamp lies in \<open>[periodStart, periodEnd)\<close> of
  that period, in the order recorded: it is their binary64 running sum (each addition
  rounded to the nearest double), times \<open>1e6\<close>, rounded by \<open>Math.round\<close> and divided by
  \<open>1e6\<close>, the product and the quotient rounded to the nearest double. \<open>remaining\<close> is
  \<open>max(0, limit - sum)\<close> for the same sum, rounded the same way.
\<close>

theorem getStatus_spent_sum:
  "spent (getStatus api (foldl (\<lambda>s (t, c). recordCost api t c s) (newBudgetTracker cfg) events) p now)
     = fdiv (Math_round (fmul (foldl fadd 0 (map totalCost
         (filter (\<lambda>c. fst (getPeriodBounds api p now) \<le> timestamp c
                     \<and> timestamp c < snd (getPeriodBounds api p now)) (map snd events))))
         1000000)) 1000000
   \<and> remaining (getStatus api (foldl (\<lambda>s (t, c). recordCost api t c s) (newBudgetTracker cfg) events) p now)
     = fdiv (Math_round (fmul (max 0 (fsub (getLimit (mergeConfig DEFAULT_BUDGET_CONFIG cfg) p)
         (foldl fadd 0 (map totalCost
           (filter (\<lambda>c. fst (getPeriodBounds api p now) \<le> timestamp c
                       \<and> timestamp c < snd (getPeriodBounds api p now)) (map snd events))))))
         1000000)) 1000000
   \<and> periodStart (getStatus api (foldl (\<lambda>s (t, c). recordCost api t c s) (newBudgetTracker cfg) events) p now)
     = fst (getPeriodBounds api p now)
   \<and> periodEnd (getStatus api (foldl (\<lambda>s (t, c). recordCost api t c s) (newBudgetTracker cfg) events) p now)
     = snd (getPeriodBounds api p now)"
proof -
  let ?s = "foldl (\<lambda>s (t, c). recordCost api t c s) (newBudgetTracker cfg) events"
  have c: "costs ?s = map snd events"
    by (simp add: recordCost_sequence_costs newBudgetTracker_def)
  have g: "config ?s = mergeConfig DEFAULT_BUDGET_CONFIG cfg"
    by (simp add: recordCost_sequence_config newBudgetTracker_def)
  have b: "periodStart (getStatus api ?s p now) = fst (getPeriodBounds api p now)"
    "periodEnd (getStatus api ?s p now) = snd (getPeriodBounds api p now)"
    using getStatus_bounds [of api ?s p now] by (metis fst_conv, metis snd_conv)
  show ?thesis
    using getStatus_spent_raw [of api ?s p now] getStatus_remaining_raw [of api ?s p now]
    unfolding b c g by simp
qed

lemma example_bounds:
  "getPeriodBounds utcDate daily exampleNow = (1762041600000, 1762128000000)"
  "getPeriodBounds utcDate daily (exampleNow + 3600000) = (1762041600000, 1762128000000)"
  by code_simp+

lemma exampleCost_fields:
  "totalCost (exampleCost amount t) = roundToDouble amount" "timestamp (exampleCost amount t) = t"
  by (simp_all add: exampleCost_def)

lemma tinyCostsTracker_costs: "costs tinyCostsTracker = tinyCosts"
  unfolding tinyCostsTracker_def
  by (simp add: recordCost_sequence_costs newBudgetTracker_def comp_def)

lemma tinyCosts_spent:
  "fdiv (Math_round (fmul (foldl fadd 0 (map totalCost tinyCosts)) 1000000)) 1000000
     = roundToDouble 0.000007"
  "sum_list (map totalCost tinyCosts) = 8854437155380585 / 2 ^ 70"
proof -
  have r1: "roundToDouble 0.0000015 = 1770887431076117 / 2 ^ 70"
    unfolding fadd_def fsub_def fmul_def fdiv_def
    by (rule roundToDouble_eqI [where e = "- 20" and n = 7083549724304468]) simp_all
  have r2: "roundToDouble 0.0000035 = 8264141345021879 / 2 ^ 71"
    unfolding fadd_def fsub_def fmul_def fdiv_def
    by (rule roundToDouble_eqI [where e = "- 19" and n = 8264141345021879]) simp_all
  have r3: "roundToDouble 0.0000025 = 5902958103587057 / 2 ^ 71"
    unfolding fadd_def fsub_def fmul_def fdiv_def
    by (rule roundToDouble_eqI [where e = "- 19" and n = 5902958103587057]) simp_all
  have r4: "fadd 0 (1770887431076117 / 2 ^ 70) = 1770887431076117 / 2 ^ 70"
    unfolding fadd_def fsub_def fmul_def fdiv_def
    by (rule roundToDouble_eqI [where e = "- 20" and n = 7083549724304468]) simp_all
  have r5: "fadd (1770887431076117 / 2 ^ 70) (8264141345021879 / 2 ^ 71) = 368934881474191 / 2 ^ 66"
    unfolding fadd_def fsub_def fmul_def fdiv_def
    by (rule roundToDouble_eqI [where e = "- 18" and n = 5902958103587056]) simp_all
  have r6: "fadd (368934881474191 / 2 ^ 66) (5902958103587057 / 2 ^ 71) = 1106804644422573 / 2 ^ 67"
    unfolding fadd_def fsub_def fmul_def fdiv_def
    by (rule roundToDouble_eqI [where e = "- 18" and n = 8854437155380584]) simp_all
  have r7: "fmul (1106804644422573 / 2 ^ 67) 1000000 = 8444249301319679 / 2 ^ 50"
    unfolding fadd_def fsub_def fmul_def fdiv_def
    by (rule roundToDouble_eqI [where e = 2 and n = 8444249301319679]) simp_all
  have r8: "Math_round (8444249301319679 / 2 ^ 50) = 7"
    by (simp add: Math_round_def)
  have r9: "fdiv 7 1000000 = 8264141345021879 / 2 ^ 70"
    unfolding fadd_def fsub_def fmul_def fdiv_def
    by (rule roundToDouble_eqI [where e = "- 18" and n = 8264141345021879]) simp_all
  have r10: "roundToDouble 0.000007 = 8264141345021879 / 2 ^ 70"
    unfolding fadd_def fsub_def fmul_def fdiv_def
    by (rule roundToDouble_eqI [where e = "- 18" and n = 8264141345021879]) simp_all
  show "fdiv (Math_round (fmul (foldl fadd 0 (map totalCost tinyCosts)) 1000000)) 1000000
     = roundToDouble 0.000007"
    unfolding tinyCosts_def list.map foldl.simps exampleCost_fields
    by (simp only: r1 r2 r3 r4 r5 r6 r7 r8 r9 r10)
  show "sum_list (map totalCost tinyCosts) = 8854437155380585 / 2 ^ 70"
    unfolding tinyCosts_def list.map exampleCost_fields by (simp only: r1 r2 r3) simp
qed

text \<open>
  Claim C4 as stated fails, by one micro-USD: for the recorded costs \<open>0.0000015\<close>,
  \<open>0.0000035\<close> and \<open>0.0000025\<close>, all within the day, the sum of the three recorded doubles
  is above \<open>0.0000075\<close> and so rounds to \<open>0.000008\<close>, while the running sum of the source
  is \<open>7.499999999999999e-6\<close> and \<open>getStatus\<close> returns the double \<open>0.000007\<close>.
\<close>

theorem getStatus_spent_not_exact_sum:
  "costs tinyCostsTracker = tinyCosts
   \<and> list_all (\<lambda>c. periodStart (getStatus utcDate tinyCostsTracker daily exampleNow) \<le> timestamp c
                   \<and> timestamp c < periodEnd (getStatus utcDate tinyCostsTracker daily exampleNow))
        tinyCosts
   \<and> sum_list (map totalCost tinyCosts) > 0.0000075
   \<and> Math_round (sum_list (map totalCost tinyCosts) * 1000000) / 1000000 = 0.000008
   \<and> spent (getStatus utcDate tinyCostsTracker daily exampleNow) = roundToDouble 0.000007
   \<and> roundToDouble 0.000007 < 0.0000071"
proof -
  have b: "periodStart (getStatus utcDate tinyCostsTracker daily exampleNow) = 1762041600000"
    "periodEnd (getStatus utcDate tinyCostsTracker daily exampleNow) = 1762128000000"
    using getStatus_bounds [of utcDate tinyCostsTracker daily exampleNow]
    unfolding example_bounds by simp_all
  have t: "list_all (\<lambda>c. (1762041600000::int) \<le> timestamp c \<and> timestamp c < 1762128000000) tinyCosts"
    by (simp add: tinyCosts_def exampleCost_fields exampleNow_def)
  then have f: "filter (\<lambda>c. fst (getPeriodBounds utcDate daily exampleNow) \<le> timestamp c
      \<and> timestamp c < snd (getPeriodBounds utcDate daily exampleNow)) tinyCosts = tinyCosts"
    unfolding example_bounds by (simp add: list_all_iff)
  have s: "spent (getStatus utcDate tinyCostsTracker daily exampleNow) = roundToDouble 0.000007"
    unfolding getStatus_spent_raw tinyCostsTracker_costs f by (rule tinyCosts_spent(1))
  have x: "sum_list (map totalCost tinyCosts) > 0.0000075"
    unfolding tinyCosts_spent(2) by simp
  have m: "Math_round (sum_list (map totalCost tinyCosts) * 1000000) / 1000000 = 0.000008"
    unfolding tinyCosts_spent(2) by (simp add: Math_round_def)
  have r: "roundToDouble 0.000007 = 8264141345021879 / 2 ^ 70"
    by (rule roundToDouble_eqI [where e = "- 18" and n = 8264141345021879]) simp_all
  have l: "roundToDouble 0.000007 < 0.0000071" unfolding r by simp
  show ?thesis
    unfolding b by (intro conjI tinyCostsTracker_costs t x m s l)
qed

lemma loop_idle:
  "list_all (\<lambda>th. \<not> percentage th \<le> percentUsed st) ths \<Longrightarrow>
     foldl (checkThreshold st) s ths = s"
  by (induction ths) (simp_all add: checkThreshold_def)

lemma getStatus_zero_limit:
  "getLimit (config this) p \<le> 0 \<Longrightarrow> percentUsed (getStatus api this p now) = 0"
  unfolding getStatus_percentUsed_raw by (simp add: fmul_zero fdiv_zero Math_round_zero)

lemma applyOp_latch:
  assumes "emergencyModeActive this" "op \<noteq> ResetAlerts" "op \<noteq> SetEmergencyMode False"
  shows "emergencyModeActive (applyOp api this (now, op))"
proof (cases op)
  case (RecordCost c)
  then show ?thesis using assms by (simp add: recordCost_def checkAlerts_latch)
next
  case Read
  then show ?thesis using assms by simp
next
  case (SetEmergencyMode b)
  then show ?thesis using assms by (cases b) (simp_all add: setEmergencyMode_def)
next
  case (UpdateConfig cfg)
  then show ?thesis using assms by (simp add: updateConfig_def checkAlerts_latch)
next
  case Prune
  then show ?thesis using assms by (simp add: prune_def Let_def)
next
  case ResetAlerts
  then show ?thesis using assms by simp
qed

lemma runOps_latch:
  "emergencyModeActive this \<Longrightarrow>
   list_all (\<lambda>(t, op). op \<noteq> ResetAlerts \<and> op \<noteq> SetEmergencyMode False) ops \<Longrightarrow>
   emergencyModeActive (runOps api this ops)"
  unfolding runOps_def
proof (induction ops arbitrary: this)
  case Nil
  then show ?case by simp
next
  case (Cons a ops)
  obtain t op where a: "a = (t, op)" by (cases a)
  from Cons.prems a have "emergencyModeActive (applyOp api this a)"
    by (simp add: applyOp_latch)
  with Cons show ?case by simp
qed

lemma recordCost_latch:
  "emergencyModeActive (recordCost api now c this) \<longleftrightarrow>
     emergencyModeActive this \<or>
     (enabled (emergencyMode (config this)) \<and>
      (\<exists>th \<in> set (alertThresholds (config this)). action th = emergency_mode
         \<and> percentage th \<le> percentUsed (getStatus api (this\<lparr>costs := costs this @ [c]\<rparr>) daily now)
         \<and> alertKey th \<notin> alertsFired this))"
  unfolding recordCost_def checkAlerts_latch by simp

lemma latchedTracker_percentUsed:
  "percentUsed (getStatus utcDate ((newBudgetTracker noOverride)\<lparr>costs := [exampleCost 4.9 exampleNow]\<rparr>)
      daily exampleNow) = 98"
proof -
  have r1: "roundToDouble 4.9 = 2758454771764429 / 2 ^ 49"
    unfolding fadd_def fsub_def fmul_def fdiv_def
    by (rule roundToDouble_eqI [where e = 2 and n = 5516909543528858]) simp_all
  have r2: "fadd 0 (2758454771764429 / 2 ^ 49) = 2758454771764429 / 2 ^ 49"
    unfolding fadd_def fsub_def fmul_def fdiv_def
    by (rule roundToDouble_eqI [where e = 2 and n = 5516909543528858]) simp_all
  have r3: "fdiv (2758454771764429 / 2 ^ 49) 5 = 8827055269646173 / 2 ^ 53"
    unfolding fadd_def fsub_def fmul_def fdiv_def
    by (rule roundToDouble_eqI [where e = "- 1" and n = 8827055269646173]) simp_all
  have r4: "fmul (8827055269646173 / 2 ^ 53) 100 = 6896136929411073 / 2 ^ 46"
    unfolding fadd_def fsub_def fmul_def fdiv_def
    by (rule roundToDouble_eqI [where e = 6 and n = 6896136929411073]) simp_all
  have r5: "fmul (6896136929411073 / 2 ^ 46) 100 = 5387606976102401 / 2 ^ 39"
    unfolding fadd_def fsub_def fmul_def fdiv_def
    by (rule roundToDouble_eqI [where e = 13 and n = 5387606976102401]) simp_all
  have r6: "Math_round (5387606976102401 / 2 ^ 39) = 9800"
    by (simp add: Math_round_def)
  have r7: "fdiv 9800 100 = 98"
    unfolding fadd_def fsub_def fmul_def fdiv_def
    by (rule roundToDouble_eqI [where e = 6 and n = 6896136929411072]) simp_all
  have l: "getLimit (config ((newBudgetTracker noOverride)\<lparr>costs := [exampleCost 4.9 exampleNow]\<rparr>)) daily = 5"
    by (simp add: newBudgetTracker_def mergeConfig_def noOverride_def DEFAULT_BUDGET_CONFIG_def)
  have f: "filter (\<lambda>c. fst (getPeriodBounds utcDate daily exampleNow) \<le> timestamp c
      \<and> timestamp c < snd (getPeriodBounds utcDate daily exampleNow))
        (costs ((newBudgetTracker noOverride)\<lparr>costs := [exampleCost 4.9 exampleNow]\<rparr>))
      = [exampleCost 4.9 exampleNow]"
    unfolding example_bounds by (simp add: exampleCost_fields exampleNow_def)
  have p: "(0::real) < 5" by simp
  show ?thesis
    unfolding getStatus_percentUsed_raw l f list.map foldl.simps exampleCost_fields
    by (simp only: p if_True r1 r2 r3 r4 r5 r6 r7)
qed

lemma latchedTracker_active: "emergencyModeActive latchedTracker"
proof -
  let ?th = "\<lparr>percentage = 95, action = emergency_mode, channels = None\<rparr>"
  have c: "costs (newBudgetTracker noOverride) @ [exampleCost 4.9 exampleNow]
      = [exampleCost 4.9 exampleNow]"
    by (simp add: newBudgetTracker_def)
  have e: "enabled (emergencyMode (config (newBudgetTracker noOverride)))"
    by (simp add: newBudgetTracker_def mergeConfig_def noOverride_def DEFAULT_BUDGET_CONFIG_def)
  have m: "?th \<in> set (alertThresholds (config (newBudgetTracker noOverride)))"
    by (simp add: newBudgetTracker_def mergeConfig_def noOverride_def DEFAULT_BUDGET_CONFIG_def)
  have k: "alertKey ?th \<notin> alertsFired (newBudgetTracker noOverride)"
    by (simp add: newBudgetTracker_def)
  have p: "percentage ?th \<le> percentUsed (getStatus utcDate
      ((newBudgetTracker noOverride)\<lparr>costs := costs (newBudgetTracker noOverride) @ [exampleCost 4.9 exampleNow]\<rparr>)
      daily exampleNow)"
    unfolding c latchedTracker_percentUsed by simp
  have a: "action ?th = emergency_mode" by simp
  show ?thesis
    unfolding latchedTracker_def recordCost_latch using e m k p a by blast
qed

text \<open>
  Claim C7, as amended. Once the emergency latch is true it remains true under every
  tracker operation other than \<open>resetAlerts()\<close> and \<open>setEmergencyMode(false)\<close>, one
  at a time and along any sequence of such operations. After \<open>recordCost\<close> the latch
  is true exactly when it was true before, or emergency mode is enabled and some
  configured threshold with action \<open>emergency_mode\<close> has its percentage reached by the
  daily \<open>percentUsed\<close> (the new cost included) and its alert key not yet fired.
\<close>

theorem emergency_latch_holds:
  "(emergencyModeActive this \<and> op \<noteq> ResetAlerts \<and> op \<noteq> SetEmergencyMode False
      \<longrightarrow> emergencyModeActive (applyOp api this (now, op)))
   \<and> (emergencyModeActive this
        \<and> list_all (\<lambda>(t, op). op \<noteq> ResetAlerts \<and> op \<noteq> SetEmergencyMode False) ops
      \<longrightarrow> emergencyModeActive (runOps api this ops))
   \<and> (emergencyModeActive (recordCost api now c this) \<longleftrightarrow>
        emergencyModeActive this \<or>
        (enabled (emergencyMode (config this)) \<and>
         (\<exists>th \<in> set (alertThresholds (config this)). action th = emergency_mode
            \<and> percentage th \<le> percentUsed (getStatus api (this\<lparr>costs := costs this @ [c]\<rparr>) daily now)
            \<and> alertKey th \<notin> alertsFired this)))"
  using applyOp_latch [of this op api now] runOps_latch [of this ops api]
    recordCost_latch [of api now c this]
  by blast

theorem emergency_latch_holds_witness:
  "emergencyModeActive latchedTracker
   \<and> list_all (\<lambda>(t, op). op \<noteq> ResetAlerts \<and> op \<noteq> SetEmergencyMode False) exampleOps
   \<and> emergencyModeActive (applyOp utcDate latchedTracker (exampleNow + 1, Prune))
   \<and> emergencyModeActive (runOps utcDate latchedTracker exampleOps)
   \<and> \<not> emergencyModeActive (newBudgetTracker noOverride)"
proof -
  have h1: "emergencyModeActive latchedTracker" by (rule latchedTracker_active)
  have h2: "list_all (\<lambda>(t, op). op \<noteq> ResetAlerts \<and> op \<noteq> SetEmergencyMode False) exampleOps"
    by (simp add: exampleOps_def)
  have h3: "Prune \<noteq> ResetAlerts \<and> Prune \<noteq> SetEmergencyMode False" by simp
  note t = emergency_latch_holds [of latchedTracker Prune utcDate "exampleNow + 1" exampleOps]
  from t h1 h3 have c1: "emergencyModeActive (applyOp utcDate latchedTracker (exampleNow + 1, Prune))"
    by blast
  from t h1 h2 have c2: "emergencyModeActive (runOps utcDate latchedTracker exampleOps)"
    by blast
  have c3: "\<not> emergencyModeActive (newBudgetTracker noOverride)"
    by (simp add: newBudgetTracker_def)
  show ?thesis by (intro conjI h1 h2 c1 c2 c3)
qed

text \<open>
  Claim C7 as stated fails: \<open>setEmergencyMode(false)\<close> is not \<open>resetAlerts()\<close>, and it
  clears a latch that crossing the 95 percent threshold had set.
\<close>

theorem emergency_latch_cleared_by_setEmergencyMode:
  "emergencyModeActive latchedTracker
   \<and> SetEmergencyMode False \<noteq> ResetAlerts
   \<and> \<not> emergencyModeActive (applyOp utcDate latchedTracker (exampleNow + 1, SetEmergencyMode False))"
proof -
  have h1: "emergencyModeActive latchedTracker" by (rule latchedTracker_active)
  have h2: "\<not> emergencyModeActive (applyOp utcDate latchedTracker (exampleNow + 1, SetEmergencyMode False))"
    by (simp add: setEmergencyMode_def)
  show ?thesis using h1 h2 by simp
qed

text \<open>
  Claim C10, as amended. If the configured limit of a period is 0, \<open>getStatus\<close> returns
  \<open>percentUsed = 0\<close>. With a zero daily limit the alert check fires exactly the
  thresholds whose percentage is at most 0 (their keys join \<open>alertsFired\<close>); when every
  threshold has a positive percentage it changes nothing, so \<open>recordCost\<close> only appends
  the cost; and the admission test \<open>percentUsed \<ge> 100\<close> is false, whatever has been
  spent.
\<close>

theorem zero_limit_status:
  "(getLimit (config this) p = 0 \<longrightarrow> percentUsed (getStatus api this p now) = 0)
   \<and> (dailyLimit (config this) = 0 \<longrightarrow>
        alertsFired (checkAlerts api now this) =
          alertsFired this \<union> alertKey ` {th \<in> set (alertThresholds (config this)). percentage th \<le> 0})
   \<and> (dailyLimit (config this) = 0
        \<and> list_all (\<lambda>th. percentage th > 0) (alertThresholds (config this)) \<longrightarrow>
        checkAlerts api now this = this
        \<and> recordCost api now c this = this\<lparr>costs := costs this @ [c]\<rparr>)
   \<and> (dailyLimit (config this) = 0 \<longrightarrow>
        \<not> percentUsed (getStatus api this daily now) \<ge> 100)"
proof (intro conjI impI)
  assume "getLimit (config this) p = 0"
  then show "percentUsed (getStatus api this p now) = 0"
    by (simp add: getStatus_zero_limit)
next
  assume z: "dailyLimit (config this) = 0"
  then have "percentUsed (getStatus api this daily now) = 0"
    by (simp add: getStatus_zero_limit)
  then show "alertsFired (checkAlerts api now this) =
      alertsFired this \<union> alertKey ` {th \<in> set (alertThresholds (config this)). percentage th \<le> 0}"
    by (simp add: checkAlerts_fired)
next
  assume a: "dailyLimit (config this) = 0
        \<and> list_all (\<lambda>th. percentage th > 0) (alertThresholds (config this))"
  have idle: "checkAlerts api now s = s"
    if "dailyLimit (config s) = 0" "list_all (\<lambda>th. percentage th > 0) (alertThresholds (config s))"
    for s
  proof -
    from that(1) have "percentUsed (getStatus api s daily now) = 0"
      by (simp add: getStatus_zero_limit)
    with that(2) have "list_all (\<lambda>th. \<not> percentage th \<le> percentUsed (getStatus api s daily now))
        (alertThresholds (config s))"
      by (simp add: list_all_iff not_le)
    then show ?thesis unfolding checkAlerts_def by (rule loop_idle)
  qed
  from a show "checkAlerts api now this = this" by (simp add: idle)
  from a show "recordCost api now c this = this\<lparr>costs := costs this @ [c]\<rparr>"
    unfolding recordCost_def by (simp add: idle)
next
  assume "dailyLimit (config this) = 0"
  then have "percentUsed (getStatus api this daily now) = 0"
    by (simp add: getStatus_zero_limit)
  then show "\<not> percentUsed (getStatus api this daily now) \<ge> 100" by simp
qed

theorem zero_limit_status_witness:
  "getLimit (config zeroLimitDefaultAlerts) daily = 0
   \<and> list_all (\<lambda>th. percentage th > 0) (alertThresholds (config zeroLimitDefaultAlerts))
   \<and> percentUsed (getStatus utcDate (recordCost utcDate exampleNow (exampleCost 1000 exampleNow)
         zeroLimitDefaultAlerts) daily exampleNow) = 0
   \<and> recordCost utcDate exampleNow (exampleCost 1000 exampleNow) zeroLimitDefaultAlerts
       = zeroLimitDefaultAlerts\<lparr>costs := [exampleCost 1000 exampleNow]\<rparr>
   \<and> alertsFired (checkAlerts utcDate exampleNow zeroLimitDefaultAlerts) = {}
   \<and> \<not> percentUsed (getStatus utcDate zeroLimitDefaultAlerts daily exampleNow) \<ge> 100"
proof -
  have cfg: "dailyLimit (config zeroLimitDefaultAlerts) = 0"
    by (simp add: zeroLimitDefaultAlerts_def newBudgetTracker_def mergeConfig_def noOverride_def)
  have h1: "getLimit (config zeroLimitDefaultAlerts) daily = 0" using cfg by simp
  have h2: "list_all (\<lambda>th. percentage th > 0) (alertThresholds (config zeroLimitDefaultAlerts))"
    by (simp add: zeroLimitDefaultAlerts_def newBudgetTracker_def mergeConfig_def noOverride_def
        DEFAULT_BUDGET_CONFIG_def)
  have cs: "costs zeroLimitDefaultAlerts = []"
    by (simp add: zeroLimitDefaultAlerts_def newBudgetTracker_def)
  have af: "alertsFired zeroLimitDefaultAlerts = {}"
    by (simp add: zeroLimitDefaultAlerts_def newBudgetTracker_def)
  note t = zero_limit_status [of zeroLimitDefaultAlerts daily utcDate exampleNow "exampleCost 1000 exampleNow"]
  from t cfg h2 have c2: "recordCost utcDate exampleNow (exampleCost 1000 exampleNow) zeroLimitDefaultAlerts
       = zeroLimitDefaultAlerts\<lparr>costs := [exampleCost 1000 exampleNow]\<rparr>"
    by (simp add: cs)
  have cfg': "getLimit (config (recordCost utcDate exampleNow (exampleCost 1000 exampleNow)
         zeroLimitDefaultAlerts)) daily = 0"
    unfolding c2 using cfg by simp
  from zero_limit_status [of "recordCost utcDate exampleNow (exampleCost 1000 exampleNow)
         zeroLimitDefaultAlerts" daily utcDate exampleNow] cfg'
  have c1: "percentUsed (getStatus utcDate (recordCost utcDate exampleNow (exampleCost 1000 exampleNow)
         zeroLimitDefaultAlerts) daily exampleNow) = 0"
    by blast
  from t cfg h2 have "checkAlerts utcDate exampleNow zeroLimitDefaultAlerts = zeroLimitDefaultAlerts"
    by blast
  then have c3: "alertsFired (checkAlerts utcDate exampleNow zeroLimitDefaultAlerts) = {}"
    by (simp add: af)
  from t cfg have c4: "\<not> percentUsed (getStatus utcDate zeroLimitDefaultAlerts daily exampleNow) \<ge> 100"
    by blast
  show ?thesis by (intro conjI h1 h2 c1 c2 c3 c4)
qed

text \<open>
  Claim C10 as stated fails: with a zero daily limit and a threshold of percentage 0 and
  action \<open>emergency_mode\<close>, recording a cost fires the threshold and latches emergency
  mode although \<open>percentUsed\<close> is 0.
\<close>

theorem zero_limit_alert_fires:
  "dailyLimit (config zeroLimitTracker) = 0
   \<and> alertsFired zeroLimitTracker = {}
   \<and> \<not> emergencyModeActive zeroLimitTracker
   \<and> percentUsed (getStatus utcDate zeroLimitTracker daily exampleNow) = 0
   \<and> alertsFired (recordCost utcDate exampleNow (exampleCost 0.01 exampleNow) zeroLimitTracker)
       = {(0, emergency_mode)}
   \<and> emergencyModeActive (recordCost utcDate exampleNow (exampleCost 0.01 exampleNow) zeroLimitTracker)"
proof -
  let ?c = "exampleCost 0.01 exampleNow"
  let ?th = "\<lparr>percentage = 0, action = emergency_mode, channels = None\<rparr>"
  have cfg: "dailyLimit (config zeroLimitTracker) = 0"
    "alertThresholds (config zeroLimitTracker) = [?th]"
    "enabled (emergencyMode (config zeroLimitTracker))"
    by (simp_all add: zeroLimitTracker_def newBudgetTracker_def mergeConfig_def noOverride_def
        DEFAULT_BUDGET_CONFIG_def)
  have af: "alertsFired zeroLimitTracker = {}"
    by (simp add: zeroLimitTracker_def newBudgetTracker_def)
  have na: "\<not> emergencyModeActive zeroLimitTracker"
    by (simp add: zeroLimitTracker_def newBudgetTracker_def)
  have p0: "percentUsed (getStatus utcDate zeroLimitTracker daily exampleNow) = 0"
    using cfg(1) by (simp add: getStatus_zero_limit)
  have p1: "percentUsed (getStatus utcDate (zeroLimitTracker\<lparr>costs := cs\<rparr>) daily exampleNow) = 0"
    for cs
    using cfg(1) by (simp add: getStatus_zero_limit)
  have f: "alertsFired (recordCost utcDate exampleNow ?c zeroLimitTracker) = {(0, emergency_mode)}"
    unfolding recordCost_def checkAlerts_fired
    by (auto simp: cfg(2) af p1 alertKey_def)
  have l: "emergencyModeActive (recordCost utcDate exampleNow ?c zeroLimitTracker)"
    unfolding recordCost_latch by (simp add: cfg af p1 alertKey_def)
  show ?thesis by (intro conjI cfg(1) af na p0 f l)
qed

section \<open>Properties of the cascade executor\<close>

lemma loop_totalCost: "totalCost_acc (fst (cascadeLoop run evaluate n steps i s)) = totalCost_acc s"
  by (induction steps arbitrary: i s) (auto simp: Let_def split: sum.splits)

text \<open>The loop over the suffix \<open>drop i chain\<close>, started at index \<open>i\<close>.\<close>

lemma loop_accept:
  assumes "i \<le> k" "k < length chain"
    and "meetsThreshold run evaluate chain k"
    and "\<forall>j. i \<le> j \<and> j < k \<longrightarrow> \<not> meetsThreshold run evaluate chain j"
  shows "snd (cascadeLoop run evaluate n (drop i chain) i s) =
           Some \<lparr>cr_response = the (stepResponse run chain k),
                 res_provider = st_provider (chain ! k), res_model = st_model (chain ! k),
                 step = k, totalSteps = n, res_totalCost = totalCost_acc s\<rparr>"
  using assms
proof (induction "k - i" arbitrary: i s)
  case 0
  then have ik: "i = k" by simp
  from 0 have d: "drop k chain = chain ! k # drop (Suc k) chain"
    by (simp add: Cons_nth_drop_Suc)
  from 0(4) show ?case
    unfolding ik d
    by (auto simp: meetsThreshold_def stepScore_def stepResponse_def Let_def split: sum.splits)
next
  case (Suc d)
  then have lt: "i < k" by simp
  with Suc have il: "i < length chain" by simp
  have d: "drop i chain = chain ! i # drop (Suc i) chain"
    using il by (simp add: Cons_nth_drop_Suc)
  from Suc(6) lt have nm: "\<not> meetsThreshold run evaluate chain i" by simp
  have ih: "snd (cascadeLoop run evaluate n (drop (Suc i) chain) (Suc i) s') =
      Some \<lparr>cr_response = the (stepResponse run chain k),
            res_provider = st_provider (chain ! k), res_model = st_model (chain ! k),
            step = k, totalSteps = n, res_totalCost = totalCost_acc s'\<rparr>" for s'
    using Suc(1) [of "Suc i" s'] Suc(2-6) lt by simp
  show ?case
    unfolding d using nm
    by (auto simp: ih meetsThreshold_def stepScore_def stepResponse_def Let_def split: sum.splits)
qed

lemma loop_no_accept:
  assumes "\<forall>j. i \<le> j \<and> j < length chain \<longrightarrow> \<not> meetsThreshold run evaluate chain j"
  shows "snd (cascadeLoop run evaluate n (drop i chain) i s) = None"
  using assms
proof (induction "length chain - i" arbitrary: i s)
  case 0
  then show ?case by simp
next
  case (Suc d)
  then have il: "i < length chain" by simp
  have d: "drop i chain = chain ! i # drop (Suc i) chain"
    using il by (simp add: Cons_nth_drop_Suc)
  from Suc(3) il have nm: "\<not> meetsThreshold run evaluate chain i" by simp
  have ih: "snd (cascadeLoop run evaluate n (drop (Suc i) chain) (Suc i) s') = None" for s'
    using Suc(1) [of "Suc i" s'] Suc(2,3) by simp
  show ?case
    unfolding d using nm
    by (auto simp: ih meetsThreshold_def stepScore_def stepResponse_def Let_def split: sum.splits)
qed

lemma loop_best_kept:
  "bestResponse s \<noteq> None \<Longrightarrow> bestResponse (fst (cascadeLoop run evaluate n steps i s)) \<noteq> None"
  by (induction steps arbitrary: i s) (auto simp: Let_def split: sum.splits)

lemma loop_best_none:
  assumes "\<forall>j. i \<le> j \<and> j < length chain \<longrightarrow> \<not> meetsThreshold run evaluate chain j"
  shows "bestResponse (fst (cascadeLoop run evaluate n (drop i chain) i s)) = None \<longleftrightarrow>
           bestResponse s = None \<and>
           (\<forall>j. i \<le> j \<and> j < length chain \<longrightarrow>
              (\<forall>q. stepScore run evaluate chain j = Some q \<longrightarrow> q \<le> bestQuality s))"
  using assms
proof (induction "length chain - i" arbitrary: i s)
  case 0
  then show ?case by auto
next
  case (Suc d)
  then have il: "i < length chain" by simp
  have d: "drop i chain = chain ! i # drop (Suc i) chain"
    using il by (simp add: Cons_nth_drop_Suc)
  from Suc(3) il have nm: "\<not> meetsThreshold run evaluate chain i" by simp
  have ih: "bestResponse (fst (cascadeLoop run evaluate n (drop (Suc i) chain) (Suc i) s')) = None \<longleftrightarrow>
           bestResponse s' = None \<and>
           (\<forall>j. Suc i \<le> j \<and> j < length chain \<longrightarrow>
              (\<forall>q. stepScore run evaluate chain j = Some q \<longrightarrow> q \<le> bestQuality s'))" for s'
    using Suc(1) [of "Suc i" s'] Suc(2,3) by simp
  have split: "(\<forall>j. i \<le> j \<and> j < length chain \<longrightarrow> P j) \<longleftrightarrow>
      P i \<and> (\<forall>j. Suc i \<le> j \<and> j < length chain \<longrightarrow> P j)" for P
    using il by (metis Suc_leD Suc_le_eq le_eq_less_or_eq)
  let ?P = "\<lambda>b j. \<forall>q. stepScore run evaluate chain j = Some q \<longrightarrow> q \<le> b"
  show ?case
  proof (cases "run i (st_provider (chain ! i)) (st_model (chain ! i))")
    case (Inl err)
    then have here: "?P (bestQuality s) i"
      by (simp add: stepScore_def stepResponse_def)
    from Inl have "cascadeLoop run evaluate n (drop i chain) i s =
        cascadeLoop run evaluate n (drop (Suc i) chain) (Suc i) (s\<lparr>runCalls := runCalls s + 1\<rparr>)"
      unfolding d by simp
    then show ?thesis
      unfolding split [of "?P (bestQuality s)"] using here by (simp add: ih)
  next
    case (Inr response)
    with nm have lt: "\<not> evaluate response \<ge> qualityThreshold (chain ! i)"
      by (simp add: meetsThreshold_def stepScore_def stepResponse_def)
    from Inr have sc: "stepScore run evaluate chain i = Some (evaluate response)"
      by (simp add: stepScore_def stepResponse_def)
    define s1 where "s1 = s\<lparr>runCalls := runCalls s + 1, onStepCalls := onStepCalls s @
        [\<lparr>si_provider = st_provider (chain ! i), si_model = st_model (chain ! i),
          quality = evaluate response, index = i\<rparr>]\<rparr>"
    have s1: "bestResponse s1 = bestResponse s" "bestQuality s1 = bestQuality s"
      by (simp_all add: s1_def)
    show ?thesis
    proof (cases "evaluate response > bestQuality s")
      case True
      define s2 where "s2 = s1\<lparr>bestResponse := Some response, bestQuality := evaluate response,
          bestProvider := st_provider (chain ! i), bestModel := st_model (chain ! i),
          bestStep := i\<rparr>"
      have "cascadeLoop run evaluate n (drop i chain) i s =
          cascadeLoop run evaluate n (drop (Suc i) chain) (Suc i) s2"
        unfolding d s2_def s1_def using Inr lt True by (simp add: Let_def)
      moreover have "bestResponse s2 \<noteq> None" by (simp add: s2_def)
      ultimately have "bestResponse (fst (cascadeLoop run evaluate n (drop i chain) i s)) \<noteq> None"
        by (simp add: loop_best_kept)
      moreover have "\<not> ?P (bestQuality s) i" using True sc by simp
      ultimately show ?thesis
        unfolding split [of "?P (bestQuality s)"] by blast
    next
      case False
      have "cascadeLoop run evaluate n (drop i chain) i s =
          cascadeLoop run evaluate n (drop (Suc i) chain) (Suc i) s1"
        unfolding d s1_def using Inr lt False by (simp add: Let_def)
      moreover have "?P (bestQuality s) i" using False sc by simp
      ultimately show ?thesis
        unfolding split [of "?P (bestQuality s)"] by (simp add: ih s1)
    qed
  qed
qed


lemma executeCascade_unfold:
  assumes "chain \<noteq> []"
  shows "fst (executeCascade chain run evaluate) =
     (let s0 = \<lparr>bestResponse = None, bestQuality = 0,
                bestProvider = st_provider (hd chain), bestModel = st_model (hd chain),
                bestStep = 0, totalCost_acc = 0, onStepCalls = [], runCalls = 0\<rparr>;
          res = cascadeLoop run evaluate (length chain) (drop 0 chain) 0 s0
      in case snd res of
           Some r \<Rightarrow> Inr r
         | None \<Rightarrow>
             (case bestResponse (fst res) of
                None \<Rightarrow> Inl AllCascadeStepsFailed
              | Some best \<Rightarrow>
                  Inr \<lparr>cr_response = best, res_provider = bestProvider (fst res),
                       res_model = bestModel (fst res), step = bestStep (fst res),
                       totalSteps = length chain, res_totalCost = totalCost_acc (fst res)\<rparr>))"
  using assms unfolding executeCascade_def
  by (cases chain) (auto simp: Let_def split: prod.splits option.splits)

lemma executeCascade_accept:
  assumes "k < length chain" "meetsThreshold run evaluate chain k"
    and "\<forall>j<k. \<not> meetsThreshold run evaluate chain j"
  shows "fst (executeCascade chain run evaluate) =
           Inr \<lparr>cr_response = the (stepResponse run chain k),
                res_provider = st_provider (chain ! k), res_model = st_model (chain ! k),
                step = k, totalSteps = length chain, res_totalCost = 0\<rparr>"
proof -
  from assms(1) have ne: "chain \<noteq> []" by auto
  have "snd (cascadeLoop run evaluate (length chain) (drop 0 chain) 0 s) =
           Some \<lparr>cr_response = the (stepResponse run chain k),
                 res_provider = st_provider (chain ! k), res_model = st_model (chain ! k),
                 step = k, totalSteps = length chain, res_totalCost = totalCost_acc s\<rparr>" for s
    by (rule loop_accept) (use assms in auto)
  then show ?thesis
    unfolding executeCascade_unfold [OF ne] by (simp add: Let_def)
qed

lemma executeCascade_fails_iff:
  fixes run :: "nat \<Rightarrow> ProviderName \<Rightarrow> string \<Rightarrow> 'e + 'T"
  shows "fst (executeCascade chain run evaluate) = Inl AllCascadeStepsFailed \<longleftrightarrow>
     chain \<noteq> [] \<and>
     (\<forall>j<length chain. \<not> meetsThreshold run evaluate chain j
        \<and> (\<forall>q. stepScore run evaluate chain j = Some q \<longrightarrow> q \<le> 0))"
proof (cases "chain = []")
  case True
  then show ?thesis by (simp add: executeCascade_def)
next
  case ne: False
  show ?thesis
  proof (cases "\<exists>k<length chain. meetsThreshold run evaluate chain k")
    case True
    then obtain k where k: "k < length chain" "meetsThreshold run evaluate chain k"
      and least: "\<forall>j<k. \<not> meetsThreshold run evaluate chain j"
      using exists_least_iff [of "\<lambda>k. k < length chain \<and> meetsThreshold run evaluate chain k"]
      by (metis (no_types, lifting) dual_order.strict_trans)
    from executeCascade_accept [OF k least] k show ?thesis by auto
  next
    case False
    then have none: "\<forall>j. 0 \<le> j \<and> j < length chain \<longrightarrow> \<not> meetsThreshold run evaluate chain j"
      by simp
    let ?s0 = "\<lparr>bestResponse = None, bestQuality = 0,
                bestProvider = st_provider (hd chain), bestModel = st_model (hd chain),
                bestStep = 0, totalCost_acc = 0, onStepCalls = [], runCalls = 0\<rparr> :: 'T CascadeLoop"
    have a: "snd (cascadeLoop run evaluate (length chain) (drop 0 chain) 0 ?s0) = None"
      by (rule loop_no_accept [OF none])
    have b: "bestResponse (fst (cascadeLoop run evaluate (length chain) (drop 0 chain) 0 ?s0)) = None
      \<longleftrightarrow> (\<forall>j. 0 \<le> j \<and> j < length chain \<longrightarrow>
              (\<forall>q. stepScore run evaluate chain j = Some q \<longrightarrow> q \<le> 0))"
      using loop_best_none [OF none, of "length chain" ?s0] by simp
    show ?thesis
      unfolding executeCascade_unfold [OF ne] Let_def a
      using b none ne by (auto split: option.splits)
  qed
qed

lemma loop_step_reject:
  assumes "i < length chain" "run i (st_provider (chain ! i)) (st_model (chain ! i)) = Inl err"
  shows "cascadeLoop run evaluate n (drop i chain) i s =
           cascadeLoop run evaluate n (drop (Suc i) chain) (Suc i) (s\<lparr>runCalls := runCalls s + 1\<rparr>)"
proof -
  have d: "drop i chain = chain ! i # drop (Suc i) chain"
    using assms(1) by (simp add: Cons_nth_drop_Suc)
  show ?thesis unfolding d using assms(2) by simp
qed

lemma loop_step_below:
  assumes "i < length chain"
    and "run i (st_provider (chain ! i)) (st_model (chain ! i)) = Inr response"
    and "\<not> evaluate response \<ge> qualityThreshold (chain ! i)"
  shows "\<exists>s'. cascadeLoop run evaluate n (drop i chain) i s =
                cascadeLoop run evaluate n (drop (Suc i) chain) (Suc i) s'
              \<and> bestOf s' =
                  (if evaluate response > bestQuality s
                   then (Some response, evaluate response, st_provider (chain ! i),
                         st_model (chain ! i), i)
                   else bestOf s)"
proof -
  have d: "drop i chain = chain ! i # drop (Suc i) chain"
    using assms(1) by (simp add: Cons_nth_drop_Suc)
  show ?thesis
    unfolding d using assms(2,3) by (auto simp: Let_def bestOf_def)
qed

lemma not_meets_cases:
  assumes "\<not> meetsThreshold run evaluate chain i"
  obtains err where "run i (st_provider (chain ! i)) (st_model (chain ! i)) = Inl err"
      "stepScore run evaluate chain i = None"
  | response where "run i (st_provider (chain ! i)) (st_model (chain ! i)) = Inr response"
      "stepScore run evaluate chain i = Some (evaluate response)"
      "stepResponse run chain i = Some response"
      "\<not> evaluate response \<ge> qualityThreshold (chain ! i)"
  using assms
  by (cases "run i (st_provider (chain ! i)) (st_model (chain ! i))")
     (auto simp: meetsThreshold_def stepScore_def stepResponse_def)

lemma loop_no_update:
  assumes "\<forall>j. i \<le> j \<and> j < length chain \<longrightarrow> \<not> meetsThreshold run evaluate chain j"
    and "\<forall>j. i \<le> j \<and> j < length chain \<longrightarrow>
           (\<forall>q. stepScore run evaluate chain j = Some q \<longrightarrow> q \<le> bestQuality s)"
  shows "bestOf (fst (cascadeLoop run evaluate n (drop i chain) i s)) = bestOf s"
  using assms
proof (induction "length chain - i" arbitrary: i s)
  case 0
  then show ?case by simp
next
  case (Suc d)
  then have il: "i < length chain" by simp
  from Suc(3) il have nm: "\<not> meetsThreshold run evaluate chain i" by simp
  have ih: "bestOf (fst (cascadeLoop run evaluate n (drop (Suc i) chain) (Suc i) s')) = bestOf s'"
    if "bestOf s' = bestOf s" for s'
  proof -
    from that have bq: "bestQuality s' = bestQuality s" by (simp add: bestOf_def)
    have 1: "d = length chain - Suc i" using Suc(2) by simp
    have 2: "\<forall>j. Suc i \<le> j \<and> j < length chain \<longrightarrow> \<not> meetsThreshold run evaluate chain j"
      using Suc(3) by (auto dest: Suc_leD)
    have 3: "\<forall>j. Suc i \<le> j \<and> j < length chain \<longrightarrow>
           (\<forall>q. stepScore run evaluate chain j = Some q \<longrightarrow> q \<le> bestQuality s')"
      using Suc(4) bq by (auto dest: Suc_leD)
    show ?thesis by (rule Suc(1) [OF 1 2 3])
  qed
  from nm show ?case
  proof (cases rule: not_meets_cases)
    case 1
    then show ?thesis
      using loop_step_reject [where i = i and chain = chain and run = run and evaluate = evaluate
          and n = n and s = s, OF il 1(1)] ih [of "s\<lparr>runCalls := runCalls s + 1\<rparr>"]
      by (simp add: bestOf_def)
  next
    case (2 response)
    from Suc(4) il 2(2) have "evaluate response \<le> bestQuality s" by blast
    then have "\<not> evaluate response > bestQuality s" by simp
    with loop_step_below [where i = i and chain = chain and run = run and response = response
        and evaluate = evaluate and n = n and s = s, OF il 2(1) 2(4)] obtain s'
      where "cascadeLoop run evaluate n (drop i chain) i s =
                cascadeLoop run evaluate n (drop (Suc i) chain) (Suc i) s'"
        and "bestOf s' = bestOf s"
      by (metis 2(4))
    then show ?thesis using ih [of s'] by simp
  qed
qed

lemma loop_best_at:
  assumes "\<forall>j. i \<le> j \<and> j < length chain \<longrightarrow> \<not> meetsThreshold run evaluate chain j"
    and "i \<le> m" "m < length chain"
    and "stepScore run evaluate chain m = Some qm" "qm > bestQuality s"
    and "\<forall>j. i \<le> j \<and> j < length chain \<longrightarrow>
           (\<forall>q. stepScore run evaluate chain j = Some q \<longrightarrow> q \<le> qm)"
    and "\<forall>j. i \<le> j \<and> j < m \<longrightarrow>
           (\<forall>q. stepScore run evaluate chain j = Some q \<longrightarrow> q < qm)"
  shows "bestOf (fst (cascadeLoop run evaluate n (drop i chain) i s)) =
           (stepResponse run chain m, qm, st_provider (chain ! m), st_model (chain ! m), m)"
  using assms
proof (induction "m - i" arbitrary: i s)
  case 0
  then have im: "i = m" by simp
  from 0(2) 0(4) have nm: "\<not> meetsThreshold run evaluate chain m" using im by simp
  from nm show ?case
  proof (cases rule: not_meets_cases)
    case 1
    with 0(5) show ?thesis by simp
  next
    case (2 response)
    with 0(5) have q: "evaluate response = qm" by simp
    with 0(6) have gt: "evaluate response > bestQuality s" by simp
    from loop_step_below [where i = m and chain = chain and run = run and response = response
        and evaluate = evaluate and n = n and s = s, OF 0(4) 2(1) 2(4)] gt q obtain s'
      where l: "cascadeLoop run evaluate n (drop m chain) m s =
                cascadeLoop run evaluate n (drop (Suc m) chain) (Suc m) s'"
        and b: "bestOf s' = (Some response, qm, st_provider (chain ! m), st_model (chain ! m), m)"
      by auto
    from b have bq: "bestQuality s' = qm" by (simp add: bestOf_def)
    have "bestOf (fst (cascadeLoop run evaluate n (drop (Suc m) chain) (Suc m) s')) = bestOf s'"
      by (rule loop_no_update) (use 0(2,7) im bq in \<open>auto dest: Suc_leD\<close>)
    then show ?thesis unfolding im l b using 2(3) by simp
  qed
next
  case (Suc d)
  then have lt: "i < m" by simp
  with Suc have il: "i < length chain" by simp
  from Suc(3) il have nm: "\<not> meetsThreshold run evaluate chain i" by simp
  have ih: "bestOf (fst (cascadeLoop run evaluate n (drop (Suc i) chain) (Suc i) s')) =
           (stepResponse run chain m, qm, st_provider (chain ! m), st_model (chain ! m), m)"
    if "qm > bestQuality s'" for s'
  proof -
    have 1: "d = m - Suc i" using Suc(2) by simp
    have 2: "\<forall>j. Suc i \<le> j \<and> j < length chain \<longrightarrow> \<not> meetsThreshold run evaluate chain j"
      using Suc(3) by (auto dest: Suc_leD)
    have 3: "Suc i \<le> m" using lt by simp
    have 4: "\<forall>j. Suc i \<le> j \<and> j < length chain \<longrightarrow>
           (\<forall>q. stepScore run evaluate chain j = Some q \<longrightarrow> q \<le> qm)"
      using Suc(8) by (auto dest: Suc_leD)
    have 5: "\<forall>j. Suc i \<le> j \<and> j < m \<longrightarrow>
           (\<forall>q. stepScore run evaluate chain j = Some q \<longrightarrow> q < qm)"
      using Suc(9) by (auto dest: Suc_leD)
    show ?thesis by (rule Suc(1) [OF 1 2 3 Suc(5) Suc(6) that 4 5])
  qed
  from nm show ?case
  proof (cases rule: not_meets_cases)
    case 1
    then show ?thesis
      using loop_step_reject [where i = i and chain = chain and run = run and evaluate = evaluate
          and n = n and s = s, OF il 1(1)] ih [of "s\<lparr>runCalls := runCalls s + 1\<rparr>"] Suc(7)
      by simp
  next
    case (2 response)
    from Suc(9) lt 2(2) have below: "evaluate response < qm" by blast
    from loop_step_below [where i = i and chain = chain and run = run and response = response
        and evaluate = evaluate and n = n and s = s, OF il 2(1) 2(4)] obtain s'
      where l: "cascadeLoop run evaluate n (drop i chain) i s =
                cascadeLoop run evaluate n (drop (Suc i) chain) (Suc i) s'"
        and b: "bestOf s' =
                  (if evaluate response > bestQuality s
                   then (Some response, evaluate response, st_provider (chain ! i),
                         st_model (chain ! i), i)
                   else bestOf s)"
      by blast
    from b below Suc(7) have "qm > bestQuality s'"
      by (auto simp: bestOf_def split: if_splits)
    then show ?thesis unfolding l by (rule ih)
  qed
qed

lemma executeCascade_best:
  fixes run :: "nat \<Rightarrow> ProviderName \<Rightarrow> string \<Rightarrow> 'e + 'T"
  assumes "\<forall>j<length chain. \<not> meetsThreshold run evaluate chain j"
    and "m < length chain" "stepScore run evaluate chain m = Some qm" "qm > 0"
    and "\<forall>j<length chain. \<forall>q. stepScore run evaluate chain j = Some q \<longrightarrow> q \<le> qm"
    and "\<forall>j<m. \<forall>q. stepScore run evaluate chain j = Some q \<longrightarrow> q < qm"
  shows "fst (executeCascade chain run evaluate) =
           Inr \<lparr>cr_response = the (stepResponse run chain m),
                res_provider = st_provider (chain ! m), res_model = st_model (chain ! m),
                step = m, totalSteps = length chain, res_totalCost = 0\<rparr>"
proof -
  from assms(2) have ne: "chain \<noteq> []" by auto
  let ?s0 = "\<lparr>bestResponse = None, bestQuality = 0,
              bestProvider = st_provider (hd chain), bestModel = st_model (hd chain),
              bestStep = 0, totalCost_acc = 0, onStepCalls = [], runCalls = 0\<rparr> :: 'T CascadeLoop"
  let ?res = "cascadeLoop run evaluate (length chain) (drop 0 chain) 0 ?s0"
  have none: "\<forall>j. 0 \<le> j \<and> j < length chain \<longrightarrow> \<not> meetsThreshold run evaluate chain j"
    using assms(1) by simp
  have a: "snd ?res = None" by (rule loop_no_accept [OF none])
  have b: "bestOf (fst ?res) =
      (stepResponse run chain m, qm, st_provider (chain ! m), st_model (chain ! m), m)"
    by (rule loop_best_at [OF none]) (use assms in auto)
  from assms(3) obtain r where r: "stepResponse run chain m = Some r"
    by (auto simp: stepScore_def)
  have c: "totalCost_acc (fst ?res) = 0" by (simp add: loop_totalCost)
  from b r have f: "bestResponse (fst ?res) = Some r" "bestProvider (fst ?res) = st_provider (chain ! m)"
    "bestModel (fst ?res) = st_model (chain ! m)" "bestStep (fst ?res) = m"
    by (simp_all add: bestOf_def)
  show ?thesis
    unfolding executeCascade_unfold [OF ne] Let_def a using f c r by simp
qed

text \<open>
  Claim C1 at a failing input. A one-step chain whose only step succeeds with score 0 and
  threshold 8: no step meets its threshold, the successful step with the maximum score is
  step 0, and the executor throws "All cascade steps failed" instead of returning it
  (\<open>bestQuality\<close> starts at 0 and is replaced only by a strictly greater score).
\<close>

theorem cascade_zero_score_step_not_returned:
  "executeCascade oneStepChain runAlwaysOk (\<lambda>response. 0) =
     (Inl AllCascadeStepsFailed,
      [\<lparr>si_provider = openai, si_model = ''gpt-4o-mini'', quality = 0, index = 0\<rparr>], 1)"
  by (simp add: executeCascade_def oneStepChain_def runAlwaysOk_def)

text \<open>
  Claim C2 at a failing input. In a two-step chain the first \<open>run\<close> rejects and the
  second returns a response that \<open>evaluate\<close> scores 0: a \<open>run\<close> call succeeded (its
  \<open>onStep\<close> call is in the trace), and the executor still throws
  "All cascade steps failed".
\<close>

theorem cascade_fails_although_run_succeeded:
  "runFirstFails 1 openai ''gpt-4o'' = Inr ''gpt-4o''
   \<and> executeCascade twoStepChain runFirstFails (\<lambda>response. 0) =
     (Inl AllCascadeStepsFailed,
      [\<lparr>si_provider = openai, si_model = ''gpt-4o'', quality = 0, index = 1\<rparr>], 2)"
  by (simp add: executeCascade_def twoStepChain_def runFirstFails_def)

section \<open>Properties of the semantic cache\<close>

lemma best_loop_mem:
  "foldl (\<lambda>(bestEntry, bestSim) e. if bestSim < g e then (Some e, g e) else (bestEntry, bestSim))
     (b0, s0) xs = (Some b, s) \<Longrightarrow> b \<in> set xs \<or> b0 = Some b"
  by (induction xs arbitrary: b0 s0) (auto split: if_splits)

lemma bestMatch_mem:
  assumes "bestMatch query voc active = (Some b, s)"
  shows "b \<in> set active"
  using assms best_loop_mem [of "\<lambda>e. cosineSimilarity (toVector query voc) (toVector (queryText e) voc)"
      None 0 active b s]
  unfolding bestMatch_def Let_def by simp

lemma lookup_exact:
  assumes "ad_get ad (adapterState this) (hashString dg query) = Some e" "t1 < expiresAt e"
  shows "lookup ad dg this query t1 t2 =
           (Some \<lparr>entry = e\<lparr>hitCount := hitCount e + 1\<rparr>, similarity = 1\<rparr>,
            this\<lparr>adapterState := ad_set ad (adapterState this) (hashString dg query)
                                  (e\<lparr>hitCount := hitCount e + 1\<rparr>),
                 stats := recordHit (en_cost e) (stats this)\<rparr>)"
  using assms unfolding lookup_def by (simp add: Let_def)

lemma lookup_cases:
  obtains (exact) e where
      "ad_get ad (adapterState this) (hashString dg query) = Some e" "t1 < expiresAt e"
      "fst (lookup ad dg this query t1 t2) =
         Some \<lparr>entry = e\<lparr>hitCount := hitCount e + 1\<rparr>, similarity = 1\<rparr>"
      "adapterState (snd (lookup ad dg this query t1 t2)) =
         ad_set ad (adapterState this) (hashString dg query) (e\<lparr>hitCount := hitCount e + 1\<rparr>)"
  | (semantic) b bs where
      "b \<in> set (ad_entries ad (adapterState this))" "t2 < expiresAt b"
      "similarityThreshold (cacheConfig this) \<le> bs"
      "fst (lookup ad dg this query t1 t2) =
         Some \<lparr>entry = b\<lparr>hitCount := hitCount b + 1\<rparr>, similarity = bs\<rparr>"
      "adapterState (snd (lookup ad dg this query t1 t2)) =
         ad_set ad (adapterState this) (queryHash b) (b\<lparr>hitCount := hitCount b + 1\<rparr>)"
  | (miss) "fst (lookup ad dg this query t1 t2) = None"
      "adapterState (snd (lookup ad dg this query t1 t2)) = adapterState this"
proof (cases "case ad_get ad (adapterState this) (hashString dg query) of
                None \<Rightarrow> False | Some e \<Rightarrow> expiresAt e > t1")
  case True
  then obtain e where e: "ad_get ad (adapterState this) (hashString dg query) = Some e"
      "t1 < expiresAt e"
    by (auto split: option.splits)
  show ?thesis
    by (rule exact [OF e]) (simp_all add: lookup_exact [OF e])
next
  case nx: False
  let ?active = "filter (\<lambda>e. expiresAt e > t2) (ad_entries ad (adapterState this))"
  let ?voc = "buildVocab (map queryText ?active @ [query])"
  show ?thesis
  proof (cases "length ?active = 0")
    case True
    with nx have "lookup ad dg this query t1 t2 = (None, this\<lparr>stats := recordMiss (stats this)\<rparr>)"
      unfolding lookup_def by (simp add: Let_def)
    then show ?thesis by (intro miss) simp_all
  next
    case ne: False
    obtain be bs where bm: "bestMatch query ?voc ?active = (be, bs)"
      by (cases "bestMatch query ?voc ?active")
    show ?thesis
    proof (cases "case be of None \<Rightarrow> False | Some b \<Rightarrow> bs \<ge> similarityThreshold (cacheConfig this)")
      case True
      then obtain b where b: "be = Some b" "similarityThreshold (cacheConfig this) \<le> bs"
        by (auto split: option.splits)
      from bm b have "bestMatch query ?voc ?active = (Some b, bs)" by simp
      then have "b \<in> set ?active" by (rule bestMatch_mem)
      then have m: "b \<in> set (ad_entries ad (adapterState this))" "t2 < expiresAt b" by simp_all
      from nx ne bm b have "lookup ad dg this query t1 t2 =
          (Some \<lparr>entry = b\<lparr>hitCount := hitCount b + 1\<rparr>, similarity = bs\<rparr>,
           this\<lparr>adapterState := ad_set ad (adapterState this) (queryHash b) (b\<lparr>hitCount := hitCount b + 1\<rparr>),
                stats := recordHit (en_cost b) (stats this), vocab := ?voc\<rparr>)"
        unfolding lookup_def by (simp add: Let_def)
      then show ?thesis by (intro semantic [OF m b(2)]) simp_all
    next
      case False
      with nx ne bm have "lookup ad dg this query t1 t2 =
          (None, this\<lparr>stats := recordMiss (stats this), vocab := ?voc\<rparr>)"
        unfolding lookup_def by (simp add: Let_def)
      then show ?thesis by (intro miss) simp_all
    qed
  qed
qed

lemma lookup_hit_cases:
  assumes "fst (lookup ad dg this query t1 t2) = Some hit"
  shows "\<exists>e. entry hit = e\<lparr>hitCount := hitCount e + 1\<rparr> \<and>
           ((ad_get ad (adapterState this) (hashString dg query) = Some e \<and> t1 < expiresAt e
               \<and> similarity hit = 1)
            \<or> (e \<in> set (ad_entries ad (adapterState this)) \<and> t2 < expiresAt e
               \<and> similarity hit \<ge> similarityThreshold (cacheConfig this)))"
proof (cases rule: lookup_cases [of ad "this" dg query t1 t2])
  case (exact e)
  with assms have "hit = \<lparr>entry = e\<lparr>hitCount := hitCount e + 1\<rparr>, similarity = 1\<rparr>" by simp
  with exact show ?thesis by auto
next
  case (semantic b bs)
  with assms have "hit = \<lparr>entry = b\<lparr>hitCount := hitCount b + 1\<rparr>, similarity = bs\<rparr>" by simp
  with semantic show ?thesis by auto
next
  case miss
  with assms show ?thesis by simp
qed

text \<open>
  Claim C5. For every adapter, cache state and lookup call, a hit returns a stored entry
  (its \<open>hitCount\<close> incremented) that had not expired at the clock reading of the path
  that found it: \<open>expiresAt > t1\<close> on the exact-hash path, \<open>expiresAt > t2\<close> on the
  semantic scan. An entry with \<open>expiresAt\<close> at or below the clock is therefore never
  returned; if the clock does not run backwards, \<open>expiresAt > t1\<close> on both paths.
\<close>

theorem lookup_never_returns_expired:
  "fst (lookup ad dg this query t1 t2) = Some hit \<longrightarrow>
     (\<exists>e. entry hit = e\<lparr>hitCount := hitCount e + 1\<rparr> \<and>
        ((ad_get ad (adapterState this) (hashString dg query) = Some e \<and> t1 < expiresAt e
            \<and> similarity hit = 1)
         \<or> (e \<in> set (ad_entries ad (adapterState this)) \<and> t2 < expiresAt e)))
     \<and> (t1 < expiresAt (entry hit) \<or> t2 < expiresAt (entry hit))
     \<and> (t1 \<le> t2 \<longrightarrow> t1 < expiresAt (entry hit))"
proof
  assume a: "fst (lookup ad dg this query t1 t2) = Some hit"
  from lookup_hit_cases [OF a] obtain e where e: "entry hit = e\<lparr>hitCount := hitCount e + 1\<rparr>"
    "(ad_get ad (adapterState this) (hashString dg query) = Some e \<and> t1 < expiresAt e
               \<and> similarity hit = 1)
            \<or> (e \<in> set (ad_entries ad (adapterState this)) \<and> t2 < expiresAt e
               \<and> similarity hit \<ge> similarityThreshold (cacheConfig this))"
    by blast
  from e have x: "expiresAt (entry hit) = expiresAt e" by simp
  from e show "(\<exists>e. entry hit = e\<lparr>hitCount := hitCount e + 1\<rparr> \<and>
        ((ad_get ad (adapterState this) (hashString dg query) = Some e \<and> t1 < expiresAt e
            \<and> similarity hit = 1)
         \<or> (e \<in> set (ad_entries ad (adapterState this)) \<and> t2 < expiresAt e)))
     \<and> (t1 < expiresAt (entry hit) \<or> t2 < expiresAt (entry hit))
     \<and> (t1 \<le> t2 \<longrightarrow> t1 < expiresAt (entry hit))"
    unfolding x by (intro conjI) (blast, blast, linarith)
qed

lemma keyedByHash_alt:
  "keyedByHash dg st \<longleftrightarrow>
     distinct (map fst st) \<and>
     (\<forall>k e. map_of st k = Some e \<longrightarrow> queryHash e = k \<and> hashString dg (queryText e) = k)"
proof (cases "distinct (map fst st)")
  case False
  then show ?thesis by (simp add: keyedByHash_def)
next
  case d: True
  let ?Q = "\<lambda>k e. queryHash e = k \<and> hashString dg (queryText e) = k"
  have "list_all (\<lambda>(k, e). ?Q k e) st \<longleftrightarrow> (\<forall>x\<in>set st. case x of (k, e) \<Rightarrow> ?Q k e)"
    by (simp only: list_all_iff)
  also have "\<dots> \<longleftrightarrow> (\<forall>k e. (k, e) \<in> set st \<longrightarrow> ?Q k e)"
    by fast
  also have "\<dots> \<longleftrightarrow> (\<forall>k e. map_of st k = Some e \<longrightarrow> ?Q k e)"
    using d by (simp only: map_of_eq_Some_iff)
  finally show ?thesis using d by (simp only: keyedByHash_def simp_thms)
qed

lemma keyedByHash_update:
  assumes "keyedByHash dg st" "queryHash e = k" "hashString dg (queryText e) = k"
  shows "keyedByHash dg (AList.update k e st)"
proof -
  from assms(1) have d: "distinct (map fst st)"
    and q: "\<And>k' e'. map_of st k' = Some e' \<Longrightarrow>
              queryHash e' = k' \<and> hashString dg (queryText e') = k'"
    unfolding keyedByHash_alt by blast+
  have "distinct (map fst (AList.update k e st))" using d by (rule distinct_update)
  moreover have "queryHash e' = k' \<and> hashString dg (queryText e') = k'"
    if "map_of (AList.update k e st) k' = Some e'" for k' e'
  proof (cases "k' = k")
    case True
    with that have "e' = e" by (simp add: update_conv')
    with True assms(2,3) show ?thesis by simp
  next
    case False
    with that have "map_of st k' = Some e'" by (simp add: update_conv')
    then show ?thesis by (rule q)
  qed
  ultimately show ?thesis unfolding keyedByHash_alt by blast
qed

lemma keyedByHash_delete:
  assumes "keyedByHash dg st"
  shows "keyedByHash dg (AList.delete k st)"
proof -
  from assms(1) have d: "distinct (map fst st)"
    and q: "\<And>k' e'. map_of st k' = Some e' \<Longrightarrow>
              queryHash e' = k' \<and> hashString dg (queryText e') = k'"
    unfolding keyedByHash_alt by blast+
  have "distinct (map fst (AList.delete k st))" using d by (rule distinct_delete)
  moreover have "queryHash e' = k' \<and> hashString dg (queryText e') = k'"
    if "map_of (AList.delete k st) k' = Some e'" for k' e'
  proof (cases "k' = k")
    case True
    with that show ?thesis by (simp add: delete_conv')
  next
    case False
    with that have "map_of st k' = Some e'" by (simp add: delete_conv')
    then show ?thesis by (rule q)
  qed
  ultimately show ?thesis unfolding keyedByHash_alt by blast
qed

lemma keyedByHash_stored:
  assumes "keyedByHash dg st" "e \<in> set (map snd st)"
  shows "map_of st (hashString dg (queryText e)) = Some e"
proof -
  from assms(2) obtain k where "(k, e) \<in> set st" by auto
  moreover from assms(1) have d: "distinct (map fst st)" unfolding keyedByHash_alt by blast
  ultimately have m: "map_of st k = Some e" by simp
  with assms(1) have "hashString dg (queryText e) = k" unfolding keyedByHash_alt by blast
  with m show ?thesis by simp
qed

lemma keyedByHash_lookup:
  assumes "keyedByHash dg (adapterState this)"
  shows "keyedByHash dg (adapterState (snd (lookup MemoryAdapter dg this query t1 t2)))"
proof (cases rule: lookup_cases [of MemoryAdapter "this" dg query t1 t2])
  case (exact e)
  from exact(1) have g: "map_of (adapterState this) (hashString dg query) = Some e"
    by (simp add: MemoryAdapter_def)
  with assms have k: "queryHash e = hashString dg query"
      "hashString dg (queryText e) = hashString dg query"
    unfolding keyedByHash_alt by blast+
  have "keyedByHash dg (AList.update (hashString dg query)
      (e\<lparr>hitCount := hitCount e + 1\<rparr>) (adapterState this))"
    by (rule keyedByHash_update [OF assms]) (simp_all add: k)
  then show ?thesis unfolding exact(4) by (simp add: MemoryAdapter_def)
next
  case (semantic b bs)
  from semantic(1) have "b \<in> set (map snd (adapterState this))"
    by (simp add: MemoryAdapter_def)
  then have "map_of (adapterState this) (hashString dg (queryText b)) = Some b"
    by (rule keyedByHash_stored [OF assms])
  with assms have k: "queryHash b = hashString dg (queryText b)"
    unfolding keyedByHash_alt by blast
  have "keyedByHash dg (AList.update (queryHash b)
      (b\<lparr>hitCount := hitCount b + 1\<rparr>) (adapterState this))"
    by (rule keyedByHash_update [OF assms]) (simp_all add: k)
  then show ?thesis unfolding semantic(5) by (simp add: MemoryAdapter_def)
next
  case miss
  with assms show ?thesis by simp
qed



lemma keyedByHash_store:
  assumes "keyedByHash dg (adapterState this)"
  shows "keyedByHash dg (adapterState (store MemoryAdapter dg this query response ttlMs now))"
proof -
  let ?st1 = "if ad_size MemoryAdapter (adapterState this) \<ge> maxEntries (cacheConfig this)
                 then evictOldest MemoryAdapter (adapterState this) else adapterState this"
  have "keyedByHash dg (evictOldest MemoryAdapter (adapterState this))"
    unfolding evictOldest_def Let_def
    using assms by (auto simp: MemoryAdapter_def keyedByHash_delete)
  with assms have 1: "keyedByHash dg ?st1" by simp
  have "adapterState (store MemoryAdapter dg this query response ttlMs now) =
      AList.update (hashString dg query)
        \<lparr>queryHash = hashString dg query, queryText = query, en_response = content response,
         en_provider = cr_provider response, en_model = cr_model response,
         en_cost = cr_cost response, tokensUsed = tk_total (tokens response),
         createdAt = now,
         expiresAt = now + (case ttlMs of None \<Rightarrow> defaultTtlMs (cacheConfig this) | Some t \<Rightarrow> t),
         hitCount = 0\<rparr> ?st1"
    unfolding store_def Let_def by (simp add: MemoryAdapter_def)
  moreover have "keyedByHash dg (AList.update (hashString dg query)
        \<lparr>queryHash = hashString dg query, queryText = query, en_response = content response,
         en_provider = cr_provider response, en_model = cr_model response,
         en_cost = cr_cost response, tokensUsed = tk_total (tokens response),
         createdAt = now,
         expiresAt = now + (case ttlMs of None \<Rightarrow> defaultTtlMs (cacheConfig this) | Some t \<Rightarrow> t),
         hitCount = 0\<rparr> ?st1)"
    by (rule keyedByHash_update [OF 1]) simp_all
  ultimately show ?thesis by simp
qed

lemma keyedByHash_prune_loop:
  "keyedByHash dg st \<Longrightarrow>
   keyedByHash dg (fst (foldl (\<lambda>(st, pruned) e.
       if expiresAt e \<le> now then (ad_delete MemoryAdapter st (queryHash e), pruned + 1)
       else (st, pruned)) (st, n :: nat) es))"
  by (induction es arbitrary: st n) (simp_all add: MemoryAdapter_def keyedByHash_delete)

lemma keyedByHash_pruneExpired:
  assumes "keyedByHash dg (adapterState this)"
  shows "keyedByHash dg (adapterState (snd (pruneExpired MemoryAdapter this now)))"
  using keyedByHash_prune_loop [OF assms, of now 0 "ad_entries MemoryAdapter (adapterState this)"]
  unfolding pruneExpired_def Let_def by (auto split: prod.splits)

lemma keyedByHash_clear:
  "keyedByHash dg (adapterState (clear MemoryAdapter this))"
  by (simp add: clear_def MemoryAdapter_def keyedByHash_def)

lemma keyedByHash_applyCacheOp:
  "keyedByHash dg (adapterState this) \<Longrightarrow>
   keyedByHash dg (adapterState (applyCacheOp MemoryAdapter dg this op))"
  by (cases op)
     (simp_all add: keyedByHash_lookup keyedByHash_store keyedByHash_pruneExpired keyedByHash_clear)

lemma keyedByHash_runCacheOps:
  "keyedByHash dg (adapterState this) \<Longrightarrow>
   keyedByHash dg (adapterState (runCacheOps MemoryAdapter dg this ops))"
  unfolding runCacheOps_def
  by (induction ops arbitrary: this) (simp_all add: keyedByHash_applyCacheOp)

lemma keyedByHash_new: "keyedByHash dg (adapterState (newSemanticCache [] cfg))"
  by (simp add: newSemanticCache_def keyedByHash_def)

text \<open>
  Claim C6. For every non-expired entry that is still stored, \<open>lookup\<close> with exactly the
  entry's \<open>queryText\<close> returns a hit of similarity 1.0 (at least 0.99) on that entry:
  for every adapter whose \<open>get\<close> answers the hash of the text with the entry, and for
  every entry listed by a \<open>MemoryAdapter\<close> cache after any sequence of cache operations
  on an empty cache, where the key of an entry is always the hash of its text.
\<close>

theorem lookup_own_text_hits:
  "(ad_get ad (adapterState this) (hashString dg (queryText e)) = Some e \<and> t1 < expiresAt e
      \<longrightarrow> fst (lookup ad dg this (queryText e) t1 t2) =
            Some \<lparr>entry = e\<lparr>hitCount := hitCount e + 1\<rparr>, similarity = 1\<rparr>
          \<and> similarity (the (fst (lookup ad dg this (queryText e) t1 t2))) \<ge> 0.99)
   \<and> (e \<in> set (getAllEntries MemoryAdapter
              (runCacheOps MemoryAdapter dg (newSemanticCache [] cfg) ops))
        \<and> t1 < expiresAt e
      \<longrightarrow> fst (lookup MemoryAdapter dg
               (runCacheOps MemoryAdapter dg (newSemanticCache [] cfg) ops) (queryText e) t1 t2) =
            Some \<lparr>entry = e\<lparr>hitCount := hitCount e + 1\<rparr>, similarity = 1\<rparr>
          \<and> similarity (the (fst (lookup MemoryAdapter dg
               (runCacheOps MemoryAdapter dg (newSemanticCache [] cfg) ops) (queryText e) t1 t2)))
              \<ge> 0.99)"
proof (intro conjI impI)
  assume a: "ad_get ad (adapterState this) (hashString dg (queryText e)) = Some e \<and> t1 < expiresAt e"
  then have l: "lookup ad dg this (queryText e) t1 t2 =
           (Some \<lparr>entry = e\<lparr>hitCount := hitCount e + 1\<rparr>, similarity = 1\<rparr>,
            this\<lparr>adapterState := ad_set ad (adapterState this) (hashString dg (queryText e))
                                  (e\<lparr>hitCount := hitCount e + 1\<rparr>),
                 stats := recordHit (en_cost e) (stats this)\<rparr>)"
    by (intro lookup_exact) simp_all
  show "fst (lookup ad dg this (queryText e) t1 t2) =
            Some \<lparr>entry = e\<lparr>hitCount := hitCount e + 1\<rparr>, similarity = 1\<rparr>"
    unfolding l by simp
  show "similarity (the (fst (lookup ad dg this (queryText e) t1 t2))) \<ge> 0.99"
    unfolding l by simp
next
  let ?c = "runCacheOps MemoryAdapter dg (newSemanticCache [] cfg) ops"
  assume a: "e \<in> set (getAllEntries MemoryAdapter ?c) \<and> t1 < expiresAt e"
  have inv: "keyedByHash dg (adapterState ?c)"
    by (rule keyedByHash_runCacheOps [OF keyedByHash_new])
  from a have "e \<in> set (map snd (adapterState ?c))"
    by (simp add: getAllEntries_def MemoryAdapter_def)
  then have "map_of (adapterState ?c) (hashString dg (queryText e)) = Some e"
    by (rule keyedByHash_stored [OF inv])
  then have g: "ad_get MemoryAdapter (adapterState ?c) (hashString dg (queryText e)) = Some e"
    by (simp add: MemoryAdapter_def)
  from a have t: "t1 < expiresAt e" by simp
  have l: "lookup MemoryAdapter dg ?c (queryText e) t1 t2 =
           (Some \<lparr>entry = e\<lparr>hitCount := hitCount e + 1\<rparr>, similarity = 1\<rparr>,
            ?c\<lparr>adapterState := ad_set MemoryAdapter (adapterState ?c) (hashString dg (queryText e))
                                  (e\<lparr>hitCount := hitCount e + 1\<rparr>),
                 stats := recordHit (en_cost e) (stats ?c)\<rparr>)"
    by (rule lookup_exact [OF g t])
  show "fst (lookup MemoryAdapter dg ?c (queryText e) t1 t2) =
            Some \<lparr>entry = e\<lparr>hitCount := hitCount e + 1\<rparr>, similarity = 1\<rparr>"
    unfolding l by simp
  show "similarity (the (fst (lookup MemoryAdapter dg ?c (queryText e) t1 t2))) \<ge> 0.99"
    unfolding l by simp
qed

lemma example_hashes:
  "hashString exampleDigest ''Explain quantum computing'' = ''6578706c61696e20''"
  "hashString exampleDigest ''  explain QUANTUM computing '' = ''6578706c61696e20''"
  by code_simp+

lemma exampleCache_state:
  "adapterState exampleCache = [(''6578706c61696e20'', exampleEntry)]"
proof -
  have "store MemoryAdapter exampleDigest (newSemanticCache [] DEFAULT_CONFIG)
          ''Explain quantum computing'' exampleResponse None exampleNow =
        \<lparr>adapterState = [(''6578706c61696e20'', exampleEntry)], cacheConfig = DEFAULT_CONFIG,
         stats = \<lparr>totalEntries = 1, hits = 0, missCount = 0, hitRate = 0,
                  totalCostSaved = 0, avgResponseTimeMs = 0\<rparr>,
         vocab = []\<rparr>"
    by code_simp
  then show ?thesis
    by (simp add: exampleCache_def exampleOpsCache_def runCacheOps_def)
qed

lemma exampleCache_entries: "getAllEntries MemoryAdapter exampleCache = [exampleEntry]"
  by (simp add: getAllEntries_def exampleCache_state MemoryAdapter_def)

lemma example_lookup_hit:
  "fst (lookup MemoryAdapter exampleDigest exampleCache ''  explain QUANTUM computing ''
          (exampleNow + 1) (exampleNow + 2)) =
     Some \<lparr>entry = exampleEntry\<lparr>hitCount := 1\<rparr>, similarity = 1\<rparr>"
proof -
  have g: "ad_get MemoryAdapter (adapterState exampleCache)
      (hashString exampleDigest ''  explain QUANTUM computing '') = Some exampleEntry"
    by (simp add: example_hashes exampleCache_state MemoryAdapter_def)
  have x: "exampleNow + 1 < expiresAt exampleEntry" by (simp add: exampleEntry_def)
  have h: "hitCount exampleEntry + 1 = 1" by (simp add: exampleEntry_def)
  show ?thesis unfolding lookup_exact [OF g x] h by simp
qed

lemma example_lookup_expired:
  "fst (lookup MemoryAdapter exampleDigest exampleCache ''Explain quantum computing''
          (exampleNow + 3600000) (exampleNow + 3600000)) = None"
proof -
  have g: "ad_get MemoryAdapter (adapterState exampleCache)
      (hashString exampleDigest ''Explain quantum computing'') = Some exampleEntry"
    by (simp add: example_hashes exampleCache_state MemoryAdapter_def)
  have x: "expiresAt exampleEntry = exampleNow + 3600000" by (simp add: exampleEntry_def)
  have e: "ad_entries MemoryAdapter (adapterState exampleCache) = [exampleEntry]"
    by (simp add: exampleCache_state MemoryAdapter_def)
  show ?thesis unfolding lookup_def Let_def g e by (simp add: x)
qed

theorem lookup_never_returns_expired_witness:
  "fst (lookup MemoryAdapter exampleDigest exampleCache ''  explain QUANTUM computing ''
          (exampleNow + 1) (exampleNow + 2)) =
     Some \<lparr>entry = exampleEntry\<lparr>hitCount := 1\<rparr>, similarity = 1\<rparr>
   \<and> exampleNow + 1 \<le> exampleNow + 2
   \<and> exampleNow + 1 < expiresAt (entry \<lparr>entry = exampleEntry\<lparr>hitCount := 1\<rparr>, similarity = 1\<rparr>)
   \<and> expiresAt exampleEntry \<le> exampleNow + 3600000
   \<and> fst (lookup MemoryAdapter exampleDigest exampleCache ''Explain quantum computing''
          (exampleNow + 3600000) (exampleNow + 3600000)) = None"
proof -
  note t = lookup_never_returns_expired [of MemoryAdapter exampleDigest exampleCache
      "''  explain QUANTUM computing ''" "exampleNow + 1" "exampleNow + 2"
      "\<lparr>entry = exampleEntry\<lparr>hitCount := 1\<rparr>, similarity = 1\<rparr>"]
  have o: "exampleNow + 1 \<le> exampleNow + 2" by simp
  from t example_lookup_hit o
  have c: "exampleNow + 1 < expiresAt (entry \<lparr>entry = exampleEntry\<lparr>hitCount := 1\<rparr>, similarity = 1\<rparr>)"
    by blast
  have x: "expiresAt exampleEntry \<le> exampleNow + 3600000" by (simp add: exampleEntry_def)
  show ?thesis by (intro conjI example_lookup_hit o c x example_lookup_expired)
qed

theorem lookup_own_text_hits_witness:
  "exampleEntry \<in> set (getAllEntries MemoryAdapter exampleCache)
   \<and> exampleNow + 1 < expiresAt exampleEntry
   \<and> fst (lookup MemoryAdapter exampleDigest exampleCache (queryText exampleEntry)
            (exampleNow + 1) (exampleNow + 2)) =
        Some \<lparr>entry = exampleEntry\<lparr>hitCount := hitCount exampleEntry + 1\<rparr>, similarity = 1\<rparr>
   \<and> similarity (the (fst (lookup MemoryAdapter exampleDigest exampleCache (queryText exampleEntry)
            (exampleNow + 1) (exampleNow + 2)))) \<ge> 0.99"
proof -
  have m: "exampleEntry \<in> set (getAllEntries MemoryAdapter exampleCache)"
    by (simp add: exampleCache_entries)
  have x: "exampleNow + 1 < expiresAt exampleEntry" by (simp add: exampleEntry_def)
  note t = lookup_own_text_hits [of MemoryAdapter exampleCache exampleDigest exampleEntry
      "exampleNow + 1" "exampleNow + 2" DEFAULT_CONFIG exampleOpsCache]
  from t m x have c: "fst (lookup MemoryAdapter exampleDigest exampleCache (queryText exampleEntry)
            (exampleNow + 1) (exampleNow + 2)) =
        Some \<lparr>entry = exampleEntry\<lparr>hitCount := hitCount exampleEntry + 1\<rparr>, similarity = 1\<rparr>
      \<and> similarity (the (fst (lookup MemoryAdapter exampleDigest exampleCache (queryText exampleEntry)
            (exampleNow + 1) (exampleNow + 2)))) \<ge> 0.99"
    unfolding exampleCache_def by blast
  show ?thesis using m x c by blast
qed

section \<open>The orchestrator: budget admission\<close>

lemma drawUid_simps:
  "fst (drawUid env w) = uid env (uidsDrawn w)"
  "snd (drawUid env w) = w\<lparr>uidsDrawn := uidsDrawn w + 1\<rparr>"
  by (simp_all add: drawUid_def)

lemma recordAnalytics_eq:
  "recordAnalytics env c w =
     w\<lparr>uidsDrawn := uidsDrawn w + 1, analyticsCalls := analyticsCalls w @ [c]\<rparr>"
  by (simp add: recordAnalytics_def drawUid_def)

lemma push_emitted: "emitted (push a m) = emitted m @ [a]"
  by (simp add: push_def Let_def)

text \<open>The store after \<open>push\<close>: the artifact in front, cut to the capacity.\<close>

lemma push_store:
  "am_artifacts (push a m) = take (maxArtifacts m) (a # am_artifacts m)"
  "maxArtifacts (push a m) = maxArtifacts m"
  by (simp_all add: push_def Let_def)

lemma take_Cons_take: "take n (x # take n xs) = take n (x # xs)"
  by (cases n) simp_all

lemma foldl_take_Cons:
  "foldl (\<lambda>s x. take n (x # s)) (take n s0) xs = take n (rev xs @ s0)"
proof (induction xs arbitrary: s0)
  case Nil
  then show ?case by simp
next
  case (Cons x xs)
  show ?case using Cons [of "x # s0"] by (simp add: take_Cons_take)
qed

lemma foldl_take_Cons_map:
  "map f (foldl (\<lambda>s x. take n (x # s)) s0 xs) = foldl (\<lambda>s x. take n (x # s)) (map f s0) (map f xs)"
proof (induction xs arbitrary: s0)
  case Nil
  then show ?case by simp
next
  case (Cons x xs)
  have "map f (take n (x # s0)) = take n (f x # map f s0)"
    by (simp flip: take_map)
  then show ?case using Cons [of "take n (x # s0)"] by simp
qed

lemma enrichFirst_types:
  "(\<And>a. a_type (f a) = a_type a) \<Longrightarrow> map a_type (enrichFirst i f xs) = map a_type xs"
  by (induction xs) simp_all

lemma enrichWithResponse_store:
  "map a_type (am_artifacts (enrichWithResponse i response report m)) = map a_type (am_artifacts m)"
  "maxArtifacts (enrichWithResponse i response report m) = maxArtifacts m"
  "emitted (enrichWithResponse i response report m) = emitted m"
  unfolding enrichWithResponse_def
  by (simp_all add: enrichFirst_types Let_def split: option.splits)

lemma recordBudgetReject_artifact:
  "a_type (fst (recordBudgetReject newId now queryId query sp lm est m)) = budget_reject"
  "a_queryId (fst (recordBudgetReject newId now queryId query sp lm est m)) = queryId"
  "snd (recordBudgetReject newId now queryId query sp lm est m) =
     push (fst (recordBudgetReject newId now queryId query sp lm est m)) m"
  by (simp_all add: recordBudgetReject_def Let_def)

lemma recordRouteDecision_artifact:
  "a_type (fst (recordRouteDecision newId now queryId query decision conf m)) = route_decision"
  "a_queryId (fst (recordRouteDecision newId now queryId query decision conf m)) = queryId"
  "selectedModel (fst (recordRouteDecision newId now queryId query decision conf m)) =
     (providerName (rd_provider decision), rd_model decision)"
  "snd (recordRouteDecision newId now queryId query decision conf m) =
     push (fst (recordRouteDecision newId now queryId query decision conf m)) m"
  by (simp_all add: recordRouteDecision_def Let_def)

lemma recordCascadeStep_artifact:
  "a_type (fst (recordCascadeStep newId now queryId query params m)) =
     (if toProvider params \<noteq> None then cascade_escalation
      else if cs_qualityScore params \<ge> cs_qualityThreshold params
      then cascade_success else cascade_failure)"
  "snd (recordCascadeStep newId now queryId query params m) =
     push (fst (recordCascadeStep newId now queryId query params m)) m"
  by (simp_all add: recordCascadeStep_def Let_def)

lemma onStepArtifact_emitted:
  "\<exists>a. emitted (artifactMgr (snd (onStepArtifact env now queryId cl chain (g, w) info))) =
          emitted (artifactMgr w) @ [a]
       \<and> am_artifacts (artifactMgr (snd (onStepArtifact env now queryId cl chain (g, w) info))) =
          take (maxArtifacts (artifactMgr w)) (a # am_artifacts (artifactMgr w))
       \<and> maxArtifacts (artifactMgr (snd (onStepArtifact env now queryId cl chain (g, w) info))) =
          maxArtifacts (artifactMgr w)
       \<and> a_type a \<in> {cascade_escalation, cascade_success, cascade_failure}
       \<and> providerCalls (snd (onStepArtifact env now queryId cl chain (g, w) info)) = providerCalls w
       \<and> budget (snd (onStepArtifact env now queryId cl chain (g, w) info)) = budget w"
  unfolding onStepArtifact_def Let_def
  by (simp add: split_def drawUid_simps recordCascadeStep_artifact push_emitted push_store)

lemma onStep_fold_emitted:
  "\<exists>rest. emitted (artifactMgr (snd (foldl (onStepArtifact env now queryId cl chain) (g, w) steps))) =
          emitted (artifactMgr w) @ rest
       \<and> am_artifacts (artifactMgr (snd (foldl (onStepArtifact env now queryId cl chain) (g, w) steps))) =
          foldl (\<lambda>s x. take (maxArtifacts (artifactMgr w)) (x # s)) (am_artifacts (artifactMgr w)) rest
       \<and> maxArtifacts (artifactMgr (snd (foldl (onStepArtifact env now queryId cl chain) (g, w) steps))) =
          maxArtifacts (artifactMgr w)
       \<and> cascadeArtifacts rest
       \<and> providerCalls (snd (foldl (onStepArtifact env now queryId cl chain) (g, w) steps)) = providerCalls w
       \<and> budget (snd (foldl (onStepArtifact env now queryId cl chain) (g, w) steps)) = budget w"
proof (induction steps arbitrary: g w)
  case Nil
  then show ?case by (simp add: cascadeArtifacts_def)
next
  case (Cons info steps)
  obtain g1 w1 where s: "onStepArtifact env now queryId cl chain (g, w) info = (g1, w1)"
    by (cases "onStepArtifact env now queryId cl chain (g, w) info")
  from onStepArtifact_emitted [of env now queryId cl chain g w info] s
  obtain a where a: "emitted (artifactMgr w1) = emitted (artifactMgr w) @ [a]"
      "am_artifacts (artifactMgr w1) = take (maxArtifacts (artifactMgr w)) (a # am_artifacts (artifactMgr w))"
      "maxArtifacts (artifactMgr w1) = maxArtifacts (artifactMgr w)"
      "a_type a \<in> {cascade_escalation, cascade_success, cascade_failure}"
      "providerCalls w1 = providerCalls w" "budget w1 = budget w"
    by auto
  from Cons.IH [of g1 w1] obtain rest where
    r: "emitted (artifactMgr (snd (foldl (onStepArtifact env now queryId cl chain) (g1, w1) steps))) =
          emitted (artifactMgr w1) @ rest"
       "am_artifacts (artifactMgr (snd (foldl (onStepArtifact env now queryId cl chain) (g1, w1) steps))) =
          foldl (\<lambda>s x. take (maxArtifacts (artifactMgr w1)) (x # s)) (am_artifacts (artifactMgr w1)) rest"
       "maxArtifacts (artifactMgr (snd (foldl (onStepArtifact env now queryId cl chain) (g1, w1) steps))) =
          maxArtifacts (artifactMgr w1)"
       "cascadeArtifacts rest"
       "providerCalls (snd (foldl (onStepArtifact env now queryId cl chain) (g1, w1) steps)) = providerCalls w1"
       "budget (snd (foldl (onStepArtifact env now queryId cl chain) (g1, w1) steps)) = budget w1"
    by blast
  show ?case
    unfolding foldl_Cons s
    by (rule exI [of _ "a # rest"]) (use a r in \<open>simp add: cascadeArtifacts_def\<close>)
qed

lemma execute_emitted:
  "\<exists>rest. emitted (artifactMgr (snd (snd (execute env text opts now queryId cl routing ra this w)))) =
          emitted (artifactMgr w) @ rest
       \<and> map a_type (am_artifacts (artifactMgr
            (snd (snd (execute env text opts now queryId cl routing ra this w))))) =
          foldl (\<lambda>s x. take (maxArtifacts (artifactMgr w)) (x # s))
            (map a_type (am_artifacts (artifactMgr w))) (map a_type rest)
       \<and> maxArtifacts (artifactMgr (snd (snd (execute env text opts now queryId cl routing ra this w)))) =
          maxArtifacts (artifactMgr w)
       \<and> cascadeArtifacts rest"
proof (cases "strategy routing = cascade \<and> cascadeChain routing \<noteq> None")
  case True
  let ?request = "\<lparr>rq_id = Some queryId, rq_content = text,
                      systemPrompt = o_systemPrompt opts, maxTokens = o_maxTokens opts,
                      temperature = o_temperature opts\<rparr>"
  let ?run = "\<lambda>i provider model.
                         if provider \<in> providers this then chat env i provider model ?request
                         else Inl (ProviderNotRegistered provider)"
  let ?ev = "\<lambda>resp. overallScore (estimate (platform env) resp cl)"
  obtain outcome steps nRuns where
    e: "executeCascade (the (cascadeChain routing)) ?run ?ev = (outcome, steps, nRuns)"
    by (cases "executeCascade (the (cascadeChain routing)) ?run ?ev") auto
  let ?w1 = "w\<lparr>providerCalls := providerCalls w @
      filter (\<lambda>(p, m). p \<in> providers this)
        (map (\<lambda>stp. (st_provider stp, st_model stp)) (take nRuns (the (cascadeChain routing))))\<rparr>"
  let ?w2 = "snd (foldl (onStepArtifact env now queryId cl (the (cascadeChain routing))) ([ra], ?w1) steps)"
  from onStep_fold_emitted [of env now queryId cl "the (cascadeChain routing)" "[ra]" ?w1 steps]
  obtain rest where r: "emitted (artifactMgr ?w2) = emitted (artifactMgr w) @ rest"
      "am_artifacts (artifactMgr ?w2) =
         foldl (\<lambda>s x. take (maxArtifacts (artifactMgr w)) (x # s)) (am_artifacts (artifactMgr w)) rest"
      "maxArtifacts (artifactMgr ?w2) = maxArtifacts (artifactMgr w)"
      "cascadeArtifacts rest"
    by auto
  have "snd (snd (execute env text opts now queryId cl routing ra this w)) = ?w2"
    unfolding execute_def Let_def using True e
    by (simp add: split_def split: sum.splits)
  with r show ?thesis by (auto simp: foldl_take_Cons_map)
next
  case False
  have "emitted (artifactMgr (snd (snd (execute env text opts now queryId cl routing ra this w)))) =
      emitted (artifactMgr w)
    \<and> map a_type (am_artifacts (artifactMgr
          (snd (snd (execute env text opts now queryId cl routing ra this w))))) =
       map a_type (am_artifacts (artifactMgr w))
    \<and> maxArtifacts (artifactMgr (snd (snd (execute env text opts now queryId cl routing ra this w)))) =
       maxArtifacts (artifactMgr w)"
    unfolding execute_def Let_def using False
    by (auto simp: enrichWithResponse_store split: sum.splits)
  then show ?thesis by (intro exI [of _ "[]"]) (simp add: cascadeArtifacts_def)
qed

lemma postProcess_artifactMgr:
  "artifactMgr (snd (snd (postProcess env text now elapsed cl routing generated response this w))) =
     artifactMgr w"
  by (simp add: postProcess_def Let_def recordAnalytics_eq)

text \<open>The call after a cache miss: the budget admission and what follows it.\<close>

lemma processQuery_miss:
  assumes "case am_cache this of None \<Rightarrow> True
           | Some c \<Rightarrow> fst (lookup (adapter env) (digest env) c text now now) = None"
  shows "\<exists>this2. processQuery env this w text opts now elapsed =
     (let w1 = w\<lparr>uidsDrawn := uidsDrawn w + 2,
                   analyticsCalls := analyticsCalls w @ [RecordCacheMiss text]\<rparr>;
          queryId = uid env (uidsDrawn w);
          classification = classifyQuery env text;
          dailyStatus = getStatus (dateApi env) (budget w) daily now
      in if percentUsed dailyStatus \<ge> 100 then
           (Inl (BudgetExceededError ''daily'' (spent dailyStatus) (limit dailyStatus)),
            this2,
            w1\<lparr>uidsDrawn := uidsDrawn w + 3,
                artifactMgr :=
                  snd (recordBudgetReject (uid env (uidsDrawn w + 2)) now queryId classification
                         (spent dailyStatus) (limit dailyStatus) 0 (artifactMgr w))\<rparr>)
         else
           (let routing = routeQuery env classification (budget w);
                recorded = recordRouteDecision (uid env (uidsDrawn w + 2)) now queryId
                             classification routing None (artifactMgr w);
                ex = execute env text opts now queryId classification routing (fst recorded)
                       this2 (w1\<lparr>uidsDrawn := uidsDrawn w + 3, artifactMgr := snd recorded\<rparr>)
            in case fst ex of
                 Inl err \<Rightarrow> (Inl err, fst (snd ex), snd (snd ex))
               | Inr (response, generated) \<Rightarrow>
                   postProcess env text now elapsed classification routing generated
                     response (fst (snd ex)) (snd (snd ex))))"
proof (cases "am_cache this")
  case None
  show ?thesis
    by (rule exI [of _ "this\<lparr>queryCount := queryCount this + 1, am_cache := None\<rparr>"])
       (auto simp: processQuery_def Let_def split_def drawUid_def recordAnalytics_def None
          eval_nat_numeral split: sum.splits)
next
  case (Some c)
  with assms obtain c1 where l: "lookup (adapter env) (digest env) c text now now = (None, c1)"
    by (cases "lookup (adapter env) (digest env) c text now now") auto
  show ?thesis
    by (rule exI [of _ "this\<lparr>queryCount := queryCount this + 1, am_cache := Some c1\<rparr>"])
       (auto simp: processQuery_def Let_def split_def drawUid_def recordAnalytics_def Some l
          eval_nat_numeral split: sum.splits)
qed

lemma processQuery_reject:
  assumes "case am_cache this of None \<Rightarrow> True
           | Some c \<Rightarrow> fst (lookup (adapter env) (digest env) c text now now) = None"
    and "percentUsed (getStatus (dateApi env) (budget w) daily now) \<ge> 100"
  shows "fst (processQuery env this w text opts now elapsed) =
           Inl (BudgetExceededError ''daily''
                  (spent (getStatus (dateApi env) (budget w) daily now))
                  (limit (getStatus (dateApi env) (budget w) daily now)))"
    and "snd (snd (processQuery env this w text opts now elapsed)) =
           w\<lparr>uidsDrawn := uidsDrawn w + 3,
              analyticsCalls := analyticsCalls w @ [RecordCacheMiss text],
              artifactMgr :=
                push (fst (recordBudgetReject (uid env (uidsDrawn w + 2)) now
                             (uid env (uidsDrawn w)) (classifyQuery env text)
                             (spent (getStatus (dateApi env) (budget w) daily now))
                             (limit (getStatus (dateApi env) (budget w) daily now)) 0
                             (artifactMgr w)))
                  (artifactMgr w)\<rparr>"
proof -
  from processQuery_miss [OF assms(1), of w opts elapsed] obtain this2 where
    eq: "processQuery env this w text opts now elapsed =
     (let w1 = w\<lparr>uidsDrawn := uidsDrawn w + 2,
                   analyticsCalls := analyticsCalls w @ [RecordCacheMiss text]\<rparr>;
          queryId = uid env (uidsDrawn w);
          classification = classifyQuery env text;
          dailyStatus = getStatus (dateApi env) (budget w) daily now
      in if percentUsed dailyStatus \<ge> 100 then
           (Inl (BudgetExceededError ''daily'' (spent dailyStatus) (limit dailyStatus)),
            this2,
            w1\<lparr>uidsDrawn := uidsDrawn w + 3,
                artifactMgr :=
                  snd (recordBudgetReject (uid env (uidsDrawn w + 2)) now queryId classification
                         (spent dailyStatus) (limit dailyStatus) 0 (artifactMgr w))\<rparr>)
         else
           (let routing = routeQuery env classification (budget w);
                recorded = recordRouteDecision (uid env (uidsDrawn w + 2)) now queryId
                             classification routing None (artifactMgr w);
                ex = execute env text opts now queryId classification routing (fst recorded)
                       this2 (w1\<lparr>uidsDrawn := uidsDrawn w + 3, artifactMgr := snd recorded\<rparr>)
            in case fst ex of
                 Inl err \<Rightarrow> (Inl err, fst (snd ex), snd (snd ex))
               | Inr (response, generated) \<Rightarrow>
                   postProcess env text now elapsed classification routing generated
                     response (fst (snd ex)) (snd (snd ex))))"
    by blast
  have pq: "processQuery env this w text opts now elapsed =
      (Inl (BudgetExceededError ''daily''
                  (spent (getStatus (dateApi env) (budget w) daily now))
                  (limit (getStatus (dateApi env) (budget w) daily now))),
       this2,
       (w\<lparr>uidsDrawn := uidsDrawn w + 2,
          analyticsCalls := analyticsCalls w @ [RecordCacheMiss text]\<rparr>)
        \<lparr>uidsDrawn := uidsDrawn w + 3,
          artifactMgr :=
            snd (recordBudgetReject (uid env (uidsDrawn w + 2)) now (uid env (uidsDrawn w))
                   (classifyQuery env text)
                   (spent (getStatus (dateApi env) (budget w) daily now))
                   (limit (getStatus (dateApi env) (budget w) daily now)) 0 (artifactMgr w))\<rparr>)"
    unfolding eq Let_def by (simp only: assms(2) if_True)
  show "fst (processQuery env this w text opts now elapsed) =
           Inl (BudgetExceededError ''daily''
                  (spent (getStatus (dateApi env) (budget w) daily now))
                  (limit (getStatus (dateApi env) (budget w) daily now)))"
    unfolding pq by simp
  show "snd (snd (processQuery env this w text opts now elapsed)) =
           w\<lparr>uidsDrawn := uidsDrawn w + 3,
              analyticsCalls := analyticsCalls w @ [RecordCacheMiss text],
              artifactMgr :=
                push (fst (recordBudgetReject (uid env (uidsDrawn w + 2)) now
                             (uid env (uidsDrawn w)) (classifyQuery env text)
                             (spent (getStatus (dateApi env) (budget w) daily now))
                             (limit (getStatus (dateApi env) (budget w) daily now)) 0
                             (artifactMgr w)))
                  (artifactMgr w)\<rparr>"
    unfolding pq by (simp add: recordBudgetReject_artifact(3))
qed

lemma processQuery_routes:
  assumes "case am_cache this of None \<Rightarrow> True
           | Some c \<Rightarrow> fst (lookup (adapter env) (digest env) c text now now) = None"
    and "\<not> percentUsed (getStatus (dateApi env) (budget w) daily now) \<ge> 100"
  shows "\<exists>rest. emitted (artifactMgr (snd (snd (processQuery env this w text opts now elapsed)))) =
           emitted (artifactMgr w) @
             fst (recordRouteDecision (uid env (uidsDrawn w + 2)) now (uid env (uidsDrawn w))
                    (classifyQuery env text) (routeQuery env (classifyQuery env text) (budget w))
                    None (artifactMgr w)) # rest
         \<and> map a_type (am_artifacts (artifactMgr
              (snd (snd (processQuery env this w text opts now elapsed))))) =
             take (maxArtifacts (artifactMgr w))
               (rev (map a_type rest) @ route_decision # map a_type (am_artifacts (artifactMgr w)))
         \<and> maxArtifacts (artifactMgr (snd (snd (processQuery env this w text opts now elapsed)))) =
             maxArtifacts (artifactMgr w)
         \<and> cascadeArtifacts rest"
proof -
  let ?routing = "routeQuery env (classifyQuery env text) (budget w)"
  let ?rec = "recordRouteDecision (uid env (uidsDrawn w + 2)) now (uid env (uidsDrawn w))
                    (classifyQuery env text) ?routing None (artifactMgr w)"
  from processQuery_miss [OF assms(1), of w opts elapsed] obtain this2 where
    eq: "processQuery env this w text opts now elapsed =
     (let w1 = w\<lparr>uidsDrawn := uidsDrawn w + 2,
                   analyticsCalls := analyticsCalls w @ [RecordCacheMiss text]\<rparr>;
          queryId = uid env (uidsDrawn w);
          classification = classifyQuery env text;
          dailyStatus = getStatus (dateApi env) (budget w) daily now
      in if percentUsed dailyStatus \<ge> 100 then
           (Inl (BudgetExceededError ''daily'' (spent dailyStatus) (limit dailyStatus)),
            this2,
            w1\<lparr>uidsDrawn := uidsDrawn w + 3,
                artifactMgr :=
                  snd (recordBudgetReject (uid env (uidsDrawn w + 2)) now queryId classification
                         (spent dailyStatus) (limit dailyStatus) 0 (artifactMgr w))\<rparr>)
         else
           (let routing = routeQuery env classification (budget w);
                recorded = recordRouteDecision (uid env (uidsDrawn w + 2)) now queryId
                             classification routing None (artifactMgr w);
                ex = execute env text opts now queryId classification routing (fst recorded)
                       this2 (w1\<lparr>uidsDrawn := uidsDrawn w + 3, artifactMgr := snd recorded\<rparr>)
            in case fst ex of
                 Inl err \<Rightarrow> (Inl err, fst (snd ex), snd (snd ex))
               | Inr (response, generated) \<Rightarrow>
                   postProcess env text now elapsed classification routing generated
                     response (fst (snd ex)) (snd (snd ex))))"
    by blast
  define w3 where "w3 = (w\<lparr>uidsDrawn := uidsDrawn w + 2,
                   analyticsCalls := analyticsCalls w @ [RecordCacheMiss text]\<rparr>)
                \<lparr>uidsDrawn := uidsDrawn w + 3, artifactMgr := snd ?rec\<rparr>"
  define ex where "ex = execute env text opts now (uid env (uidsDrawn w)) (classifyQuery env text)
                   ?routing (fst ?rec) this2 w3"
  have pq: "processQuery env this w text opts now elapsed =
      (case fst ex of
         Inl err \<Rightarrow> (Inl err, fst (snd ex), snd (snd ex))
       | Inr (response, generated) \<Rightarrow>
           postProcess env text now elapsed (classifyQuery env text) ?routing generated response
             (fst (snd ex)) (snd (snd ex)))"
    unfolding eq ex_def w3_def Let_def by (simp only: assms(2) if_False)
  have "artifactMgr (snd (snd (processQuery env this w text opts now elapsed))) =
      artifactMgr (snd (snd ex))"
    unfolding pq by (cases "fst ex") (simp_all add: postProcess_artifactMgr split: prod.splits)
  moreover from execute_emitted [of env "text" opts now "uid env (uidsDrawn w)" "classifyQuery env text"
      ?routing "fst ?rec" this2 w3]
  obtain rest where "emitted (artifactMgr (snd (snd ex))) = emitted (artifactMgr w3) @ rest"
      "map a_type (am_artifacts (artifactMgr (snd (snd ex)))) =
         foldl (\<lambda>s x. take (maxArtifacts (artifactMgr w3)) (x # s))
           (map a_type (am_artifacts (artifactMgr w3))) (map a_type rest)"
      "maxArtifacts (artifactMgr (snd (snd ex))) = maxArtifacts (artifactMgr w3)"
      "cascadeArtifacts rest"
    by (auto simp: ex_def)
  moreover have "emitted (artifactMgr w3) = emitted (artifactMgr w) @ [fst ?rec]"
    by (simp add: w3_def recordRouteDecision_artifact(4) push_emitted)
  moreover have "maxArtifacts (artifactMgr w3) = maxArtifacts (artifactMgr w)"
    by (simp add: w3_def recordRouteDecision_artifact(4) push_store)
  moreover have "map a_type (am_artifacts (artifactMgr w3)) =
      take (maxArtifacts (artifactMgr w)) (route_decision # map a_type (am_artifacts (artifactMgr w)))"
    by (simp add: w3_def recordRouteDecision_artifact push_store flip: take_map)
  ultimately show ?thesis by (simp add: foldl_take_Cons)
qed

lemma exampleWorld_status:
  "percentUsed (getStatus utcDate (budget (exampleWorld a)) daily (exampleNow + 3600000)) =
     fdiv (Math_round (fmul (fmul (fdiv (fadd 0 (roundToDouble a)) 5) 100) 100)) 100"
  "spent (getStatus utcDate (budget (exampleWorld a)) daily (exampleNow + 3600000)) =
     fdiv (Math_round (fmul (fadd 0 (roundToDouble a)) 1000000)) 1000000"
  "limit (getStatus utcDate (budget (exampleWorld a)) daily (exampleNow + 3600000)) = 5"
proof -
  have c: "costs (budget (exampleWorld a)) = [exampleCost a exampleNow]"
    by (simp add: exampleWorld_def recordCost_costs newBudgetTracker_def)
  have l: "getLimit (config (budget (exampleWorld a))) daily = 5"
    by (simp add: exampleWorld_def recordCost_config newBudgetTracker_def mergeConfig_def
        noOverride_def DEFAULT_BUDGET_CONFIG_def)
  have f: "filter (\<lambda>c. fst (getPeriodBounds utcDate daily (exampleNow + 3600000)) \<le> timestamp c
      \<and> timestamp c < snd (getPeriodBounds utcDate daily (exampleNow + 3600000)))
        [exampleCost a exampleNow] = [exampleCost a exampleNow]"
    unfolding example_bounds by (simp add: exampleCost_fields exampleNow_def)
  have p: "(0::real) < 5" by simp
  show "percentUsed (getStatus utcDate (budget (exampleWorld a)) daily (exampleNow + 3600000)) =
     fdiv (Math_round (fmul (fmul (fdiv (fadd 0 (roundToDouble a)) 5) 100) 100)) 100"
    unfolding getStatus_percentUsed_raw c l f list.map foldl.simps exampleCost_fields
    by (simp only: p if_True)
  show "spent (getStatus utcDate (budget (exampleWorld a)) daily (exampleNow + 3600000)) =
     fdiv (Math_round (fmul (fadd 0 (roundToDouble a)) 1000000)) 1000000"
    unfolding getStatus_spent_raw c f list.map foldl.simps exampleCost_fields ..
  show "limit (getStatus utcDate (budget (exampleWorld a)) daily (exampleNow + 3600000)) = 5"
    unfolding getStatus_limit l ..
qed

text \<open>
  A day's spend of \<open>5.01\<close> against the limit \<open>5\<close> is \<open>100.2\<close> percent, and \<open>4.99\<close> is
  \<open>99.8\<close> percent.
\<close>

lemma example_over:
  "percentUsed (getStatus utcDate (budget (exampleWorld 5.01)) daily (exampleNow + 3600000)) = 7050948166601933 / 2 ^ 46"
  "spent (getStatus utcDate (budget (exampleWorld 5.01)) daily (exampleNow + 3600000)) =
     roundToDouble 5.01"
proof -
  have r1: "roundToDouble 5.01 = 2820379266640773 / 2 ^ 49"
    unfolding fadd_def fsub_def fmul_def fdiv_def
    by (rule roundToDouble_eqI [where e = 2 and n = 5640758533281546]) simp_all
  have r2: "fadd 0 (2820379266640773 / 2 ^ 49) = 2820379266640773 / 2 ^ 49"
    unfolding fadd_def fsub_def fmul_def fdiv_def
    by (rule roundToDouble_eqI [where e = 2 and n = 5640758533281546]) simp_all
  have r3: "fdiv (2820379266640773 / 2 ^ 49) 5 = 4512606826625237 / 2 ^ 52"
    unfolding fadd_def fsub_def fmul_def fdiv_def
    by (rule roundToDouble_eqI [where e = 0 and n = 4512606826625237]) simp_all
  have r4: "fmul (4512606826625237 / 2 ^ 52) 100 = 7050948166601933 / 2 ^ 46"
    unfolding fadd_def fsub_def fmul_def fdiv_def
    by (rule roundToDouble_eqI [where e = 6 and n = 7050948166601933]) simp_all
  have r5: "fmul (7050948166601933 / 2 ^ 46) 100 = 10020"
    unfolding fadd_def fsub_def fmul_def fdiv_def
    by (rule roundToDouble_eqI [where e = 13 and n = 5508553255157760]) simp_all
  have r6: "Math_round 10020 = 10020"
    by (simp add: Math_round_def)
  have r7: "fdiv 10020 100 = 7050948166601933 / 2 ^ 46"
    unfolding fadd_def fsub_def fmul_def fdiv_def
    by (rule roundToDouble_eqI [where e = 6 and n = 7050948166601933]) simp_all
  have r8: "fmul (2820379266640773 / 2 ^ 49) 1000000 = 5010000"
    unfolding fadd_def fsub_def fmul_def fdiv_def
    by (rule roundToDouble_eqI [where e = 22 and n = 5379446538240000]) simp_all
  have r9: "Math_round 5010000 = 5010000"
    by (simp add: Math_round_def)
  have r10: "fdiv 5010000 1000000 = 2820379266640773 / 2 ^ 49"
    unfolding fadd_def fsub_def fmul_def fdiv_def
    by (rule roundToDouble_eqI [where e = 2 and n = 5640758533281546]) simp_all
  show "percentUsed (getStatus utcDate (budget (exampleWorld 5.01)) daily (exampleNow + 3600000)) = 7050948166601933 / 2 ^ 46"
    unfolding exampleWorld_status by (simp only: r1 r2 r3 r4 r5 r6 r7)
  show "spent (getStatus utcDate (budget (exampleWorld 5.01)) daily (exampleNow + 3600000)) =
     roundToDouble 5.01"
    unfolding exampleWorld_status by (simp only: r1 r2 r3 r4 r5 r6 r7 r8 r9 r10)
qed

lemma example_under:
  "percentUsed (getStatus utcDate (budget (exampleWorld 4.99)) daily (exampleNow + 3600000)) = 7022800668930867 / 2 ^ 46"
proof -
  have r1: "roundToDouble 4.99 = 2809120267572347 / 2 ^ 49"
    unfolding fadd_def fsub_def fmul_def fdiv_def
    by (rule roundToDouble_eqI [where e = 2 and n = 5618240535144694]) simp_all
  have r2: "fadd 0 (2809120267572347 / 2 ^ 49) = 2809120267572347 / 2 ^ 49"
    unfolding fadd_def fsub_def fmul_def fdiv_def
    by (rule roundToDouble_eqI [where e = 2 and n = 5618240535144694]) simp_all
  have r3: "fdiv (2809120267572347 / 2 ^ 49) 5 = 4494592428115755 / 2 ^ 52"
    unfolding fadd_def fsub_def fmul_def fdiv_def
    by (rule roundToDouble_eqI [where e = "- 1" and n = 8989184856231510]) simp_all
  have r4: "fmul (4494592428115755 / 2 ^ 52) 100 = 7022800668930867 / 2 ^ 46"
    unfolding fadd_def fsub_def fmul_def fdiv_def
    by (rule roundToDouble_eqI [where e = 6 and n = 7022800668930867]) simp_all
  have r5: "fmul (7022800668930867 / 2 ^ 46) 100 = 9980"
    unfolding fadd_def fsub_def fmul_def fdiv_def
    by (rule roundToDouble_eqI [where e = 13 and n = 5486563022602240]) simp_all
  have r6: "Math_round 9980 = 9980"
    by (simp add: Math_round_def)
  have r7: "fdiv 9980 100 = 7022800668930867 / 2 ^ 46"
    unfolding fadd_def fsub_def fmul_def fdiv_def
    by (rule roundToDouble_eqI [where e = 6 and n = 7022800668930867]) simp_all
  show ?thesis
    unfolding exampleWorld_status by (simp only: r1 r2 r3 r4 r5 r6 r7)
qed

lemma example_percent_over:
  "percentUsed (getStatus utcDate (budget (exampleWorld 5.01)) daily (exampleNow + 3600000)) \<ge> 100"
  unfolding example_over by simp

lemma example_percent_under:
  "percentUsed (getStatus utcDate (budget (exampleWorld 4.99)) daily (exampleNow + 3600000)) < 100"
  unfolding example_under by simp

text \<open>
  C3. A call of \<open>processQuery\<close> that does not end in a cache hit (the manager has no cache,
  or the lookup misses) reaches the admission against the daily budget. If the daily status
  has \<open>percentUsed \<ge> 100\<close>, the call fails with \<open>BudgetExceededError\<close> carrying the
  daily spend and limit, and exactly one artifact is recorded, of type \<open>budget_reject\<close> and
  for this query (so no \<open>route_decision\<close> artifact): the events emitted grow by this one
  artifact, and the store that \<open>getRecent\<close>, \<open>getByType\<close> and \<open>getByQueryId\<close> read is the
  old store with this artifact in front, cut to the capacity of the manager; no provider is
  called and the budget tracker is unchanged. If \<open>percentUsed < 100\<close>, the call goes on to
  routing: the first artifact it emits is the \<open>route_decision\<close> for the router's decision on
  this query, and whatever follows are cascade step artifacts, so no \<open>budget_reject\<close>; the
  store holds, newest first and cut to the capacity, artifacts of these types in front of
  the old ones.
\<close>

theorem processQuery_budget_admission:
  assumes "case am_cache this of None \<Rightarrow> True
           | Some c \<Rightarrow> fst (lookup (adapter env) (digest env) c text now now) = None"
  shows "(percentUsed (getStatus (dateApi env) (budget w) daily now) \<ge> 100 \<longrightarrow>
            (\<exists>a. fst (processQuery env this w text opts now elapsed) =
                   Inl (BudgetExceededError ''daily''
                          (spent (getStatus (dateApi env) (budget w) daily now))
                          (limit (getStatus (dateApi env) (budget w) daily now)))
               \<and> emitted (artifactMgr (snd (snd (processQuery env this w text opts now elapsed)))) =
                   emitted (artifactMgr w) @ [a]
               \<and> am_artifacts (artifactMgr (snd (snd (processQuery env this w text opts now elapsed)))) =
                   take (maxArtifacts (artifactMgr w)) (a # am_artifacts (artifactMgr w))
               \<and> maxArtifacts (artifactMgr (snd (snd (processQuery env this w text opts now elapsed)))) =
                   maxArtifacts (artifactMgr w)
               \<and> a_type a = budget_reject \<and> a_queryId a = uid env (uidsDrawn w)
               \<and> providerCalls (snd (snd (processQuery env this w text opts now elapsed))) =
                   providerCalls w
               \<and> budget (snd (snd (processQuery env this w text opts now elapsed))) = budget w))
       \<and> (percentUsed (getStatus (dateApi env) (budget w) daily now) < 100 \<longrightarrow>
            (\<exists>a rest.
               emitted (artifactMgr (snd (snd (processQuery env this w text opts now elapsed)))) =
                   emitted (artifactMgr w) @ a # rest
               \<and> map a_type (am_artifacts (artifactMgr
                    (snd (snd (processQuery env this w text opts now elapsed))))) =
                   take (maxArtifacts (artifactMgr w))
                     (rev (map a_type (a # rest)) @ map a_type (am_artifacts (artifactMgr w)))
               \<and> maxArtifacts (artifactMgr (snd (snd (processQuery env this w text opts now elapsed)))) =
                   maxArtifacts (artifactMgr w)
               \<and> a_type a = route_decision \<and> a_queryId a = uid env (uidsDrawn w)
               \<and> selectedModel a =
                   (providerName (rd_provider (routeQuery env (classifyQuery env text) (budget w))),
                    rd_model (routeQuery env (classifyQuery env text) (budget w)))
               \<and> cascadeArtifacts rest))"
proof (intro conjI impI)
  assume over: "percentUsed (getStatus (dateApi env) (budget w) daily now) \<ge> 100"
  let ?a = "fst (recordBudgetReject (uid env (uidsDrawn w + 2)) now
                   (uid env (uidsDrawn w)) (classifyQuery env text)
                   (spent (getStatus (dateApi env) (budget w) daily now))
                   (limit (getStatus (dateApi env) (budget w) daily now)) 0 (artifactMgr w))"
  note r = processQuery_reject [OF assms over, of opts elapsed]
  show "\<exists>a. fst (processQuery env this w text opts now elapsed) =
                   Inl (BudgetExceededError ''daily''
                          (spent (getStatus (dateApi env) (budget w) daily now))
                          (limit (getStatus (dateApi env) (budget w) daily now)))
               \<and> emitted (artifactMgr (snd (snd (processQuery env this w text opts now elapsed)))) =
                   emitted (artifactMgr w) @ [a]
               \<and> am_artifacts (artifactMgr (snd (snd (processQuery env this w text opts now elapsed)))) =
                   take (maxArtifacts (artifactMgr w)) (a # am_artifacts (artifactMgr w))
               \<and> maxArtifacts (artifactMgr (snd (snd (processQuery env this w text opts now elapsed)))) =
                   maxArtifacts (artifactMgr w)
               \<and> a_type a = budget_reject \<and> a_queryId a = uid env (uidsDrawn w)
               \<and> providerCalls (snd (snd (processQuery env this w text opts now elapsed))) =
                   providerCalls w
               \<and> budget (snd (snd (processQuery env this w text opts now elapsed))) = budget w"
    by (rule exI [of _ ?a]) (simp add: r push_emitted push_store recordBudgetReject_artifact)
next
  assume "percentUsed (getStatus (dateApi env) (budget w) daily now) < 100"
  then have under: "\<not> percentUsed (getStatus (dateApi env) (budget w) daily now) \<ge> 100" by simp
  let ?a = "fst (recordRouteDecision (uid env (uidsDrawn w + 2)) now (uid env (uidsDrawn w))
                    (classifyQuery env text) (routeQuery env (classifyQuery env text) (budget w))
                    None (artifactMgr w))"
  from processQuery_routes [OF assms under, of opts elapsed] obtain rest where
    "emitted (artifactMgr (snd (snd (processQuery env this w text opts now elapsed)))) =
           emitted (artifactMgr w) @ ?a # rest"
    "map a_type (am_artifacts (artifactMgr
              (snd (snd (processQuery env this w text opts now elapsed))))) =
       take (maxArtifacts (artifactMgr w))
         (rev (map a_type rest) @ route_decision # map a_type (am_artifacts (artifactMgr w)))"
    "maxArtifacts (artifactMgr (snd (snd (processQuery env this w text opts now elapsed)))) =
       maxArtifacts (artifactMgr w)"
    "cascadeArtifacts rest"
    by blast
  then show "\<exists>a rest.
               emitted (artifactMgr (snd (snd (processQuery env this w text opts now elapsed)))) =
                   emitted (artifactMgr w) @ a # rest
               \<and> map a_type (am_artifacts (artifactMgr
                    (snd (snd (processQuery env this w text opts now elapsed))))) =
                   take (maxArtifacts (artifactMgr w))
                     (rev (map a_type (a # rest)) @ map a_type (am_artifacts (artifactMgr w)))
               \<and> maxArtifacts (artifactMgr (snd (snd (processQuery env this w text opts now elapsed)))) =
                   maxArtifacts (artifactMgr w)
               \<and> a_type a = route_decision \<and> a_queryId a = uid env (uidsDrawn w)
               \<and> selectedModel a =
                   (providerName (rd_provider (routeQuery env (classifyQuery env text) (budget w))),
                    rd_model (routeQuery env (classifyQuery env text) (budget w)))
               \<and> cascadeArtifacts rest"
    by (intro exI [of _ ?a] exI [of _ rest]) (simp add: recordRouteDecision_artifact)
qed

theorem processQuery_budget_admission_witness:
  "fst (lookup (adapter exampleEnv) (digest exampleEnv) exampleCache
          ''Explain quantum computing'' (exampleNow + 3600000) (exampleNow + 3600000)) = None
   \<and> percentUsed (getStatus (dateApi exampleEnv) (budget (exampleWorld 5.01)) daily
        (exampleNow + 3600000)) \<ge> 100
   \<and> fst (processQuery exampleEnv exampleManager (exampleWorld 5.01)
            ''Explain quantum computing'' exampleOpts (exampleNow + 3600000) 12) =
        Inl (BudgetExceededError ''daily'' (roundToDouble 5.01) 5)
   \<and> providerCalls (snd (snd (processQuery exampleEnv exampleManager (exampleWorld 5.01)
            ''Explain quantum computing'' exampleOpts (exampleNow + 3600000) 12))) = []
   \<and> map a_type (emitted (artifactMgr (snd (snd (processQuery exampleEnv exampleManager
            (exampleWorld 5.01) ''Explain quantum computing'' exampleOpts
            (exampleNow + 3600000) 12))))) = [budget_reject]
   \<and> map a_type (getRecent None (artifactMgr (snd (snd (processQuery exampleEnv exampleManager
            (exampleWorld 5.01) ''Explain quantum computing'' exampleOpts
            (exampleNow + 3600000) 12))))) = [budget_reject]
   \<and> length (getByType budget_reject None (artifactMgr (snd (snd (processQuery exampleEnv
            exampleManager (exampleWorld 5.01) ''Explain quantum computing'' exampleOpts
            (exampleNow + 3600000) 12))))) = 1
   \<and> length (getByQueryId (uid exampleEnv 0) (artifactMgr (snd (snd (processQuery exampleEnv
            exampleManager (exampleWorld 5.01) ''Explain quantum computing'' exampleOpts
            (exampleNow + 3600000) 12))))) = 1
   \<and> getByType route_decision None (artifactMgr (snd (snd (processQuery exampleEnv
            exampleManager (exampleWorld 5.01) ''Explain quantum computing'' exampleOpts
            (exampleNow + 3600000) 12)))) = []
   \<and> percentUsed (getStatus (dateApi exampleEnv) (budget (exampleWorld 4.99)) daily
        (exampleNow + 3600000)) < 100
   \<and> (\<exists>rest. map a_type (emitted (artifactMgr (snd (snd (processQuery exampleEnv exampleManager
            (exampleWorld 4.99) ''Explain quantum computing'' exampleOpts
            (exampleNow + 3600000) 12))))) = route_decision # rest
         \<and> budget_reject \<notin> set rest)
   \<and> getByType budget_reject None (artifactMgr (snd (snd (processQuery exampleEnv
            exampleManager (exampleWorld 4.99) ''Explain quantum computing'' exampleOpts
            (exampleNow + 3600000) 12)))) = []"
proof -
  let ?w1 = "snd (snd (processQuery exampleEnv exampleManager (exampleWorld 5.01)
            ''Explain quantum computing'' exampleOpts (exampleNow + 3600000) 12))"
  let ?w2 = "snd (snd (processQuery exampleEnv exampleManager (exampleWorld 4.99)
            ''Explain quantum computing'' exampleOpts (exampleNow + 3600000) 12))"
  have env: "adapter exampleEnv = MemoryAdapter" "digest exampleEnv = exampleDigest"
    "dateApi exampleEnv = utcDate"
    by (simp_all add: exampleEnv_def)
  have miss: "fst (lookup (adapter exampleEnv) (digest exampleEnv) exampleCache
          ''Explain quantum computing'' (exampleNow + 3600000) (exampleNow + 3600000)) = None"
    unfolding env by (rule example_lookup_expired)
  have hyp: "case am_cache exampleManager of None \<Rightarrow> True
      | Some c \<Rightarrow> fst (lookup (adapter exampleEnv) (digest exampleEnv) c
          ''Explain quantum computing'' (exampleNow + 3600000) (exampleNow + 3600000)) = None"
    using miss by (simp add: exampleManager_def)
  have w0: "emitted (artifactMgr (exampleWorld x)) = []" "providerCalls (exampleWorld x) = []"
    "am_artifacts (artifactMgr (exampleWorld x)) = []"
    "maxArtifacts (artifactMgr (exampleWorld x)) = 5000" "uidsDrawn (exampleWorld x) = 0" for x
    by (simp_all add: exampleWorld_def getArtifactManager_def newArtifactManager_def)
  have over: "percentUsed (getStatus (dateApi exampleEnv) (budget (exampleWorld 5.01)) daily
        (exampleNow + 3600000)) \<ge> 100"
    unfolding env by (rule example_percent_over)
  have under: "percentUsed (getStatus (dateApi exampleEnv) (budget (exampleWorld 4.99)) daily
        (exampleNow + 3600000)) < 100"
    unfolding env by (rule example_percent_under)
  note t1 = processQuery_budget_admission [OF hyp, of "exampleWorld 5.01" exampleOpts 12]
  note t2 = processQuery_budget_admission [OF hyp, of "exampleWorld 4.99" exampleOpts 12]
  from t1 over obtain a where a:
    "fst (processQuery exampleEnv exampleManager (exampleWorld 5.01)
            ''Explain quantum computing'' exampleOpts (exampleNow + 3600000) 12) =
        Inl (BudgetExceededError ''daily''
          (spent (getStatus (dateApi exampleEnv) (budget (exampleWorld 5.01)) daily (exampleNow + 3600000)))
          (limit (getStatus (dateApi exampleEnv) (budget (exampleWorld 5.01)) daily (exampleNow + 3600000))))"
    "emitted (artifactMgr ?w1) = emitted (artifactMgr (exampleWorld 5.01)) @ [a]"
    "am_artifacts (artifactMgr ?w1) =
       take (maxArtifacts (artifactMgr (exampleWorld 5.01)))
         (a # am_artifacts (artifactMgr (exampleWorld 5.01)))"
    "a_type a = budget_reject"
    "a_queryId a = uid exampleEnv (uidsDrawn (exampleWorld 5.01))"
    "providerCalls ?w1 = providerCalls (exampleWorld 5.01)"
    by blast
  have st: "am_artifacts (artifactMgr ?w1) = [a]"
    using a(3) by (simp add: w0)
  have c1: "fst (processQuery exampleEnv exampleManager (exampleWorld 5.01)
            ''Explain quantum computing'' exampleOpts (exampleNow + 3600000) 12) =
        Inl (BudgetExceededError ''daily'' (roundToDouble 5.01) 5)"
    using a(1) unfolding env example_over(2) exampleWorld_status(3) .
  have c2: "providerCalls ?w1 = []"
    using a(6) by (simp add: w0)
  have c3: "map a_type (emitted (artifactMgr ?w1)) = [budget_reject]"
    using a(2,4) by (simp add: w0)
  have c4: "map a_type (getRecent None (artifactMgr ?w1)) = [budget_reject]"
    unfolding getRecent_def st using a(4) by simp
  have c5: "length (getByType budget_reject None (artifactMgr ?w1)) = 1"
    unfolding getByType_def st using a(4) by simp
  have c6: "length (getByQueryId (uid exampleEnv 0) (artifactMgr ?w1)) = 1"
    unfolding getByQueryId_def st using a(5) by (simp add: w0)
  have c7: "getByType route_decision None (artifactMgr ?w1) = []"
    unfolding getByType_def st using a(4) by simp
  from t2 under obtain b rest where b:
    "emitted (artifactMgr ?w2) = emitted (artifactMgr (exampleWorld 4.99)) @ b # rest"
    "map a_type (am_artifacts (artifactMgr ?w2)) =
       take (maxArtifacts (artifactMgr (exampleWorld 4.99)))
         (rev (map a_type (b # rest)) @ map a_type (am_artifacts (artifactMgr (exampleWorld 4.99))))"
    "a_type b = route_decision" "cascadeArtifacts rest"
    by blast
  have nr: "budget_reject \<notin> set (map a_type rest)"
    using b(4) by (auto simp: cascadeArtifacts_def list_all_iff)
  have c8: "\<exists>rest. map a_type (emitted (artifactMgr ?w2)) = route_decision # rest
         \<and> budget_reject \<notin> set rest"
    by (rule exI [of _ "map a_type rest"]) (use b(1,3) nr in \<open>simp add: w0\<close>)
  have "set (map a_type (am_artifacts (artifactMgr ?w2))) \<subseteq> set (map a_type (b # rest))"
    unfolding b(2) w0 using set_take_subset [of 5000 "rev (map a_type (b # rest))"] by simp
  with nr b(3) have "budget_reject \<notin> set (map a_type (am_artifacts (artifactMgr ?w2)))"
    by auto
  then have c9: "getByType budget_reject None (artifactMgr ?w2) = []"
    unfolding getByType_def by (force simp: filter_empty_conv)
  show ?thesis by (intro conjI miss over c1 c2 c3 c4 c5 c6 c7 under c8 c9)
qed

end
